(* ===== verification/Prelude.thy ===== *)
theory Prelude
  imports Complex_Main "HOL-Library.Signed_Division"
begin

text \<open>
  Shared vocabulary of the development: Go's fixed width integers as \<open>int\<close> with the
  wrap-around written out, Go's truncating division, the value of an operation that may
  panic, and the collections of facts the component theories prove with.
\<close>

named_theorems go_defs \<comment> \<open>definitions of the small accessors that proofs always unfold\<close>
named_theorems wrap_simps \<comment> \<open>wrap-around disappears on values in range\<close>

section \<open>Machine integers\<close>

text \<open>
  \<open>int64\<close> and \<open>int32\<close> values are \<open>int\<close>s in range; every arithmetic operation of the source
  is followed by \<open>wrap64\<close> (or \<open>wrap32\<close>), the two's complement reduction Go performs.
\<close>

definition max_int64 :: int where "max_int64 = 9223372036854775807"

definition min_int64 :: int where "min_int64 = - 9223372036854775808"

definition in_int64 :: "int \<Rightarrow> bool" where
  "in_int64 x \<longleftrightarrow> min_int64 \<le> x \<and> x \<le> max_int64"

definition wrap64 :: "int \<Rightarrow> int" where
  "wrap64 x = (x + 9223372036854775808) mod 18446744073709551616 - 9223372036854775808"

definition wrap32 :: "int \<Rightarrow> int" where
  "wrap32 x = (x + 2147483648) mod 4294967296 - 2147483648"

lemma wrap64_id [wrap_simps]: "in_int64 x \<Longrightarrow> wrap64 x = x"
  by (simp add: in_int64_def wrap64_def min_int64_def max_int64_def mod_pos_pos_trivial)

lemma wrap64_range: "in_int64 (wrap64 x)"
  using pos_mod_bound [of 18446744073709551616 "x + 9223372036854775808"]
    pos_mod_sign [of 18446744073709551616 "x + 9223372036854775808"]
  unfolding in_int64_def wrap64_def min_int64_def max_int64_def by linarith

lemma wrap32_id [wrap_simps]:
  "- 2147483648 \<le> x \<Longrightarrow> x \<le> 2147483647 \<Longrightarrow> wrap32 x = x"
  by (simp add: wrap32_def mod_pos_pos_trivial)

lemma wrap64_cong: "wrap64 x mod 18446744073709551616 = x mod 18446744073709551616"
proof -
  have "wrap64 x mod 18446744073709551616
    = (x + 9223372036854775808 - 9223372036854775808) mod 18446744073709551616"
    unfolding wrap64_def by (rule mod_diff_left_eq)
  then show ?thesis by simp
qed

text \<open>Go's \<open>/\<close> on integers truncates towards zero.\<close>

definition go_div :: "int \<Rightarrow> int \<Rightarrow> int" where
  "go_div a b = sgn a * sgn b * (\<bar>a\<bar> div \<bar>b\<bar>)"

lemma go_div_nonneg: "0 \<le> a \<Longrightarrow> 0 < b \<Longrightarrow> go_div a b = a div b"
  by (cases "a = 0") (simp_all add: go_div_def)

text \<open>Rounding up to a multiple, the shape \<open>((n + b - 1) / b) * b\<close> of the source.\<close>

lemma round_up_bounds:
  fixes n b :: int
  assumes "0 < b"
  shows "n \<le> (n + b - 1) div b * b" and "(n + b - 1) div b * b < n + b"
proof -
  have "(n + b - 1) div b * b = n + b - 1 - (n + b - 1) mod b"
    by (simp add: minus_mod_eq_div_mult)
  moreover have "0 \<le> (n + b - 1) mod b" and "(n + b - 1) mod b \<le> b - 1"
    using assms by (simp_all add: zle_diff1_eq)
  ultimately show "n \<le> (n + b - 1) div b * b" and "(n + b - 1) div b * b < n + b"
    by linarith+
qed

section \<open>Panics\<close>

text \<open>
  A run-time panic ends the goroutine (and, unrecovered, the process): it is not an
  \<open>error\<close> value. An operation that can panic returns \<open>go_panic + 'a\<close>.
\<close>

datatype go_panic = NilMapWrite | NilDereference | NonPositiveInterval

type_synonym 'a go_run = "go_panic + 'a"

section \<open>Errors\<close>

text \<open>
  A Go function with results \<open>(T, error)\<close> is a value of \<open>'e + 'a\<close>; \<open>try_in\<close> is the idiom
  \<open>if err != nil { return err }\<close>, and \<open>map_err\<close> the wrapping of an error in another.
\<close>

definition try_in :: "'e + 'a \<Rightarrow> ('a \<Rightarrow> 'e + 'b) \<Rightarrow> 'e + 'b" where
  "try_in r f = (case r of Inl e \<Rightarrow> Inl e | Inr x \<Rightarrow> f x)"

definition map_err :: "('e \<Rightarrow> 'f) \<Rightarrow> 'e + 'a \<Rightarrow> 'f + 'a" where
  "map_err w r = (case r of Inl e \<Rightarrow> Inl (w e) | Inr x \<Rightarrow> Inr x)"

definition of_opt :: "'e \<Rightarrow> 'a option \<Rightarrow> 'e + 'a" where
  "of_opt e r = (case r of None \<Rightarrow> Inl e | Some x \<Rightarrow> Inr x)"

lemma try_in_simps [simp]:
  "try_in (Inl e) f = Inl e" "try_in (Inr x) f = f x"
  by (simp_all add: try_in_def)

lemma map_err_simps [simp]:
  "map_err w (Inl e) = Inl (w e)" "map_err w (Inr x) = Inr x"
  by (simp_all add: map_err_def)

lemma of_opt_simps [simp]: "of_opt e None = Inl e" "of_opt e (Some x) = Inr x"
  by (simp_all add: of_opt_def)

lemma try_in_Inr: "try_in r f = Inr y \<longleftrightarrow> (\<exists>x. r = Inr x \<and> f x = Inr y)"
  by (cases r) auto

lemma map_err_Inr: "map_err w r = Inr y \<longleftrightarrow> r = Inr y"
  by (cases r) auto

lemma of_opt_Inr: "of_opt e r = Inr y \<longleftrightarrow> r = Some y"
  by (cases r) auto

lemmas result_Inr = try_in_Inr map_err_Inr of_opt_Inr

section \<open>Maps\<close>

text \<open>
  A Go map is nil or allocated; reading a nil map is reading an empty one, writing it is a
  panic.
\<close>

type_synonym ('k, 'v) go_map = "('k \<rightharpoonup> 'v) option"

definition map_get :: "('k, 'v) go_map \<Rightarrow> 'k \<Rightarrow> 'v option" where
  [go_defs]: "map_get m k = (case m of None \<Rightarrow> None | Some f \<Rightarrow> f k)"

definition map_set :: "('k, 'v) go_map \<Rightarrow> 'k \<Rightarrow> 'v \<Rightarrow> ('k, 'v) go_map go_run" where
  [go_defs]: "map_set m k v =
     (case m of None \<Rightarrow> Inl NilMapWrite | Some f \<Rightarrow> Inr (Some (f(k \<mapsto> v))))"

lemma map_get_None [simp]: "map_get None k = None"
  by (simp add: map_get_def)

lemma map_get_Some [simp]: "map_get (Some f) k = f k"
  by (simp add: map_get_def)

lemma map_set_get:
  "map_set m k v = Inr m' \<Longrightarrow> map_get m' k' = (if k' = k then Some v else map_get m k')"
  by (auto simp: map_set_def split: option.splits)

text \<open>A left fold of updates that never touch a key leaves it.\<close>

lemma fold_inv:
  assumes "\<And>x s. x \<in> set xs \<Longrightarrow> I s \<Longrightarrow> I (f x s)" and "I s"
  shows "I (fold f xs s)"
  using assms by (induction xs arbitrary: s) auto

end
