(* ===== verification/GoStrings.thy ===== *)
theory GoStrings
  imports Prelude
begin

text \<open>
  The functions of Go's packages strings and unicode/utf8 that the program calls. A Go string
  is a sequence of bytes, which is what HOL's \<open>string\<close> (a list of 8 bit characters) is; the
  bytes above 127 appear as \<open>CHR 0xNN\<close>.
\<close>

section \<open>Prefixes and suffixes\<close>

fun strip_prefix :: "string \<Rightarrow> string \<Rightarrow> string option" where
  "strip_prefix [] s = Some s"
| "strip_prefix (p # ps) [] = None"
| "strip_prefix (p # ps) (c # cs) = (if p = c then strip_prefix ps cs else None)"

lemma strip_prefix_iff: "strip_prefix p s = Some r \<longleftrightarrow> s = p @ r"
  by (induction p s rule: strip_prefix.induct) auto

definition HasSuffix :: "string \<Rightarrow> string \<Rightarrow> bool" where
  "HasSuffix s suf \<longleftrightarrow> length suf \<le> length s \<and> drop (length s - length suf) s = suf"

definition TrimSuffix :: "string \<Rightarrow> string \<Rightarrow> string" where
  "TrimSuffix s suf = (if HasSuffix s suf then take (length s - length suf) s else s)"

lemma HasSuffix_append [simp]: "HasSuffix (s @ suf) suf"
  by (simp add: HasSuffix_def)

lemma TrimSuffix_append [simp]: "TrimSuffix (s @ suf) suf = s"
  by (simp add: TrimSuffix_def)

lemma HasSuffix_iff: "HasSuffix s suf \<longleftrightarrow> (\<exists>r. s = r @ suf)"
  unfolding HasSuffix_def by (metis append_take_drop_id HasSuffix_append HasSuffix_def)

fun Contains :: "string \<Rightarrow> string \<Rightarrow> bool" where
  "Contains [] p = (p = [])"
| "Contains (c # cs) p = (strip_prefix p (c # cs) \<noteq> None \<or> Contains cs p)"

lemma Contains_iff: "Contains s p \<longleftrightarrow> (\<exists>a b. s = a @ p @ b)"
proof (induction s)
  case Nil
  then show ?case by simp
next
  case (Cons c cs)
  have "strip_prefix p (c # cs) \<noteq> None \<longleftrightarrow> (\<exists>b. c # cs = p @ b)"
    using strip_prefix_iff [of p "c # cs"] by (cases "strip_prefix p (c # cs)") auto
  then show ?case
    using Cons.IH by (auto simp: Cons_eq_append_conv)
qed

section \<open>Replacing a character\<close>

text \<open>\<open>strings.ReplaceAll\<close> for a one byte pattern, the only kind the source passes.\<close>

fun ReplaceAll :: "string \<Rightarrow> char \<Rightarrow> string \<Rightarrow> string" where
  "ReplaceAll [] p r = []"
| "ReplaceAll (c # cs) p r = (if c = p then r else [c]) @ ReplaceAll cs p r"

lemma ReplaceAll_append: "ReplaceAll (a @ b) p r = ReplaceAll a p r @ ReplaceAll b p r"
  by (induction a) auto

section \<open>Lower case\<close>

text \<open>
  \<open>strings.ToLower\<close>. The two non-ASCII letters whose lower case is ASCII are U+0130
  (capital I with dot, to i) and U+212A (Kelvin sign, to k); every other non-ASCII rune maps
  to a non-ASCII rune, left as it is here, which no comparison with an ASCII literal (the only
  use the source makes of the result) can tell.
\<close>

definition lower_char :: "char \<Rightarrow> char" where
  "lower_char c = (if 65 \<le> (of_char c :: nat) \<and> (of_char c :: nat) \<le> 90
     then char_of (of_char c + 32 :: nat) else c)"

fun ToLower :: "string \<Rightarrow> string" where
  "ToLower [] = []"
| "ToLower (c # cs) =
     (if c = CHR 0xC4 \<and> take 1 cs = [CHR 0xB0] then CHR ''i'' # ToLower (drop 1 cs)
      else if c = CHR 0xE2 \<and> take 2 cs = [CHR 0x84, CHR 0xAA] then CHR ''k'' # ToLower (drop 2 cs)
      else lower_char c # ToLower cs)"

section \<open>White space\<close>

text \<open>
  \<open>strings.TrimSpace\<close> cuts every leading and trailing rune with the Unicode property
  White_Space. The list holds their UTF-8 encodings; no encoding is a prefix of another, and
  decoding the last rune of a string finds one exactly when the string ends in its bytes.
\<close>

definition space_runes :: "string list" where
  "space_runes =
     [[CHR 0x09], [CHR 0x0A], [CHR 0x0B], [CHR 0x0C], [CHR 0x0D], [CHR 0x20],
      [CHR 0xC2, CHR 0x85], [CHR 0xC2, CHR 0xA0], [CHR 0xE1, CHR 0x9A, CHR 0x80],
      [CHR 0xE2, CHR 0x80, CHR 0x80], [CHR 0xE2, CHR 0x80, CHR 0x81], [CHR 0xE2, CHR 0x80, CHR 0x82],
      [CHR 0xE2, CHR 0x80, CHR 0x83], [CHR 0xE2, CHR 0x80, CHR 0x84], [CHR 0xE2, CHR 0x80, CHR 0x85],
      [CHR 0xE2, CHR 0x80, CHR 0x86], [CHR 0xE2, CHR 0x80, CHR 0x87], [CHR 0xE2, CHR 0x80, CHR 0x88],
      [CHR 0xE2, CHR 0x80, CHR 0x89], [CHR 0xE2, CHR 0x80, CHR 0x8A], [CHR 0xE2, CHR 0x80, CHR 0xA8],
      [CHR 0xE2, CHR 0x80, CHR 0xA9], [CHR 0xE2, CHR 0x80, CHR 0xAF], [CHR 0xE2, CHR 0x81, CHR 0x9F],
      [CHR 0xE3, CHR 0x80, CHR 0x80]]"

fun strip_first :: "string list \<Rightarrow> string \<Rightarrow> string option" where
  "strip_first [] s = None"
| "strip_first (p # ps) s = (case strip_prefix p s of Some r \<Rightarrow> Some r | None \<Rightarrow> strip_first ps s)"

lemma strip_first_length:
  "[] \<notin> set ps \<Longrightarrow> strip_first ps s = Some r \<Longrightarrow> length r < length s"
  by (induction ps s rule: strip_first.induct)
    (auto simp: strip_prefix_iff split: option.splits)

text \<open>The loop is bounded by the length of the string, each round removing at least one byte.\<close>

fun trim_left :: "nat \<Rightarrow> string list \<Rightarrow> string \<Rightarrow> string" where
  "trim_left 0 ps s = s"
| "trim_left (Suc n) ps s = (case strip_first ps s of None \<Rightarrow> s | Some r \<Rightarrow> trim_left n ps r)"

definition TrimSpace :: "string \<Rightarrow> string" where
  "TrimSpace s =
     (let l = trim_left (length s) space_runes s
      in rev (trim_left (length l) (map rev space_runes) (rev l)))"

lemma trim_left_stable: "strip_first ps s = None \<Longrightarrow> trim_left n ps s = s"
  by (cases n) auto

lemma strip_first_Nil: "[] \<notin> set ps \<Longrightarrow> strip_first ps [] = None"
proof (induction ps)
  case Nil
  then show ?case by simp
next
  case (Cons p ps)
  then show ?case by (cases p) auto
qed

text \<open>The bound is enough: what is left starts with no cut rune.\<close>

lemma trim_left_done:
  "[] \<notin> set ps \<Longrightarrow> length s \<le> n \<Longrightarrow> strip_first ps (trim_left n ps s) = None"
proof (induction n ps s rule: trim_left.induct)
  case (1 ps s)
  then show ?case by (simp add: strip_first_Nil)
next
  case (2 n ps s)
  then show ?case
    using strip_first_length [of ps s] by (fastforce split: option.splits)
qed

lemma trim_left_suffix: "\<exists>a. s = a @ trim_left n ps s"
proof (induction n ps s rule: trim_left.induct)
  case (2 n ps s)
  show ?case
  proof (cases "strip_first ps s")
    case (Some r)
    have "strip_first ps s = Some r \<Longrightarrow> \<exists>b. s = b @ r"
      by (induction ps s rule: strip_first.induct) (auto simp: strip_prefix_iff split: option.splits)
    with Some 2 show ?thesis by (metis append.assoc option.simps(5) trim_left.simps(2))
  qed simp
qed simp

lemma strip_first_None: "strip_first ps s = None \<longleftrightarrow> (\<forall>p \<in> set ps. strip_prefix p s = None)"
  by (induction ps s rule: strip_first.induct) (auto split: option.splits)

lemma strip_prefix_extend: "strip_prefix p (s @ t) = None \<Longrightarrow> strip_prefix p s = None"
  by (metis append.assoc not_None_eq strip_prefix_iff)

lemma TrimSpace_id:
  assumes "strip_first space_runes s = None"
    and "strip_first (map rev space_runes) (rev s) = None"
  shows "TrimSpace s = s"
  using assms by (simp add: TrimSpace_def trim_left_stable Let_def)

lemma TrimSpace_left_done: "strip_first space_runes (TrimSpace s) = None"
proof -
  define l where "l = trim_left (length s) space_runes s"
  have l: "strip_first space_runes l = None"
    unfolding l_def by (rule trim_left_done) (simp_all add: space_runes_def)
  obtain a where "rev l = a @ trim_left (length l) (map rev space_runes) (rev l)"
    using trim_left_suffix by blast
  then have "l = TrimSpace s @ rev a"
    unfolding TrimSpace_def Let_def l_def [symmetric] by (metis rev_append rev_rev_ident)
  then show ?thesis using l strip_prefix_extend unfolding strip_first_None by metis
qed

lemma TrimSpace_right_done:
  "strip_first (map rev space_runes) (rev (TrimSpace s)) = None"
proof -
  have "[] \<notin> set (map rev space_runes)" by (simp add: space_runes_def)
  then show ?thesis by (simp add: TrimSpace_def Let_def trim_left_done)
qed

lemma TrimSpace_idem [simp]: "TrimSpace (TrimSpace s) = TrimSpace s"
  by (rule TrimSpace_id [OF TrimSpace_left_done TrimSpace_right_done])

end
