(* ===== verification/Float64.thy ===== *)
theory Float64
  imports Prelude "HOL-Library.Log_Nat"
begin

text \<open>
  Go's \<open>float64\<close>: IEEE 754 binary64 with round to nearest, ties to even. A finite value is
  the rational number it denotes, and every operation is the exact one followed by rounding to
  53 significant bits (exponent at least -1074). The sign of a zero is not kept: no operation
  of the source tells 0 from -0.
\<close>

datatype float64 = FNaN | FInf bool | FFin rat \<comment> \<open>\<open>FInf True\<close> is minus infinity\<close>

section \<open>Rounding\<close>

definition pow2 :: "int \<Rightarrow> rat" where "pow2 k = 2 powi k"

lemma pow2_pos [simp]: "0 < pow2 k"
  by (simp add: pow2_def)

lemma pow2_nonneg [simp]: "0 \<le> pow2 k"
  using pow2_pos [of k] by linarith

lemma pow2_neq [simp]: "pow2 k \<noteq> 0"
  using pow2_pos [of k] by linarith

lemma pow2_add: "pow2 (a + b) = pow2 a * pow2 b"
  by (simp add: pow2_def power_int_add)

lemma pow2_diff: "pow2 (a - b) = pow2 a / pow2 b"
  by (simp add: pow2_def power_int_diff)

lemma pow2_nat: "0 \<le> k \<Longrightarrow> pow2 k = of_int (2 ^ nat k)"
  by (simp add: pow2_def power_int_def)

lemma pow2_mono: "a \<le> b \<Longrightarrow> pow2 a \<le> pow2 b"
  unfolding pow2_def by (rule power_int_increasing) auto

lemma pow2_strict_mono: "a < b \<Longrightarrow> pow2 a < pow2 b"
  unfolding pow2_def by (rule power_int_strict_increasing) auto

lemma pow2_less_iff: "pow2 a < pow2 b \<longleftrightarrow> a < b"
  by (metis linorder_not_le pow2_mono pow2_strict_mono)

lemma pow2_grid: "e \<le> k \<Longrightarrow> pow2 k = of_int (2 ^ nat (k - e)) * pow2 e"
  using pow2_add [of "k - e" e] pow2_nat [of "k - e"] by simp

text \<open>The binary exponent: \<open>2 ^ flog2 q \<le> q < 2 ^ (flog2 q + 1)\<close>.\<close>

definition flog2 :: "rat \<Rightarrow> int" where
  "flog2 q = (let (n, d) = quotient_of q; k = bitlen n - bitlen d
              in if pow2 k \<le> q then k else k - 1)"

lemma bitlen_pos: "0 < n \<Longrightarrow> 0 < bitlen n"
  using bitlen_nonneg [of n] bitlen_eq_zero_iff [of n] by linarith

lemma bitlen_pow2:
  assumes "0 < n"
  shows "pow2 (bitlen n - 1) \<le> of_int n" and "of_int n < pow2 (bitlen n)"
proof -
  have b: "2 ^ nat (bitlen n - 1) \<le> n \<and> n < 2 ^ nat (bitlen n)" and p: "0 < bitlen n"
    using assms bitlen_bounds [of n] bitlen_pos [of n] by blast+
  have "(of_int (2 ^ nat (bitlen n - 1)) :: rat) \<le> of_int n"
    using b by (simp only: of_int_le_iff)
  then show "pow2 (bitlen n - 1) \<le> of_int n"
    using p by (simp only: pow2_nat [of "bitlen n - 1"] zle_diff1_eq)
  have "(of_int n :: rat) < of_int (2 ^ nat (bitlen n))"
    using b by (simp only: of_int_less_iff)
  then show "of_int n < pow2 (bitlen n)"
    using p by (simp only: pow2_nat [of "bitlen n"] less_imp_le)
qed

lemma flog2_bounds:
  assumes "0 < q"
  shows "pow2 (flog2 q) \<le> q" and "q < pow2 (flog2 q + 1)"
proof -
  obtain n d where nd: "quotient_of q = (n, d)" by fastforce
  have d: "0 < d" using nd by (rule quotient_of_denom_pos)
  have q: "q = of_int n / of_int d" using nd by (rule quotient_of_div)
  have n: "0 < n" using assms d by (simp add: q zero_less_divide_iff)
  let ?k = "bitlen n - bitlen d"
  have "of_int n / of_int d < pow2 (bitlen n) / pow2 (bitlen d - 1)"
    using bitlen_pow2 [OF n] bitlen_pow2 [OF d] d n
    by (intro frac_less) auto
  then have up: "q < pow2 (?k + 1)"
    unfolding q pow2_diff [symmetric] by (simp add: algebra_simps)
  have "pow2 (bitlen n - 1) / pow2 (bitlen d) \<le> of_int n / of_int d"
    using bitlen_pow2 [OF n] bitlen_pow2 [OF d] d n
    by (intro frac_le) auto
  then have lo: "pow2 (?k - 1) \<le> q"
    unfolding q pow2_diff [symmetric] by (simp add: algebra_simps)
  show "pow2 (flog2 q) \<le> q" and "q < pow2 (flog2 q + 1)"
    using up lo by (auto simp: flog2_def nd Let_def)
qed

lemma flog2_unique:
  assumes "0 < q" and "pow2 k \<le> q" and "q < pow2 (k + 1)"
  shows "flog2 q = k"
  using flog2_bounds [OF assms(1)] assms(2,3)
  by (metis less_le_trans le_less_trans pow2_less_iff zless_imp_add1_zle zle_add1_eq_le antisym)

text \<open>Round to the nearest integer, ties to the even one.\<close>

definition round_even :: "rat \<Rightarrow> int" where
  "round_even q = (let f = \<lfloor>q\<rfloor>; r = q - of_int f
     in if r < 1 / 2 then f else if 1 / 2 < r then f + 1 else if even f then f else f + 1)"

lemma round_even_int [simp]: "round_even (of_int i) = i"
  by (simp add: round_even_def)

lemma round_even_dist: "\<bar>of_int (round_even q) - q\<bar> \<le> 1 / 2"
  unfolding round_even_def Let_def by (auto simp: abs_if) linarith+

lemma round_even_mono:
  assumes "p \<le> q"
  shows "round_even p \<le> round_even q"
proof (cases "\<lfloor>p\<rfloor> = \<lfloor>q\<rfloor>")
  case True
  then show ?thesis using assms by (auto simp: round_even_def Let_def)
next
  case False
  then have "\<lfloor>p\<rfloor> + 1 \<le> \<lfloor>q\<rfloor>" using floor_mono [OF assms] by linarith
  then show ?thesis by (auto simp: round_even_def Let_def)
qed

text \<open>The spacing of the values near \<open>q\<close> is \<open>2 ^ ulp_exp q\<close>.\<close>

definition ulp_exp :: "rat \<Rightarrow> int" where
  "ulp_exp q = max (flog2 \<bar>q\<bar> - 52) (- 1074)"

definition fround :: "rat \<Rightarrow> rat" where
  "fround q = (if q = 0 then 0 else of_int (round_even (q / pow2 (ulp_exp q))) * pow2 (ulp_exp q))"

definition to_f64 :: "rat \<Rightarrow> float64" where
  "to_f64 q = (let r = fround q
     in if r \<noteq> 0 \<and> 1023 < flog2 \<bar>r\<bar> then FInf (r < 0) else FFin r)"

section \<open>Facts about rounding\<close>

lemma flog2_mono:
  assumes "0 < x" and "x \<le> y"
  shows "flog2 x \<le> flog2 y"
proof -
  have "pow2 (flog2 x) < pow2 (flog2 y + 1)"
    using flog2_bounds [OF assms(1)] flog2_bounds [of y] assms by linarith
  then show ?thesis by (simp add: pow2_less_iff)
qed

lemma ulp_exp_mono: "0 < x \<Longrightarrow> x \<le> y \<Longrightarrow> ulp_exp x \<le> ulp_exp y"
  using flog2_mono [of x y] by (auto simp: ulp_exp_def)

lemma round_even_minus: "round_even (- q) = - round_even q"
proof (cases "of_int \<lfloor>q\<rfloor> = q")
  case True
  then show ?thesis by (metis of_int_minus round_even_int)
next
  case False
  then have c: "\<lceil>q\<rceil> = \<lfloor>q\<rfloor> + 1"
    by (metis ceiling_altdef)
  have f: "\<lfloor>- q\<rfloor> = - \<lfloor>q\<rfloor> - 1"
    using c by (simp add: floor_minus)
  show ?thesis
    unfolding round_even_def Let_def f by (auto simp: field_simps)
qed

lemma fround_minus: "fround (- q) = - fround q"
  by (simp add: fround_def ulp_exp_def round_even_minus)

lemma fround_0 [simp]: "fround 0 = 0"
  by (simp add: fround_def)

text \<open>A multiple of the spacing at \<open>x\<close> bounds the rounded value when it bounds \<open>x\<close>.\<close>

lemma fround_le_grid:
  assumes "0 < x" and "x \<le> of_int n * pow2 (ulp_exp x)"
  shows "fround x \<le> of_int n * pow2 (ulp_exp x)"
proof -
  have "x / pow2 (ulp_exp x) \<le> of_int n"
    using assms(2) by (simp add: divide_le_eq)
  then have "round_even (x / pow2 (ulp_exp x)) \<le> n"
    using round_even_mono by fastforce
  then show ?thesis using assms(1) by (simp add: fround_def mult_right_mono)
qed

lemma fround_ge_grid:
  assumes "0 < x" and "of_int n * pow2 (ulp_exp x) \<le> x"
  shows "of_int n * pow2 (ulp_exp x) \<le> fround x"
proof -
  have "of_int n \<le> x / pow2 (ulp_exp x)"
    using assms(2) by (simp add: le_divide_eq)
  then have "n \<le> round_even (x / pow2 (ulp_exp x))"
    using round_even_mono by fastforce
  then show ?thesis using assms(1) by (simp add: fround_def mult_right_mono)
qed

lemma fround_exact_pos:
  assumes "0 < of_int m * pow2 e" and "m < 9007199254740992" and "- 1074 \<le> e"
  shows "fround (of_int m * pow2 e) = of_int m * pow2 e"
proof -
  let ?q = "of_int m * pow2 e"
  have p53: "pow2 53 = 9007199254740992" by (simp add: pow2_def)
  have "(of_int m :: rat) < of_int 9007199254740992"
    using assms(2) by (simp only: of_int_less_iff)
  then have "of_int m < pow2 53" by (simp add: p53)
  then have "?q < pow2 (53 + e)"
    unfolding pow2_add by (rule mult_strict_right_mono) simp
  then have "pow2 (flog2 ?q) < pow2 (53 + e)"
    using flog2_bounds [OF assms(1)] by linarith
  then have le: "ulp_exp ?q \<le> e"
    using assms by (simp add: ulp_exp_def pow2_less_iff abs_of_pos)
  have "?q = of_int (m * 2 ^ nat (e - ulp_exp ?q)) * pow2 (ulp_exp ?q)"
    using pow2_grid [OF le] by simp
  then show ?thesis
    using fround_le_grid [OF assms(1)] fround_ge_grid [OF assms(1)]
    by (metis antisym order_refl)
qed

lemma fround_mono_pos:
  assumes "0 < x" and "x \<le> y"
  shows "fround x \<le> fround y"
proof (cases "ulp_exp x = ulp_exp y")
  case True
  have "x / pow2 (ulp_exp y) \<le> y / pow2 (ulp_exp y)"
    using assms(2) by (simp add: divide_right_mono)
  then show ?thesis
    using assms True by (simp add: fround_def mult_right_mono round_even_mono)
next
  case False
  let ?k = "flog2 y"
  have less: "ulp_exp x < ulp_exp y"
    using False ulp_exp_mono [OF assms] by simp
  then have k: "ulp_exp y = ?k - 52" and fx: "flog2 x + 1 \<le> ?k" and ek: "ulp_exp x \<le> ?k"
    using assms by (auto simp: ulp_exp_def max_def split: if_splits)
  have "x \<le> pow2 ?k"
    using flog2_bounds(2) [OF assms(1)] pow2_mono [OF fx] by linarith
  then have "fround x \<le> pow2 ?k"
    using fround_le_grid [OF assms(1)] pow2_grid [OF ek] by metis
  also have "pow2 ?k \<le> fround y"
  proof -
    have y: "0 < y" using assms by linarith
    have "ulp_exp y \<le> ?k" using k by simp
    from pow2_grid [OF this] flog2_bounds(1) [OF y] fround_ge_grid [OF y]
    show ?thesis by metis
  qed
  finally show ?thesis .
qed

text \<open>The three facts the components use: order, exactness and the size of the error.\<close>

lemma fround_nonneg: "0 \<le> q \<Longrightarrow> 0 \<le> fround q"
  using fround_ge_grid [of q 0] by (cases "q = 0") auto

lemma fround_mono: "x \<le> y \<Longrightarrow> fround x \<le> fround y"
proof -
  assume le: "x \<le> y"
  consider "0 < x" | "x \<le> 0" "0 \<le> y" | "y < 0" using le by linarith
  then show ?thesis
  proof cases
    case 1
    then show ?thesis using le by (rule fround_mono_pos)
  next
    case 2
    then have "fround x \<le> 0" using fround_nonneg [of "- x"] by (simp add: fround_minus)
    with fround_nonneg [OF 2(2)] show ?thesis by linarith
  next
    case 3
    then show ?thesis using fround_mono_pos [of "- y" "- x"] le by (simp add: fround_minus)
  qed
qed

lemma fround_exact:
  assumes "\<bar>m\<bar> < 9007199254740992" and "- 1074 \<le> e"
  shows "fround (of_int m * pow2 e) = of_int m * pow2 e"
proof -
  consider "0 < m" | "m = 0" | "0 < - m" by linarith
  then show ?thesis
  proof cases
    case 3
    then have "fround (of_int (- m) * pow2 e) = of_int (- m) * pow2 e"
      using assms by (intro fround_exact_pos) (auto simp del: of_int_minus)
    then show ?thesis using fround_minus [of "of_int m * pow2 e"] by simp
  qed (use assms in \<open>auto intro: fround_exact_pos\<close>)
qed

lemma pow2_0 [simp]: "pow2 0 = 1"
  by (simp add: pow2_def)

lemma fround_of_int: "\<bar>m\<bar> < 9007199254740992 \<Longrightarrow> fround (of_int m) = of_int m"
  using fround_exact [of m 0] by simp

lemma fround_error: "\<bar>fround q - q\<bar> \<le> pow2 (ulp_exp q) / 2"
proof (cases "q = 0")
  case False
  let ?u = "pow2 (ulp_exp q)"
  have "\<bar>(of_int (round_even (q / ?u)) - q / ?u) * ?u\<bar> \<le> 1 / 2 * ?u"
    unfolding abs_mult using round_even_dist [of "q / ?u"] by (intro mult_mono) auto
  moreover have "(of_int (round_even (q / ?u)) - q / ?u) * ?u = fround q - q"
    using False by (simp add: fround_def left_diff_distrib)
  ultimately show ?thesis by simp
qed simp

text \<open>No overflow below \<open>2 ^ 1023\<close>.\<close>

lemma to_f64_finite:
  assumes "\<bar>q\<bar> \<le> pow2 1023"
  shows "to_f64 q = FFin (fround q)"
proof -
  have p: "fround (pow2 1023) = pow2 1023" using fround_exact [of 1 1023] by simp
  have "fround q \<le> pow2 1023" and "- pow2 1023 \<le> fround q"
    using fround_mono [of q "pow2 1023"] fround_mono [of "- pow2 1023" q] assms
    by (auto simp: p fround_minus abs_le_iff)
  then have b: "\<bar>fround q\<bar> \<le> pow2 1023" by (simp add: abs_le_iff)
  have "flog2 \<bar>fround q\<bar> \<le> 1023" if "fround q \<noteq> 0"
  proof -
    have "pow2 (flog2 \<bar>fround q\<bar>) \<le> pow2 1023"
      using flog2_bounds(1) [of "\<bar>fround q\<bar>"] b that by linarith
    then show ?thesis using pow2_less_iff [of 1023 "flog2 \<bar>fround q\<bar>"] by linarith
  qed
  then show ?thesis by (auto simp: to_f64_def Let_def)
qed

lemma to_f64_not_nan [simp]: "to_f64 q \<noteq> FNaN"
  by (simp add: to_f64_def Let_def)

section \<open>Operations\<close>

definition f_neg_sign :: "float64 \<Rightarrow> bool" where
  "f_neg_sign x = (case x of FFin q \<Rightarrow> q < 0 | FInf s \<Rightarrow> s | FNaN \<Rightarrow> False)"

definition f_of_int :: "int \<Rightarrow> float64" where "f_of_int i = to_f64 (of_int i)"

fun f_mul :: "float64 \<Rightarrow> float64 \<Rightarrow> float64" where
  "f_mul (FFin a) (FFin b) = to_f64 (a * b)"
| "f_mul FNaN _ = FNaN"
| "f_mul _ FNaN = FNaN"
| "f_mul x y = (if x = FFin 0 \<or> y = FFin 0 then FNaN else FInf (f_neg_sign x \<noteq> f_neg_sign y))"

fun f_div :: "float64 \<Rightarrow> float64 \<Rightarrow> float64" where
  "f_div FNaN _ = FNaN"
| "f_div _ FNaN = FNaN"
| "f_div (FFin a) (FFin b) =
     (if b = 0 then (if a = 0 then FNaN else FInf (a < 0)) else to_f64 (a / b))"
| "f_div (FInf s) (FFin b) = FInf (s \<noteq> (b < 0))"
| "f_div (FFin a) (FInf s) = FFin 0"
| "f_div (FInf s) (FInf t) = FNaN"

text \<open>Comparisons: every one with a NaN is false.\<close>

fun f_less :: "float64 \<Rightarrow> float64 \<Rightarrow> bool" where
  "f_less (FFin a) (FFin b) = (a < b)"
| "f_less (FInf True) (FFin b) = True"
| "f_less (FInf True) (FInf False) = True"
| "f_less (FFin a) (FInf False) = True"
| "f_less _ _ = False"

definition f_eq :: "float64 \<Rightarrow> float64 \<Rightarrow> bool" where
  "f_eq x y \<longleftrightarrow> x \<noteq> FNaN \<and> x = y"

definition f_le :: "float64 \<Rightarrow> float64 \<Rightarrow> bool" where
  "f_le x y \<longleftrightarrow> f_less x y \<or> f_eq x y"

text \<open>
  \<open>int64(f)\<close> drops the fraction. For a value out of range (or NaN) the language leaves the
  result to the implementation: it is the parameter \<open>oob\<close> (on amd64 always the least int64).
\<close>

definition rat_trunc :: "rat \<Rightarrow> int" where
  "rat_trunc q = (if 0 \<le> q then \<lfloor>q\<rfloor> else \<lceil>q\<rceil>)"

definition f_to_int64 :: "(float64 \<Rightarrow> int) \<Rightarrow> float64 \<Rightarrow> int" where
  "f_to_int64 oob x = (case x of
     FFin q \<Rightarrow> if in_int64 (rat_trunc q) then rat_trunc q else oob x
   | _ \<Rightarrow> oob x)"

definition amd64_oob :: "float64 \<Rightarrow> int" where "amd64_oob _ = min_int64"

end
