(* ===== verification/GoParse.thy ===== *)
theory GoParse
  imports GoStrings Float64
begin

text \<open>
  The number and duration syntax of Go's standard library that the configuration uses:
  \<open>strconv.ParseFloat\<close> (decimal and hexadecimal literals, underscores, inf and nan) and
  \<open>time.ParseDuration\<close> / \<open>Duration.String\<close>.
\<close>

section \<open>Digits\<close>

definition is_digit :: "char \<Rightarrow> bool" where
  "is_digit c \<longleftrightarrow> 48 \<le> (of_char c :: nat) \<and> (of_char c :: nat) \<le> 57"

definition digit_val :: "char \<Rightarrow> int" where
  "digit_val c = of_char c - 48"

definition is_hex_letter :: "char \<Rightarrow> bool" where
  "is_hex_letter c \<longleftrightarrow> (let n = of_char (lower_char c) :: nat in 97 \<le> n \<and> n \<le> 102)"

definition hex_val :: "char \<Rightarrow> int" where
  "hex_val c = (if is_digit c then digit_val c else of_char (lower_char c) - 87)"

definition digit_char :: "int \<Rightarrow> char" where
  "digit_char d = char_of (48 + d)"

text \<open>Decimal output of a number that is not negative (\<open>fmtInt\<close>).\<close>

function fmt_nat :: "int \<Rightarrow> string" where
  "fmt_nat n = (if n < 10 then [digit_char n] else fmt_nat (n div 10) @ [digit_char (n mod 10)])"
  by pat_completeness auto
termination
  by (relation "measure nat") (auto simp: nat_less_iff)

declare fmt_nat.simps [simp del]

fun dec_val :: "int \<Rightarrow> string \<Rightarrow> int" where
  "dec_val a [] = a"
| "dec_val a (c # cs) = dec_val (a * 10 + digit_val c) cs"

lemma dec_val_append: "dec_val a (s @ t) = dec_val (dec_val a s) t"
  by (induction a s rule: dec_val.induct) auto

lemma digit_char_simps:
  assumes "0 \<le> d" and "d < 10"
  shows "is_digit (digit_char d)" and "digit_val (digit_char d) = d"
proof -
  have "of_char (digit_char d) = ((48 + d) mod 256 :: int)"
    by (simp add: digit_char_def)
  then have c: "of_char (digit_char d) = (48 + d :: int)" using assms by simp
  then show "digit_val (digit_char d) = d" by (simp add: digit_val_def)
  have "int (of_char (digit_char d)) = 48 + d" using c by (simp add: of_nat_of_char)
  then show "is_digit (digit_char d)" using assms by (simp add: is_digit_def)
qed

lemma fmt_nat_digits: "0 \<le> n \<Longrightarrow> \<forall>c \<in> set (fmt_nat n). is_digit c"
proof (induction n rule: fmt_nat.induct)
  case (1 n)
  then show ?case
    by (subst fmt_nat.simps) (auto simp: digit_char_simps)
qed

lemma fmt_nat_nonempty: "fmt_nat n \<noteq> []"
  by (subst fmt_nat.simps) simp

lemma dec_val_fmt_nat: "0 \<le> n \<Longrightarrow> dec_val 0 (fmt_nat n) = n"
proof (induction n rule: fmt_nat.induct)
  case (1 n)
  show ?case
  proof (cases "n < 10")
    case True
    with "1.prems" show ?thesis by (subst fmt_nat.simps) (simp add: digit_char_simps)
  next
    case False
    with "1" show ?thesis
      by (subst fmt_nat.simps) (simp add: dec_val_append digit_char_simps)
  qed
qed

section \<open>ParseFloat\<close>

datatype num_error = ErrSyntax | ErrRange

fun scan_mantissa :: "bool \<Rightarrow> string \<Rightarrow> bool \<Rightarrow> bool \<Rightarrow> int \<Rightarrow> nat \<Rightarrow> int \<times> nat \<times> bool \<times> string" where
  "scan_mantissa hx [] dot dig m fd = (m, fd, dig, [])"
| "scan_mantissa hx (c # cs) dot dig m fd =
     (if c = CHR ''_'' then scan_mantissa hx cs dot dig m fd
      else if c = CHR ''.'' then
        (if dot then (m, fd, dig, c # cs) else scan_mantissa hx cs True dig m fd)
      else if is_digit c then
        scan_mantissa hx cs dot True (m * (if hx then 16 else 10) + digit_val c)
          (if dot then Suc fd else fd)
      else if hx \<and> is_hex_letter c then
        scan_mantissa hx cs dot True (m * 16 + hex_val c) (if dot then Suc fd else fd)
      else (m, fd, dig, c # cs))"

fun scan_exponent :: "string \<Rightarrow> int \<Rightarrow> int \<times> string" where
  "scan_exponent [] e = (e, [])"
| "scan_exponent (c # cs) e =
     (if c = CHR ''_'' then scan_exponent cs e
      else if is_digit c then scan_exponent cs (if e < 10000 then e * 10 + digit_val c else e)
      else (e, c # cs))"

definition scan_sign :: "string \<Rightarrow> bool \<times> string" where
  "scan_sign s = (case s of [] \<Rightarrow> (False, [])
     | c # cs \<Rightarrow> if c = CHR ''-'' then (True, cs) else if c = CHR ''+'' then (False, cs) else (False, s))"

text \<open>Underscores must separate digits; a base prefix counts as a digit.\<close>

fun underscore_scan :: "bool \<Rightarrow> char \<Rightarrow> string \<Rightarrow> bool" where
  "underscore_scan hx saw [] = (saw \<noteq> CHR ''_'')"
| "underscore_scan hx saw (c # cs) =
     (if is_digit c \<or> hx \<and> is_hex_letter c then underscore_scan hx CHR ''0'' cs
      else if c = CHR ''_'' then saw = CHR ''0'' \<and> underscore_scan hx CHR ''_'' cs
      else saw \<noteq> CHR ''_'' \<and> underscore_scan hx CHR ''!'' cs)"

definition underscoreOK :: "string \<Rightarrow> bool" where
  "underscoreOK s =
     (let u = snd (scan_sign s) in
      case u of
        z # x # r \<Rightarrow> if z = CHR ''0'' \<and> lower_char x \<in> {CHR ''b'', CHR ''o'', CHR ''x''}
                     then underscore_scan (lower_char x = CHR ''x'') CHR ''0'' r
                     else underscore_scan False CHR ''^'' u
      | _ \<Rightarrow> underscore_scan False CHR ''^'' u)"

definition special_float :: "string \<Rightarrow> float64 option" where
  "special_float s =
     (let (neg, u) = scan_sign s; l = map lower_char u in
      if l = ''inf'' \<or> l = ''infinity'' then Some (FInf neg)
      else if map lower_char s = ''nan'' then Some FNaN else None)"

definition rat_pow :: "rat \<Rightarrow> int \<Rightarrow> rat" where
  "rat_pow b k = (if 0 \<le> k then b ^ nat k else 1 / b ^ nat (- k))"

definition is_hex_float :: "string \<Rightarrow> bool" where
  "is_hex_float u = (case u of z # x # _ # _ \<Rightarrow> z = CHR ''0'' \<and> lower_char x = CHR ''x'' | _ \<Rightarrow> False)"

text \<open>The exponent part of a literal: its value and what follows, or None where it is malformed.\<close>

definition float_exponent :: "bool \<Rightarrow> string \<Rightarrow> (int \<times> string) option" where
  "float_exponent hx r =
     (case r of
        c # cs \<Rightarrow>
          if lower_char c = (if hx then CHR ''p'' else CHR ''e'') then
            (let (neg, ds) = scan_sign cs in
             if ds = [] \<or> \<not> is_digit (hd ds) then None
             else let (e, rest) = scan_exponent ds 0 in Some (if neg then - e else e, rest))
          else if hx then None else Some (0, r)
      | [] \<Rightarrow> if hx then None else Some (0, []))"

definition ParseFloat :: "string \<Rightarrow> num_error + float64" where
  "ParseFloat s =
     (case special_float s of Some f \<Rightarrow> Inr f
      | None \<Rightarrow>
        (let (neg, u) = scan_sign s;
             hx = is_hex_float u;
             (m, fd, dig, r) = scan_mantissa hx (if hx then drop 2 u else u) False False 0 0 in
         if \<not> dig then Inl ErrSyntax
         else case float_exponent hx r of
           None \<Rightarrow> Inl ErrSyntax
         | Some (e, rest) \<Rightarrow>
             if rest \<noteq> [] \<or> CHR ''_'' \<in> set s \<and> \<not> underscoreOK s then Inl ErrSyntax
             else let v = rat_of_int m *
                        (if hx then rat_pow 2 (e - 4 * int fd) else rat_pow 10 (e - int fd));
                      f = to_f64 (if neg then - v else v) in
                  case f of FInf _ \<Rightarrow> Inl ErrRange | _ \<Rightarrow> Inr f))"

lemma ParseFloat_finite_or_special:
  assumes "ParseFloat s = Inr f"
  shows "(\<exists>q. f = FFin q) \<or> special_float s = Some f"
  using assms unfolding ParseFloat_def
  by (auto simp: Let_def split: option.splits prod.splits if_splits float64.splits) metis+

text \<open>Plain decimal digits denote the number they spell, rounded.\<close>

lemma digit_not_special:
  assumes "is_digit c"
  shows "c \<noteq> CHR ''_''" and "c \<noteq> CHR ''.''" and "c \<noteq> CHR ''-''" and "c \<noteq> CHR ''+''"
    and "lower_char c = c" and "c \<noteq> CHR ''i''" and "c \<noteq> CHR ''n''"
  using assms by (auto simp: is_digit_def lower_char_def)

lemma scan_mantissa_digits:
  "\<forall>c \<in> set s. is_digit c \<Longrightarrow>
    scan_mantissa False s False dig m fd = (dec_val m s, fd, dig \<or> s \<noteq> [], [])"
  by (induction s arbitrary: dig m) (auto simp: digit_not_special)

lemma ParseFloat_digits:
  assumes digits: "\<forall>c \<in> set s. is_digit c" and "s \<noteq> []"
  shows "ParseFloat s = (case to_f64 (of_int (dec_val 0 s)) of
    FInf _ \<Rightarrow> Inl ErrRange | f \<Rightarrow> Inr f)"
proof -
  obtain c cs where s: "s = c # cs" using \<open>s \<noteq> []\<close> by (cases s) auto
  have c: "is_digit c" using digits s by simp
  have sign: "scan_sign s = (False, s)" using digit_not_special [OF c] by (simp add: s scan_sign_def)
  have spec: "special_float s = None"
    using digit_not_special [OF c] by (simp add: special_float_def sign [unfolded s] s Let_def)
  have nox: "\<not> is_hex_float s"
    using digits by (auto simp: s is_hex_float_def digit_not_special is_digit_def split: list.splits)
  have "CHR ''_'' \<notin> set s" using digits digit_not_special by blast
  then show ?thesis
    using spec sign nox scan_mantissa_digits [OF digits] \<open>s \<noteq> []\<close>
    by (simp add: ParseFloat_def float_exponent_def rat_pow_def Let_def split: float64.split)
qed

end
