(* ===== verification/GoTime.thy ===== *)
theory GoTime
  imports GoParse
begin

text \<open>
  The part of Go's package time the program uses. A duration is an \<open>int64\<close> of nanoseconds; a
  time is the number of nanoseconds since the Unix epoch (the zone it was parsed with matters
  to no operation of the source but formatting, where it is an argument).
\<close>

type_synonym duration = int
type_synonym time = int

definition nanosecond :: duration where [code_unfold]: "nanosecond = 1"
definition second :: duration where "second = 1000000000"
definition minute :: duration where "minute = 60000000000"
definition hour :: duration where "hour = 3600000000000"

section \<open>ParseDuration\<close>

datatype duration_error = InvalidDuration string

text \<open>\<open>leadingInt\<close>: None is the overflow of \<open>1 << 63\<close>.\<close>

fun leadingInt :: "int \<Rightarrow> string \<Rightarrow> (int \<times> string) option" where
  "leadingInt x [] = Some (x, [])"
| "leadingInt x (c # cs) =
     (if \<not> is_digit c then Some (x, c # cs)
      else if 922337203685477580 < x then None
      else let y = x * 10 + digit_val c in
           if 9223372036854775808 < y then None else leadingInt y cs)"

text \<open>\<open>leadingFraction\<close>: digits beyond the range of uint64 are skipped.\<close>

fun leadingFraction :: "int \<Rightarrow> float64 \<Rightarrow> bool \<Rightarrow> string \<Rightarrow> int \<times> float64 \<times> string" where
  "leadingFraction x scale ovf [] = (x, scale, [])"
| "leadingFraction x scale ovf (c # cs) =
     (if \<not> is_digit c then (x, scale, c # cs)
      else if ovf then leadingFraction x scale True cs
      else if 922337203685477580 < x then leadingFraction x scale True cs
      else let y = x * 10 + digit_val c in
           if 9223372036854775808 < y then leadingFraction x scale True cs
           else leadingFraction y (f_mul scale (FFin 10)) False cs)"

definition unitMap :: "string \<Rightarrow> int option" where
  "unitMap u =
     (if u = ''ns'' then Some 1
      else if u = ''us'' \<or> u = [CHR 0xC2, CHR 0xB5, CHR ''s''] \<or> u = [CHR 0xCE, CHR 0xBC, CHR ''s'']
        then Some 1000
      else if u = ''ms'' then Some 1000000
      else if u = ''s'' then Some 1000000000
      else if u = ''m'' then Some 60000000000
      else if u = ''h'' then Some 3600000000000
      else None)"

fun span_unit :: "string \<Rightarrow> string \<times> string" where
  "span_unit [] = ([], [])"
| "span_unit (c # cs) =
     (if c = CHR ''.'' \<or> is_digit c then ([], c # cs)
      else let (u, r) = span_unit cs in (c # u, r))"

lemma span_unit_length: "length (snd (span_unit s)) \<le> length s"
  by (induction s) (auto split: prod.splits)

lemma leadingInt_length: "leadingInt x s = Some (y, r) \<Longrightarrow> length r \<le> length s"
  by (induction x s rule: leadingInt.induct) (auto simp: Let_def split: if_splits)

lemma leadingFraction_length: "leadingFraction x sc ov s = (y, sc', r) \<Longrightarrow> length r \<le> length s"
  by (induction x sc ov s rule: leadingFraction.induct) (auto simp: Let_def split: if_splits)

text \<open>
  One \<open>number unit\<close> element: its value in nanoseconds (a uint64 not above \<open>1 << 63\<close>) and the
  rest of the string; None where the source returns an error.
\<close>

definition duration_element :: "string \<Rightarrow> (int \<times> string) option" where
  "duration_element s =
     (if s = [] \<or> \<not> (hd s = CHR ''.'' \<or> is_digit (hd s)) then None
      else case leadingInt 0 s of
        None \<Rightarrow> None
      | Some (v, s1) \<Rightarrow>
          (let pre = length s1 \<noteq> length s;
               (f, scale, s2, post) =
                 (if s1 \<noteq> [] \<and> hd s1 = CHR ''.'' then
                    (let (f, scale, r) = leadingFraction 0 (FFin 1) False (tl s1)
                     in (f, scale, r, length r \<noteq> length (tl s1)))
                  else (0, FFin 1, s1, False));
               (u, rest) = span_unit s2 in
           if \<not> pre \<and> \<not> post then None
           else if u = [] then None
           else case unitMap u of
             None \<Rightarrow> None
           | Some unit \<Rightarrow>
               if 9223372036854775808 div unit < v then None
               else let v' = v * unit +
                      (if 0 < f then
                         f_to_int64 (\<lambda>_. 0) (f_mul (f_of_int f) (f_div (f_of_int unit) scale))
                       else 0)
                    in if 9223372036854775808 < v' then None else Some (v', rest)))"

lemma duration_element_shorter:
  assumes "duration_element s = Some (v, r)"
  shows "length r < length s"
proof -
  obtain c cs where s: "s = c # cs" using assms by (cases s) (auto simp: duration_element_def)
  obtain w s1 where li: "leadingInt 0 s = Some (w, s1)"
    using assms by (auto simp: duration_element_def split: option.splits if_splits)
  define p where "p = (if s1 \<noteq> [] \<and> hd s1 = CHR ''.'' then
      (let (f, scale, r) = leadingFraction 0 (FFin 1) False (tl s1)
       in (f, scale, r, length r \<noteq> length (tl s1)))
     else (0, FFin 1, s1, False))"
  obtain f scale s2 post where p': "p = (f, scale, s2, post)" by (cases p) auto
  have s2: "length s2 \<le> length s1"
    using p' leadingFraction_length [of 0 "FFin 1" False "tl s1"]
    by (fastforce simp: p_def split: if_splits prod.splits)
  have post: "post \<longrightarrow> length s2 < length s1"
    using p' leadingFraction_length [of 0 "FFin 1" False "tl s1"]
    by (cases s1) (fastforce simp: p_def split: if_splits prod.splits)+
  have pre: "length s1 \<le> length s" using leadingInt_length [OF li] .
  have "length r \<le> length s2" and "length s1 \<noteq> length s \<or> post"
    using assms span_unit_length [of s2] li p' unfolding p_def [symmetric] duration_element_def
    by (auto simp: Let_def p_def [symmetric] split: if_splits prod.splits option.splits)
  then show ?thesis using s2 post pre by linarith
qed

text \<open>The loop over the elements; \<open>d\<close> is a uint64, so its sum wraps at \<open>1 << 64\<close>.\<close>

function duration_loop :: "int \<Rightarrow> string \<Rightarrow> int option" where
  "duration_loop d s =
     (if s = [] then Some d
      else case duration_element s of
        None \<Rightarrow> None
      | Some (v, r) \<Rightarrow>
          let d' = (d + v) mod 18446744073709551616 in
          if 9223372036854775808 < d' then None else duration_loop d' r)"
  by pat_completeness auto
termination
  by (relation "measure (\<lambda>(d, s). length s)") (auto simp: duration_element_shorter)

declare duration_loop.simps [simp del]

definition ParseDuration :: "string \<Rightarrow> duration_error + duration" where
  "ParseDuration s =
     (let (neg, u) = scan_sign s in
      if u = ''0'' then Inr 0
      else if u = '''' then Inl (InvalidDuration s)
      else case duration_loop 0 u of
        None \<Rightarrow> Inl (InvalidDuration s)
      | Some d \<Rightarrow>
          if neg then Inr (wrap64 (- d))
          else if max_int64 < d then Inl (InvalidDuration s)
          else Inr d)"

section \<open>Duration.String\<close>

text \<open>
  \<open>fmtFrac v prec\<close>: the \<open>prec\<close> low decimal digits after a point, trailing zeros (and then the
  point) left out, and the value without them.
\<close>

fun fmt_frac_loop :: "nat \<Rightarrow> int \<Rightarrow> bool \<Rightarrow> string \<Rightarrow> bool \<times> string \<times> int" where
  "fmt_frac_loop 0 v pr acc = (pr, acc, v)"
| "fmt_frac_loop (Suc n) v pr acc =
     (let d = v mod 10; pr' = (pr \<or> d \<noteq> 0)
      in fmt_frac_loop n (v div 10) pr' (if pr' then digit_char d # acc else acc))"

definition fmt_frac :: "int \<Rightarrow> nat \<Rightarrow> string \<times> int" where
  "fmt_frac v prec = (let (pr, acc, w) = fmt_frac_loop prec v False []
     in (if pr then CHR ''.'' # acc else [], w))"

definition Duration_String :: "duration \<Rightarrow> string" where
  "Duration_String d =
     (let u = \<bar>d\<bar>;
          sign = (if d < 0 then ''-'' else '''') in
      if u = 0 then ''0s''
      else if u < 1000000000 then
        (let (prec, un) = (if u < 1000 then (0, ''ns'')
                           else if u < 1000000 then (3, [CHR 0xC2, CHR 0xB5, CHR ''s''])
                           else (6, ''ms''));
             (fr, w) = fmt_frac u prec
         in sign @ fmt_nat w @ fr @ un)
      else
        (let (fr, secs) = fmt_frac u 9;
             mins = secs div 60;
             hrs = mins div 60
         in sign
            @ (if 0 < hrs then fmt_nat hrs @ ''h'' else [])
            @ (if 0 < mins then fmt_nat (mins mod 60) @ ''m'' else [])
            @ fmt_nat (secs mod 60) @ fr @ ''s''))"

text \<open>\<open>t.Sub(u)\<close> saturates at the range of a duration; \<open>time.Since(t)\<close> is \<open>Now().Sub(t)\<close>.\<close>

definition time_sub :: "time \<Rightarrow> time \<Rightarrow> duration" where
  "time_sub t u = (if t - u < min_int64 then min_int64
     else if max_int64 < t - u then max_int64 else t - u)"

end
