(* ===== verification/KubeTypes.thy ===== *)
theory KubeTypes
  imports GoTime
begin

text \<open>
  The Kubernetes objects the program reads and writes (the fields it uses), its own custom
  resources of api/v1alpha1, and the three libraries it stands on as parameters: resource
  quantities, label selectors and the API client. What the program relies on of the first and
  the last is stated as the assumptions of two locales.
\<close>

section \<open>Quantities\<close>

text \<open>
  \<open>resource.Quantity\<close> is code of k8s.io/apimachinery: a value of type \<open>'q\<close> with the operations
  the program calls. \<open>qty_zero\<close> is the zero value \<open>resource.Quantity{}\<close>, \<open>qty_binary v\<close> is
  \<open>resource.NewQuantity(v, resource.BinarySI)\<close>; \<open>qty_parse\<close> is None for an error.
\<close>

record 'q quantity_ops =
  qty_value :: "'q \<Rightarrow> int"
  qty_cmp :: "'q \<Rightarrow> 'q \<Rightarrow> int"
  qty_is_zero :: "'q \<Rightarrow> bool"
  qty_string :: "'q \<Rightarrow> string"
  qty_parse :: "string \<Rightarrow> 'q option"
  qty_binary :: "int \<Rightarrow> 'q"
  qty_zero :: 'q

text \<open>\<open>Value()\<close> rounds up to the nearest integer away from 0.\<close>

definition round_away :: "rat \<Rightarrow> int" where
  "round_away q = (if 0 \<le> q then \<lceil>q\<rceil> else \<lfloor>q\<rfloor>)"

locale quantity_api =
  fixes Q :: "'q quantity_ops" and amount :: "'q \<Rightarrow> rat"
  assumes cmp_pos: "0 < qty_cmp Q a b \<longleftrightarrow> amount b < amount a"
    and cmp_neg: "qty_cmp Q a b < 0 \<longleftrightarrow> amount a < amount b"
    and is_zero: "qty_is_zero Q q \<longleftrightarrow> amount q = 0"
    and zero_amount: "amount (qty_zero Q) = 0"
    and binary_amount: "in_int64 v \<Longrightarrow> amount (qty_binary Q v) = of_int v"
    and value_amount: "in_int64 (round_away (amount q)) \<Longrightarrow> qty_value Q q = round_away (amount q)"
    and value_range: "in_int64 (qty_value Q q)"
    and parse_string: "\<exists>r. qty_parse Q (qty_string Q q) = Some r \<and> amount r = amount q"
begin

lemma value_binary: "in_int64 v \<Longrightarrow> qty_value Q (qty_binary Q v) = v"
  by (simp add: value_amount binary_amount round_away_def)

lemma cmp_nonneg: "0 \<le> qty_cmp Q a b \<longleftrightarrow> amount b \<le> amount a"
  using cmp_neg [of a b] by auto

lemma cmp_nonpos: "qty_cmp Q a b \<le> 0 \<longleftrightarrow> amount a \<le> amount b"
  using cmp_pos [of a b] by auto

lemma value_ge_amount: "in_int64 (round_away (amount q)) \<Longrightarrow> 0 \<le> amount q \<Longrightarrow>
    amount q \<le> of_int (qty_value Q q)"
  by (simp add: value_amount round_away_def)

end

section \<open>Persistent volume claims\<close>

type_synonym str_map = "(string, string) go_map"

record namespaced_name =
  nn_namespace :: string
  nn_name :: string

record 'q pvc =
  pvc_namespace :: string
  pvc_name :: string
  pvc_labels :: "string \<rightharpoonup> string"
  pvc_annotations :: str_map
  pvc_volume_mode :: "string option"
  pvc_storage_class :: "string option"
  pvc_requests :: "(string, 'q) go_map"
  pvc_phase :: string
  pvc_capacity :: "(string, 'q) go_map"
  pvc_conditions :: "(string \<times> string) list" \<comment> \<open>type and status\<close>

definition ResourceStorage :: string where "ResourceStorage = ''storage''"

text \<open>Reading a missing entry of a resource list gives the zero quantity.\<close>

definition resource_of :: "'q quantity_ops \<Rightarrow> (string, 'q) go_map \<Rightarrow> 'q" where
  "resource_of Q m = (case map_get m ResourceStorage of None \<Rightarrow> qty_zero Q | Some q \<Rightarrow> q)"

definition pvc_capacity_storage :: "'q quantity_ops \<Rightarrow> 'q pvc \<Rightarrow> 'q" where
  [go_defs]: "pvc_capacity_storage Q p = resource_of Q (pvc_capacity p)"

definition pvc_request_storage :: "'q quantity_ops \<Rightarrow> 'q pvc \<Rightarrow> 'q" where
  [go_defs]: "pvc_request_storage Q p = resource_of Q (pvc_requests p)"

definition pvc_key :: "'q pvc \<Rightarrow> namespaced_name" where
  "pvc_key p = \<lparr>nn_namespace = pvc_namespace p, nn_name = pvc_name p\<rparr>"

record storage_class =
  sc_allow_expansion :: "bool option"
  sc_parameters :: "string \<rightharpoonup> string"

section \<open>Custom resources (api/v1alpha1)\<close>

text \<open>
  \<open>PVCPolicyTemplate\<close> and \<open>PVCGroupTemplate\<close> have the same fields, all optional pointers.
\<close>

record 'q PVCPolicyTemplate =
  pt_Enabled :: "bool option"
  pt_Threshold :: "string option"
  pt_InodesThreshold :: "string option"
  pt_Increase :: "string option"
  pt_MaxSize :: "'q option"
  pt_MinScaleUp :: "'q option"
  pt_Cooldown :: "duration option"

record ('q, 'sel) PVCPolicy =
  pol_namespace :: string
  pol_name :: string
  pol_Selector :: 'sel
  pol_Template :: "'q PVCPolicyTemplate"
  pol_MatchedPVCs :: int
  pol_LastUpdated :: "time option"

record 'q PVCGroupTemplate =
  gt_Enabled :: "bool option"
  gt_Threshold :: "string option"
  gt_InodesThreshold :: "string option"
  gt_Increase :: "string option"
  gt_MaxSize :: "'q option"
  gt_MinScaleUp :: "'q option"
  gt_Cooldown :: "duration option"

record 'q PVCGroup =
  grp_namespace :: string
  grp_name :: string
  grp_Template :: "'q PVCGroupTemplate"
  grp_MemberCount :: int
  grp_CurrentSize :: "'q option"
  grp_LastExpansion :: "time option"
  grp_LastUpdated :: "time option"

section \<open>The API client\<close>

datatype api_error = NotFound string | ApiError string

definition is_not_found :: "api_error \<Rightarrow> bool" where
  "is_not_found e = (case e of NotFound _ \<Rightarrow> True | ApiError _ \<Rightarrow> False)"

text \<open>
  The controller-runtime client, over a server whose state is a value of type \<open>'s\<close>. A read
  does not change the server; a write returns the error, if any, and the new state.
  \<open>kube_selector\<close> is \<open>metav1.LabelSelectorAsSelector\<close> followed by \<open>Matches\<close>.
\<close>

record ('q, 'sel, 's) kube =
  kube_list_pvcs :: "'s \<Rightarrow> api_error + 'q pvc list"
  kube_list_pvcs_in :: "string \<Rightarrow> 's \<Rightarrow> api_error + 'q pvc list"
  kube_list_policies :: "string \<Rightarrow> 's \<Rightarrow> api_error + ('q, 'sel) PVCPolicy list"
  kube_get_policy :: "namespaced_name \<Rightarrow> 's \<Rightarrow> api_error + ('q, 'sel) PVCPolicy"
  kube_get_group :: "namespaced_name \<Rightarrow> 's \<Rightarrow> api_error + 'q PVCGroup"
  kube_get_storage_class :: "string \<Rightarrow> 's \<Rightarrow> api_error + storage_class"
  kube_update_pvc :: "'q pvc \<Rightarrow> 's \<Rightarrow> api_error option \<times> 's"
  kube_update_policy_status :: "('q, 'sel) PVCPolicy \<Rightarrow> 's \<Rightarrow> api_error option \<times> 's"
  kube_update_group_status :: "'q PVCGroup \<Rightarrow> 's \<Rightarrow> api_error option \<times> 's"
  kube_selector :: "'sel \<Rightarrow> api_error + ((string \<rightharpoonup> string) \<Rightarrow> bool)"

text \<open>
  What the controllers rely on of the server's claims: \<open>view\<close> is the stored object of a key. An
  update that succeeds replaces that object and no other, one that fails changes nothing, a
  status update touches no claim, and a list returns what is stored, each object once.
\<close>

locale pvc_store =
  fixes K :: "('q, 'sel, 's) kube" and view :: "'s \<Rightarrow> namespaced_name \<rightharpoonup> 'q pvc"
  assumes view_key: "view s k = Some p \<Longrightarrow> pvc_key p = k"
    and update_ok: "kube_update_pvc K p s = (None, s') \<Longrightarrow> view s' = (view s)(pvc_key p \<mapsto> p)"
    and update_err: "kube_update_pvc K p s = (Some e, s') \<Longrightarrow> view s' = view s"
    and group_status_view: "kube_update_group_status K g s = (r, s') \<Longrightarrow> view s' = view s"
    and policy_status_view: "kube_update_policy_status K q s = (r, s') \<Longrightarrow> view s' = view s"
    and list_in_view: "kube_list_pvcs_in K ns s = Inr ps \<Longrightarrow>
      p \<in> set ps \<longleftrightarrow> pvc_namespace p = ns \<and> view s (pvc_key p) = Some p"
    and list_view: "kube_list_pvcs K s = Inr ps \<Longrightarrow> p \<in> set ps \<longleftrightarrow> view s (pvc_key p) = Some p"
    and list_in_distinct: "kube_list_pvcs_in K ns s = Inr ps \<Longrightarrow> distinct (map pvc_key ps)"
    and list_distinct: "kube_list_pvcs K s = Inr ps \<Longrightarrow> distinct (map pvc_key ps)"
begin

lemma update_other: "kube_update_pvc K p s = (r, s') \<Longrightarrow> k \<noteq> pvc_key p \<Longrightarrow> view s' k = view s k"
  by (cases r) (auto dest: update_ok update_err)

lemma update_dom: "kube_update_pvc K p s = (r, s') \<Longrightarrow> view s' k = view s k \<or> view s' k = Some p"
  by (cases r) (auto dest!: update_ok update_err)

end

text \<open>Writing a claim changes neither the storage classes nor the policies.\<close>

locale kube_store = pvc_store +
  assumes class_stable: "kube_update_pvc K p s = (r, s') \<Longrightarrow>
      kube_get_storage_class K n s' = kube_get_storage_class K n s"
    and policies_stable: "kube_update_pvc K p s = (r, s') \<Longrightarrow>
      kube_list_policies K ns s' = kube_list_policies K ns s"

section \<open>Events\<close>

datatype event_type = EventNormal | EventWarning

text \<open>An argument of an event's format string.\<close>

datatype 'q event_arg = ArgStr string | ArgQty 'q | ArgPercent float64

record 'q event =
  ev_type :: event_type
  ev_reason :: string
  ev_object :: namespaced_name
  ev_args :: "'q event_arg list"

end
