(* ===== verification/RefCluster.thy ===== *)
theory RefCluster
  imports GoParse KubeTypes
begin

text \<open>
  Reference implementations of the two libraries the program stands on: quantities as whole
  numbers of nano units with the documented syntax, and an API server that keeps its objects in
  lists. They discharge the assumptions of \<open>quantity_api\<close> and \<open>kube_store\<close>, so those can hold,
  and the concrete runs of the properties are made on them.
\<close>

section \<open>Quantities\<close>

definition nano :: int where "nano = 1000000000"

definition suffix_table :: "(string \<times> int) list" where
  "suffix_table = [(''Ki'', 1024 * nano), (''Mi'', 1048576 * nano), (''Gi'', 1073741824 * nano),
     (''Ti'', 1099511627776 * nano), (''n'', 1), (''u'', 1000), (''m'', 1000000), ('''', nano),
     (''k'', 1000 * nano), (''M'', 1000000 * nano), (''G'', 1000000000 * nano)]"

definition saturate64 :: "int \<Rightarrow> int" where
  "saturate64 v = (if v < min_int64 then min_int64 else if max_int64 < v then max_int64 else v)"

definition ref_value :: "int \<Rightarrow> int" where
  "ref_value q = saturate64 (if 0 \<le> q then (q + nano - 1) div nano else - ((nano - 1 - q) div nano))"

text \<open>An integer with an optional sign and a suffix.\<close>

definition ref_parse :: "string \<Rightarrow> int option" where
  "ref_parse s =
     (let (sign, s) = (case s of [] \<Rightarrow> (1, s) | c # cs \<Rightarrow>
            if c = CHR ''-'' then (-1, cs) else if c = CHR ''+'' then (1, cs) else (1, s));
          digits = takeWhile is_digit s
      in if digits = [] then None
         else map_option (\<lambda>u. sign * dec_val 0 digits * u) (map_of suffix_table (dropWhile is_digit s)))"

definition ref_string :: "int \<Rightarrow> string" where
  "ref_string q =
     (let sign = (if q < 0 then ''-'' else ''''); n = \<bar>q\<bar> in
      if n mod (1073741824 * nano) = 0 then sign @ fmt_nat (n div (1073741824 * nano)) @ ''Gi''
      else if n mod nano = 0 then sign @ fmt_nat (n div nano)
      else sign @ fmt_nat n @ ''n'')"

definition ref_quantity :: "int quantity_ops" where
  "ref_quantity = \<lparr>qty_value = ref_value, qty_cmp = (\<lambda>a b. sgn (a - b)),
     qty_is_zero = (\<lambda>q. q = 0), qty_string = ref_string, qty_parse = ref_parse,
     qty_binary = (\<lambda>v. v * nano), qty_zero = 0\<rparr>"

lemma ref_quantity_ops [simp]:
  "qty_cmp ref_quantity a b = sgn (a - b)" "qty_zero ref_quantity = 0"
  "qty_is_zero ref_quantity a \<longleftrightarrow> a = 0" "qty_binary ref_quantity v = v * nano"
  by (simp_all add: ref_quantity_def)

definition ref_amount :: "int \<Rightarrow> rat" where "ref_amount q = of_int q / of_int nano"

lemma ref_amount_less: "ref_amount a < ref_amount b \<longleftrightarrow> a < b"
  by (simp add: ref_amount_def nano_def divide_less_cancel)

lemma ref_round_away: "round_away (ref_amount q) =
    (if 0 \<le> q then (q + nano - 1) div nano else - ((nano - 1 - q) div nano))"
proof -
  have c: "\<lceil>rat_of_int k / of_int nano\<rceil> = (k + nano - 1) div nano" for k
  proof (rule ceiling_unique)
    have "0 < nano" by (simp add: nano_def)
    from round_up_bounds [OF this, of k]
    have "k \<le> (k + nano - 1) div nano * nano" and "((k + nano - 1) div nano - 1) * nano < k"
      by (simp_all add: left_diff_distrib)
    then have "rat_of_int k \<le> of_int ((k + nano - 1) div nano * nano)"
      and "rat_of_int (((k + nano - 1) div nano - 1) * nano) < of_int k"
      by (simp_all only: of_int_le_iff of_int_less_iff)
    moreover have "0 < rat_of_int nano" by (simp add: nano_def)
    ultimately show "of_int ((k + nano - 1) div nano) - 1 < rat_of_int k / of_int nano"
      and "rat_of_int k / of_int nano \<le> of_int ((k + nano - 1) div nano)"
      by (simp_all add: pos_divide_le_eq pos_less_divide_eq)
  qed
  have "\<lfloor>rat_of_int q / of_int nano\<rfloor> = - \<lceil>rat_of_int (- q) / of_int nano\<rceil>"
    by (simp add: ceiling_def)
  moreover have "0 \<le> ref_amount q \<longleftrightarrow> 0 \<le> q"
    by (simp add: ref_amount_def nano_def zero_le_divide_iff)
  ultimately show ?thesis
    using c [of q] c [of "- q"] by (simp add: round_away_def ref_amount_def algebra_simps)
qed

lemma fmt_nat_split:
  assumes "0 \<le> n" and "s = [] \<or> \<not> is_digit (hd s)"
  shows "takeWhile is_digit (fmt_nat n @ s) = fmt_nat n" and "dropWhile is_digit (fmt_nat n @ s) = s"
proof -
  have "\<forall>x \<in> set (fmt_nat n). is_digit x" using fmt_nat_digits assms(1) by blast
  then show "takeWhile is_digit (fmt_nat n @ s) = fmt_nat n" "dropWhile is_digit (fmt_nat n @ s) = s"
    using assms(2) by (cases s; simp)+
qed

lemma ref_parse_signed:
  assumes "0 \<le> n" and "map_of suffix_table s = Some u" and "s = [] \<or> \<not> is_digit (hd s)"
  shows "ref_parse (fmt_nat n @ s) = Some (n * u)" and "ref_parse (''-'' @ fmt_nat n @ s) = Some (- n * u)"
proof -
  note split = fmt_nat_split [OF assms(1,3)]
  obtain c cs where c: "fmt_nat n = c # cs" using fmt_nat_nonempty [of n] by (cases "fmt_nat n") auto
  then have "is_digit c" using fmt_nat_digits [of n] assms(1) by auto
  then have "c \<noteq> CHR ''-''" "c \<noteq> CHR ''+''" by (auto simp: is_digit_def)
  then have "(case fmt_nat n @ s of [] \<Rightarrow> (1, fmt_nat n @ s) | c # cs \<Rightarrow>
            if c = CHR ''-'' then (-1, cs) else if c = CHR ''+'' then (1, cs) else (1, fmt_nat n @ s))
       = (1 :: int, fmt_nat n @ s)" using c by simp
  then show "ref_parse (fmt_nat n @ s) = Some (n * u)"
    using split assms unfolding ref_parse_def Let_def
    by (simp add: dec_val_fmt_nat fmt_nat_nonempty del: takeWhile_append dropWhile_append)
  show "ref_parse (''-'' @ fmt_nat n @ s) = Some (- n * u)"
    using split assms fmt_nat_nonempty [of n] unfolding ref_parse_def by (simp add: dec_val_fmt_nat)
qed

lemma ref_parse_string: "ref_parse (ref_string q) = Some q"
proof -
  have sfx: "map_of suffix_table ''Gi'' = Some (1073741824 * nano)"
    "map_of suffix_table '''' = Some nano" "map_of suffix_table ''n'' = Some 1"
    by (simp_all add: suffix_table_def)
  note parse = ref_parse_signed [OF _ sfx(1), simplified] ref_parse_signed [OF _ sfx(2), simplified]
    ref_parse_signed [OF _ sfx(3), simplified]
  have d: "m div k * k = m" if "m mod k = 0" for m k :: int
    using that by (simp add: minus_mod_eq_div_mult [symmetric])
  have "0 \<le> \<bar>q\<bar> div (1073741824 * nano)" "0 \<le> \<bar>q\<bar> div nano"
    by (simp_all add: nano_def pos_imp_zdiv_nonneg_iff)
  then show ?thesis
    using d [of "\<bar>q\<bar>" "1073741824 * nano"] d [of "\<bar>q\<bar>" nano]
    by (auto simp: ref_string_def Let_def parse is_digit_def)
qed

interpretation ref_qty: quantity_api ref_quantity ref_amount
proof unfold_locales
  show "0 < qty_cmp ref_quantity a b \<longleftrightarrow> ref_amount b < ref_amount a" for a b
    by (simp add: ref_quantity_def ref_amount_less)
  show "qty_cmp ref_quantity a b < 0 \<longleftrightarrow> ref_amount a < ref_amount b" for a b
    by (simp add: ref_quantity_def ref_amount_less)
  show "qty_is_zero ref_quantity q \<longleftrightarrow> ref_amount q = 0" for q
    by (simp add: ref_quantity_def ref_amount_def nano_def)
  show "ref_amount (qty_zero ref_quantity) = 0"
    by (simp add: ref_quantity_def ref_amount_def)
  show "ref_amount (qty_binary ref_quantity v) = of_int v" for v
    by (simp add: ref_quantity_def ref_amount_def nano_def)
  show "qty_value ref_quantity q = round_away (ref_amount q)" if "in_int64 (round_away (ref_amount q))" for q
    using that by (simp add: ref_quantity_def ref_round_away ref_value_def saturate64_def in_int64_def)
  show "in_int64 (qty_value ref_quantity q)" for q
    by (simp add: ref_quantity_def ref_value_def saturate64_def in_int64_def min_int64_def max_int64_def)
  show "\<exists>r. qty_parse ref_quantity (qty_string ref_quantity q) = Some r \<and> ref_amount r = ref_amount q" for q
    by (simp add: ref_quantity_def ref_parse_string)
qed

section \<open>The API server\<close>

text \<open>
  \<open>rs_conflicts\<close> holds the keys of the claims whose update the server refuses. A selector is a
  list of required labels, None one that is not valid.
\<close>

type_synonym ref_selector = "(string \<times> string) list option"

record ref_server =
  rs_pvcs :: "int pvc list"
  rs_policies :: "(int, ref_selector) PVCPolicy list"
  rs_groups :: "int PVCGroup list"
  rs_classes :: "(string \<times> storage_class) list"
  rs_conflicts :: "namespaced_name list"

definition ref_view :: "ref_server \<Rightarrow> namespaced_name \<rightharpoonup> int pvc" where
  "ref_view s k = List.find (\<lambda>p. pvc_key p = k) (rs_pvcs s)"

fun stored_pvcs :: "int pvc list \<Rightarrow> int pvc list" where
  "stored_pvcs [] = []"
| "stored_pvcs (p # ps) = p # filter (\<lambda>q. pvc_key q \<noteq> pvc_key p) (stored_pvcs ps)"

definition group_key :: "'q PVCGroup \<Rightarrow> namespaced_name" where
  "group_key g = \<lparr>nn_namespace = grp_namespace g, nn_name = grp_name g\<rparr>"

definition policy_key :: "('q, 'sel) PVCPolicy \<Rightarrow> namespaced_name" where
  "policy_key q = \<lparr>nn_namespace = pol_namespace q, nn_name = pol_name q\<rparr>"

definition found :: "string \<Rightarrow> 'a option \<Rightarrow> api_error + 'a" where
  "found what r = of_opt (NotFound (what @ '' not found'')) r"

definition ref_update_pvc :: "int pvc \<Rightarrow> ref_server \<Rightarrow> api_error option \<times> ref_server" where
  "ref_update_pvc p s =
     (if ref_view s (pvc_key p) = None then (Some (NotFound ''persistentvolumeclaim not found''), s)
      else if pvc_key p \<in> set (rs_conflicts s) then (Some (ApiError ''conflict''), s)
      else (None, s\<lparr>rs_pvcs := map (\<lambda>q. if pvc_key q = pvc_key p then p else q) (rs_pvcs s)\<rparr>))"

definition ref_update_policy ::
  "(int, ref_selector) PVCPolicy \<Rightarrow> ref_server \<Rightarrow> api_error option \<times> ref_server" where
  "ref_update_policy p s =
     (if policy_key p \<notin> policy_key ` set (rs_policies s) then (Some (NotFound ''pvcpolicy not found''), s)
      else (None, s\<lparr>rs_policies := map (\<lambda>q. if policy_key q = policy_key p then p else q) (rs_policies s)\<rparr>))"

definition ref_update_group :: "int PVCGroup \<Rightarrow> ref_server \<Rightarrow> api_error option \<times> ref_server" where
  "ref_update_group g s =
     (if group_key g \<notin> group_key ` set (rs_groups s) then (Some (NotFound ''pvcgroup not found''), s)
      else (None, s\<lparr>rs_groups := map (\<lambda>q. if group_key q = group_key g then g else q) (rs_groups s)\<rparr>))"

definition ref_kube :: "(int, ref_selector, ref_server) kube" where
  "ref_kube = \<lparr>
     kube_list_pvcs = (\<lambda>s. Inr (stored_pvcs (rs_pvcs s))),
     kube_list_pvcs_in = (\<lambda>ns s. Inr (filter (\<lambda>p. pvc_namespace p = ns) (stored_pvcs (rs_pvcs s)))),
     kube_list_policies = (\<lambda>ns s. Inr (filter (\<lambda>p. pol_namespace p = ns) (rs_policies s))),
     kube_get_policy = (\<lambda>k s. found ''pvcpolicy'' (List.find (\<lambda>p. policy_key p = k) (rs_policies s))),
     kube_get_group = (\<lambda>k s. found ''pvcgroup'' (List.find (\<lambda>g. group_key g = k) (rs_groups s))),
     kube_get_storage_class = (\<lambda>n s. found ''storageclass'' (map_of (rs_classes s) n)),
     kube_update_pvc = ref_update_pvc,
     kube_update_policy_status = ref_update_policy,
     kube_update_group_status = ref_update_group,
     kube_selector = (\<lambda>sel. case sel of None \<Rightarrow> Inl (ApiError ''invalid selector'')
       | Some reqs \<Rightarrow> Inr (\<lambda>labels. \<forall>(k, v) \<in> set reqs. labels k = Some v))\<rparr>"

lemma find_key: "List.find (\<lambda>p. pvc_key p = k) ps = Some p \<Longrightarrow> pvc_key p = k"
  by (auto simp: find_Some_iff)

lemma stored_pvcs_distinct: "distinct (map pvc_key (stored_pvcs ps))"
  by (induction ps) (auto simp: distinct_map intro: inj_on_subset)

lemma stored_pvcs_find:
  "p \<in> set (stored_pvcs ps) \<longleftrightarrow> List.find (\<lambda>q. pvc_key q = pvc_key p) ps = Some p"
  by (induction ps) auto

lemma find_replace:
  "List.find (\<lambda>q. pvc_key q = k) (map (\<lambda>q. if pvc_key q = pvc_key p then p else q) ps) =
    (if k = pvc_key p \<and> List.find (\<lambda>q. pvc_key q = k) ps \<noteq> None then Some p
     else List.find (\<lambda>q. pvc_key q = k) ps)"
  by (induction ps) auto

lemma ref_update_ok:
  assumes "ref_update_pvc p s = (None, s')"
  shows "ref_view s' = (ref_view s)(pvc_key p \<mapsto> p)"
proof
  fix k
  have "ref_view s (pvc_key p) \<noteq> None"
    and "s' = s\<lparr>rs_pvcs := map (\<lambda>q. if pvc_key q = pvc_key p then p else q) (rs_pvcs s)\<rparr>"
    using assms by (auto simp: ref_update_pvc_def split: if_splits)
  then show "ref_view s' k = ((ref_view s)(pvc_key p \<mapsto> p)) k"
    by (auto simp: ref_view_def find_replace)
qed

lemma ref_update_frame:
  "ref_update_pvc p s = (r, s') \<Longrightarrow>
    rs_policies s' = rs_policies s \<and> rs_classes s' = rs_classes s \<and> rs_groups s' = rs_groups s"
  "ref_update_pvc p s = (Some e, s') \<Longrightarrow> s' = s"
  "ref_update_group g s = (r, s') \<Longrightarrow> rs_pvcs s' = rs_pvcs s"
  "ref_update_policy q s = (r, s') \<Longrightarrow> rs_pvcs s' = rs_pvcs s"
  unfolding ref_update_pvc_def ref_update_group_def ref_update_policy_def
  by (auto split: if_splits)

interpretation ref_api: kube_store ref_kube ref_view
proof unfold_locales
  show "ref_view s k = Some p \<Longrightarrow> pvc_key p = k" for s k p
    unfolding ref_view_def by (rule find_key)
  show "kube_update_pvc ref_kube p s = (None, s') \<Longrightarrow> ref_view s' = (ref_view s)(pvc_key p \<mapsto> p)" for p s s'
    by (simp add: ref_kube_def ref_update_ok)
  show "kube_update_pvc ref_kube p s = (Some e, s') \<Longrightarrow> ref_view s' = ref_view s" for p s e s'
    using ref_update_frame(2) by (simp add: ref_kube_def) blast
  show "kube_update_group_status ref_kube g s = (r, s') \<Longrightarrow> ref_view s' = ref_view s" for g s r s'
    using ref_update_frame(3) by (simp add: ref_kube_def ref_view_def fun_eq_iff)
  show "kube_update_policy_status ref_kube q s = (r, s') \<Longrightarrow> ref_view s' = ref_view s" for q s r s'
    using ref_update_frame(4) by (simp add: ref_kube_def ref_view_def fun_eq_iff)
  show "kube_list_pvcs_in ref_kube ns s = Inr ps \<Longrightarrow>
      p \<in> set ps \<longleftrightarrow> pvc_namespace p = ns \<and> ref_view s (pvc_key p) = Some p" for ns s ps p
    by (auto simp: ref_kube_def ref_view_def stored_pvcs_find)
  show "kube_list_pvcs ref_kube s = Inr ps \<Longrightarrow> p \<in> set ps \<longleftrightarrow> ref_view s (pvc_key p) = Some p" for s ps p
    by (auto simp: ref_kube_def ref_view_def stored_pvcs_find)
  show "kube_list_pvcs_in ref_kube ns s = Inr ps \<Longrightarrow> distinct (map pvc_key ps)" for ns s ps
    using stored_pvcs_distinct by (auto simp: ref_kube_def intro!: distinct_map_filter)
  show "kube_list_pvcs ref_kube s = Inr ps \<Longrightarrow> distinct (map pvc_key ps)" for s ps
    using stored_pvcs_distinct by (auto simp: ref_kube_def)
  show "kube_update_pvc ref_kube p s = (r, s') \<Longrightarrow>
      kube_get_storage_class ref_kube n s' = kube_get_storage_class ref_kube n s" for p s r s' n
    using ref_update_frame(1) by (fastforce simp: ref_kube_def)
  show "kube_update_pvc ref_kube p s = (r, s') \<Longrightarrow>
      kube_list_policies ref_kube ns s' = kube_list_policies ref_kube ns s" for p s r s' ns
    using ref_update_frame(1) by (fastforce simp: ref_kube_def)
qed

end
