(* ===== verification/GoRFC3339.thy ===== *)
theory GoRFC3339
  imports GoTime
begin

text \<open>
  \<open>time.Parse(time.RFC3339, s)\<close> and \<open>t.Format(time.RFC3339)\<close>: the calendar (proleptic
  Gregorian, as in Go), the layout 2006-01-02T15:04:05Z07:00 and the leniencies of Go's parser
  (one digit hours, a fraction of the second after a point or a comma).
\<close>

section \<open>The calendar\<close>

definition leap_year :: "int \<Rightarrow> bool" where
  "leap_year y \<longleftrightarrow> y mod 4 = 0 \<and> (y mod 100 \<noteq> 0 \<or> y mod 400 = 0)"

definition days_in :: "int \<Rightarrow> int \<Rightarrow> int" where
  "days_in m y = (if m = 2 then (if leap_year y then 29 else 28)
     else if m \<in> {4, 6, 9, 11} then 30 else 31)"

text \<open>Days since 1970-01-01; years start in March inside, so that leap days come last.\<close>

definition days_from_civil :: "int \<Rightarrow> int \<Rightarrow> int \<Rightarrow> int" where
  "days_from_civil y m d =
     (let y' = (if m \<le> 2 then y - 1 else y);
          yoe = y' mod 400;
          doy = (153 * ((m + 9) mod 12) + 2) div 5 + d - 1;
          doe = yoe * 365 + yoe div 4 - yoe div 100 + doy
      in y' div 400 * 146097 + doe - 719468)"

definition civil_from_days :: "int \<Rightarrow> int \<times> int \<times> int" where
  "civil_from_days z =
     (let w = z + 719468;
          doe = w mod 146097;
          yoe = (doe - doe div 1460 + doe div 36524 - doe div 146096) div 365;
          doy = doe - (365 * yoe + yoe div 4 - yoe div 100);
          mp = (5 * doy + 2) div 153;
          d = doy - (153 * mp + 2) div 5 + 1;
          m = (if mp < 10 then mp + 3 else mp - 9);
          y = yoe + w div 146097 * 400
      in (if m \<le> 2 then y + 1 else y, m, d))"

section \<open>Format\<close>

definition pad :: "nat \<Rightarrow> int \<Rightarrow> string" where
  "pad w n = (let s = fmt_nat \<bar>n\<bar>
     in (if n < 0 then ''-'' else '''') @ replicate (w - length s) (CHR ''0'') @ s)"

definition format_zone :: "int \<Rightarrow> string" where
  "format_zone off =
     (if off = 0 then ''Z''
      else let z = go_div off 60 in
        (if z < 0 then ''-'' else ''+'') @ pad 2 (\<bar>z\<bar> div 60) @ '':'' @ pad 2 (\<bar>z\<bar> mod 60))"

definition format_rfc3339 :: "int \<Rightarrow> time \<Rightarrow> string" where
  "format_rfc3339 off t =
     (let l = t div 1000000000 + off;
          (y, m, d) = civil_from_days (l div 86400);
          s = l mod 86400
      in pad 4 y @ ''-'' @ pad 2 m @ ''-'' @ pad 2 d @ ''T''
         @ pad 2 (s div 3600) @ '':'' @ pad 2 (s mod 3600 div 60) @ '':'' @ pad 2 (s mod 60)
         @ format_zone off)"

section \<open>Parse\<close>

definition expect :: "char \<Rightarrow> string \<Rightarrow> string option" where
  "expect c s = (case s of x # r \<Rightarrow> if x = c then Some r else None | [] \<Rightarrow> None)"

text \<open>\<open>getnum\<close>: two digits, or one where the layout does not fix the width.\<close>

definition getnum :: "bool \<Rightarrow> string \<Rightarrow> (int \<times> string) option" where
  "getnum fixed s = (case s of
       a # r \<Rightarrow> if \<not> is_digit a then None
         else (case r of
             b # r' \<Rightarrow> if is_digit b then Some (digit_val a * 10 + digit_val b, r')
                       else if fixed then None else Some (digit_val a, r)
           | [] \<Rightarrow> if fixed then None else Some (digit_val a, []))
     | [] \<Rightarrow> None)"

definition getyear :: "string \<Rightarrow> (int \<times> string) option" where
  "getyear s = (if 4 \<le> length s \<and> list_all is_digit (take 4 s)
     then Some (dec_val 0 (take 4 s), drop 4 s) else None)"

text \<open>A fraction after the seconds, although the layout has none; nine digits count.\<close>

definition getfrac :: "string \<Rightarrow> int \<times> string" where
  "getfrac s = (case s of
       p # d # r \<Rightarrow>
         if (p = CHR ''.'' \<or> p = CHR '','') \<and> is_digit d then
           (let ds = takeWhile is_digit (d # r); k = take 9 ds
            in (dec_val 0 k * 10 ^ (9 - length k), dropWhile is_digit (d # r)))
         else (0, s)
     | _ \<Rightarrow> (0, s))"

definition getzone :: "string \<Rightarrow> (int \<times> string) option" where
  "getzone s = (case s of
       [] \<Rightarrow> None
     | c # r \<Rightarrow>
         if c = CHR ''Z'' then Some (0, r)
         else if length s < 6 \<or> s ! 3 \<noteq> CHR '':'' \<or> (c \<noteq> CHR ''+'' \<and> c \<noteq> CHR ''-'') then None
         else case (getnum True (take 2 r), getnum True (take 2 (drop 3 r))) of
             (Some (h, _), Some (m, _)) \<Rightarrow>
               if 24 < h \<or> 60 < m then None
               else Some ((if c = CHR ''-'' then - 1 else 1) * (h * 60 + m) * 60, drop 6 s)
           | _ \<Rightarrow> None)"

definition parse_date :: "string \<Rightarrow> (int \<times> string) option" where
  "parse_date s =
     Option.bind (getyear s) (\<lambda>(y, s).
     Option.bind (expect (CHR ''-'') s) (\<lambda>s.
     Option.bind (getnum True s) (\<lambda>(m, s).
     if m < 1 \<or> 12 < m then None else
     Option.bind (expect (CHR ''-'') s) (\<lambda>s.
     Option.bind (getnum True s) (\<lambda>(d, s).
     if d < 1 \<or> days_in m y < d then None else Some (days_from_civil y m d, s))))))"

definition parse_clock :: "string \<Rightarrow> (int \<times> string) option" where
  "parse_clock s =
     Option.bind (getnum False s) (\<lambda>(h, s).
     if 24 \<le> h then None else
     Option.bind (expect (CHR '':'') s) (\<lambda>s.
     Option.bind (getnum True s) (\<lambda>(m, s).
     if 60 \<le> m then None else
     Option.bind (expect (CHR '':'') s) (\<lambda>s.
     Option.bind (getnum True s) (\<lambda>(sec, s).
     if 60 \<le> sec then None else Some (h * 3600 + m * 60 + sec, s))))))"

definition parse_rfc3339 :: "string \<Rightarrow> time option" where
  "parse_rfc3339 s =
     Option.bind (parse_date s) (\<lambda>(days, s).
     Option.bind (expect (CHR ''T'') s) (\<lambda>s.
     Option.bind (parse_clock s) (\<lambda>(secs, s).
     let (ns, s) = getfrac s in
     Option.bind (getzone s) (\<lambda>(off, s).
     if s \<noteq> [] then None else Some ((days * 86400 + secs - off) * 1000000000 + ns)))))"

end
