(* ===== verification/Annotations.thy ===== *)
theory Annotations
  imports GoRFC3339 KubeTypes
begin

text \<open>
  pkg/annotations/annotations.go: the configuration of one claim, read from its annotations and
  the global configuration, and the decisions computed from it (new size, cooldown, limit).
  A pointer that may be nil is an option.
\<close>

section \<open>Constants and types\<close>

definition AnnotationEnabled :: string where "AnnotationEnabled = ''pvc-chonker.io/enabled''"
definition AnnotationThreshold :: string where "AnnotationThreshold = ''pvc-chonker.io/threshold''"
definition AnnotationInodesThreshold :: string where
  "AnnotationInodesThreshold = ''pvc-chonker.io/inodes-threshold''"
definition AnnotationIncrease :: string where "AnnotationIncrease = ''pvc-chonker.io/increase''"
definition AnnotationMaxSize :: string where "AnnotationMaxSize = ''pvc-chonker.io/max-size''"
definition AnnotationCooldown :: string where "AnnotationCooldown = ''pvc-chonker.io/cooldown''"
definition AnnotationMinScaleUp :: string where "AnnotationMinScaleUp = ''pvc-chonker.io/min-scale-up''"
definition AnnotationLastExpansion :: string where
  "AnnotationLastExpansion = ''pvc-chonker.io/last-expansion''"

lemmas annotation_names =
  AnnotationEnabled_def AnnotationThreshold_def AnnotationInodesThreshold_def AnnotationIncrease_def
  AnnotationMaxSize_def AnnotationCooldown_def AnnotationMinScaleUp_def AnnotationLastExpansion_def

definition DefaultThreshold :: float64 where "DefaultThreshold = FFin 80"
definition DefaultInodesThreshold :: float64 where "DefaultInodesThreshold = FFin 80"
definition DefaultIncrease :: string where "DefaultIncrease = ''10%''"
definition DefaultCooldown :: duration where "DefaultCooldown = 15 * minute"
definition DefaultMinScaleUpGiB :: int where "DefaultMinScaleUpGiB = 1"
definition DefaultMinScaleUp :: int where
  "DefaultMinScaleUp = DefaultMinScaleUpGiB * 1024 * 1024 * 1024"

record 'q GlobalConfig =
  gc_Threshold :: float64
  gc_InodesThreshold :: float64
  gc_Increase :: string
  gc_Cooldown :: duration
  gc_MinScaleUp :: 'q
  gc_MaxSize :: 'q

record 'q PVCConfig =
  pc_Enabled :: bool
  pc_Threshold :: float64
  pc_InodesThreshold :: float64
  pc_Increase :: string
  pc_MaxSize :: 'q
  pc_Cooldown :: duration
  pc_MinScaleUp :: 'q
  pc_LastExpansion :: "time option"

datatype percent_error =
  PercentEmpty | PercentNoSuffix string | PercentEmptyBefore
| PercentInvalid string num_error | PercentRange float64

datatype config_error =
  NilPVC | NilGlobal | NoAnnotations | NotEnabled | Disabled
| InvalidThreshold percent_error | InvalidInodesThreshold percent_error
| InvalidMaxSize | InvalidCooldown duration_error | InvalidMinScaleUp | InvalidLastExpansion

datatype size_error = NilConfig | InvalidPercentage string | InvalidSize string

section \<open>Percentages\<close>

definition parsePercentage :: "string \<Rightarrow> percent_error + float64" where
  "parsePercentage s =
     (if s = '''' then Inl PercentEmpty
      else let s = TrimSpace s in
        if \<not> HasSuffix s ''%'' then Inl (PercentNoSuffix s)
        else let percentStr = TrimSuffix s ''%'' in
          if percentStr = '''' then Inl PercentEmptyBefore
          else case ParseFloat percentStr of
              Inl e \<Rightarrow> Inl (PercentInvalid percentStr e)
            | Inr percent \<Rightarrow>
                if f_less percent (FFin 0) \<or> f_less (FFin 100) percent
                then Inl (PercentRange percent) else Inr percent)"

section \<open>Reading the annotations\<close>

text \<open>The idiom \<open>if v, exists := pvc.Annotations[k]; exists { parse } else { default }\<close>.\<close>

definition annotation_or ::
  "(string \<rightharpoonup> string) \<Rightarrow> string \<Rightarrow> (string \<Rightarrow> config_error + 'a) \<Rightarrow> 'a \<Rightarrow> config_error + 'a" where
  "annotation_or m k parse d = (case m k of Some v \<Rightarrow> parse v | None \<Rightarrow> Inr d)"

definition ParsePVCAnnotations ::
  "'q quantity_ops \<Rightarrow> 'q pvc option \<Rightarrow> 'q GlobalConfig option \<Rightarrow> config_error + 'q PVCConfig" where
  "ParsePVCAnnotations Q pvc global =
     (case pvc of None \<Rightarrow> Inl NilPVC | Some p \<Rightarrow>
      case global of None \<Rightarrow> Inl NilGlobal | Some g \<Rightarrow>
      case pvc_annotations p of None \<Rightarrow> Inl NoAnnotations | Some m \<Rightarrow>
      case m AnnotationEnabled of None \<Rightarrow> Inl NotEnabled | Some enabled \<Rightarrow>
      if ToLower enabled \<noteq> ''true'' then Inl Disabled else
      try_in (annotation_or m AnnotationThreshold
                (\<lambda>v. map_err InvalidThreshold (parsePercentage v)) (gc_Threshold g)) (\<lambda>threshold.
      try_in (annotation_or m AnnotationInodesThreshold
                (\<lambda>v. map_err InvalidInodesThreshold (parsePercentage v)) (gc_InodesThreshold g)) (\<lambda>inodes.
      try_in (annotation_or m AnnotationIncrease Inr (gc_Increase g)) (\<lambda>increase.
      try_in (annotation_or m AnnotationMaxSize
                (\<lambda>v. of_opt InvalidMaxSize (qty_parse Q v)) (gc_MaxSize g)) (\<lambda>maxSize.
      try_in (annotation_or m AnnotationCooldown
                (\<lambda>v. map_err InvalidCooldown (ParseDuration v)) (gc_Cooldown g)) (\<lambda>cooldown.
      try_in (annotation_or m AnnotationMinScaleUp
                (\<lambda>v. of_opt InvalidMinScaleUp (qty_parse Q v)) (gc_MinScaleUp g)) (\<lambda>minScaleUp.
      try_in (annotation_or m AnnotationLastExpansion
                (\<lambda>v. of_opt InvalidLastExpansion (map_option Some (parse_rfc3339 v))) None)
        (\<lambda>lastExpansion.
      Inr \<lparr>pc_Enabled = True, pc_Threshold = threshold, pc_InodesThreshold = inodes,
           pc_Increase = increase, pc_MaxSize = maxSize, pc_Cooldown = cooldown,
           pc_MinScaleUp = minScaleUp, pc_LastExpansion = lastExpansion\<rparr>))))))))"

section \<open>The new size\<close>

definition gibBoundary :: int where "gibBoundary = 1024 * 1024 * 1024"

text \<open>
  The increase in bytes before the minimum is applied; \<open>oob\<close> is what the platform's conversion
  makes of a float outside int64.
\<close>

definition increase_of ::
  "(float64 \<Rightarrow> int) \<Rightarrow> 'q quantity_ops \<Rightarrow> string \<Rightarrow> 'q \<Rightarrow> size_error + int" where
  "increase_of oob Q spec currentSize =
     (let increase = TrimSpace spec in
      if HasSuffix increase ''%'' then
        (case ParseFloat (TrimSuffix increase ''%'') of
           Inl _ \<Rightarrow> Inl (InvalidPercentage increase)
         | Inr percent \<Rightarrow>
             Inr (f_to_int64 oob
                    (f_div (f_mul (f_of_int (qty_value Q currentSize)) percent) (FFin 100))))
      else
        (case qty_parse Q increase of
           None \<Rightarrow> Inl (InvalidSize increase)
         | Some q \<Rightarrow> Inr (qty_value Q q)))"

definition round_to_gib :: "int \<Rightarrow> int" where
  "round_to_gib n = wrap64 (go_div (wrap64 (wrap64 (n + gibBoundary) - 1)) gibBoundary * gibBoundary)"

definition CalculateNewSize ::
  "(float64 \<Rightarrow> int) \<Rightarrow> 'q quantity_ops \<Rightarrow> 'q PVCConfig option \<Rightarrow> 'q \<Rightarrow> size_error + 'q" where
  "CalculateNewSize oob Q config currentSize =
     (case config of None \<Rightarrow> Inl NilConfig | Some c \<Rightarrow>
      try_in (increase_of oob Q (pc_Increase c) currentSize) (\<lambda>increaseBytes.
      let minScaleUpBytes = qty_value Q (pc_MinScaleUp c);
          increaseBytes = (if increaseBytes < minScaleUpBytes then minScaleUpBytes else increaseBytes);
          currentBytes = qty_value Q currentSize;
          newBytes = wrap64 (currentBytes + increaseBytes);
          roundedBytes = round_to_gib newBytes
      in Inr (qty_binary Q roundedBytes)))"

section \<open>Cooldown, limit, ongoing resize\<close>

definition IsInCooldown :: "time \<Rightarrow> 'q PVCConfig option \<Rightarrow> bool" where
  "IsInCooldown now config =
     (case config of None \<Rightarrow> False | Some c \<Rightarrow>
      (case pc_LastExpansion c of None \<Rightarrow> False
       | Some t \<Rightarrow> time_sub now t < pc_Cooldown c))"

definition ExceedsMaxSize :: "'q quantity_ops \<Rightarrow> 'q PVCConfig option \<Rightarrow> 'q \<Rightarrow> bool" where
  "ExceedsMaxSize Q config newSize =
     (case config of None \<Rightarrow> False | Some c \<Rightarrow>
      if qty_is_zero Q (pc_MaxSize c) then False else 0 < qty_cmp Q newSize (pc_MaxSize c))"

definition resize_condition :: "string \<times> string \<Rightarrow> bool" where
  "resize_condition cond \<longleftrightarrow>
     (fst cond = ''Resizing'' \<or> fst cond = ''FileSystemResizePending'') \<and> snd cond = ''True''"

definition IsPvcResizing :: "'q pvc option \<Rightarrow> bool" where
  "IsPvcResizing pvc = (case pvc of None \<Rightarrow> False | Some p \<Rightarrow> list_ex resize_condition (pvc_conditions p))"

text \<open>\<open>zone\<close> is the local zone's offset at that moment, in seconds.\<close>

definition UpdateLastExpansion :: "int \<Rightarrow> time \<Rightarrow> 'q pvc \<Rightarrow> 'q pvc" where
  "UpdateLastExpansion zone now p =
     p\<lparr>pvc_annotations := Some ((case pvc_annotations p of None \<Rightarrow> Map.empty | Some m \<Rightarrow> m)
        (AnnotationLastExpansion \<mapsto> format_rfc3339 zone now))\<rparr>"

section \<open>The global configuration\<close>

definition valid_increase :: "'q quantity_ops \<Rightarrow> string \<Rightarrow> bool" where
  "valid_increase Q increase =
     (if HasSuffix increase ''%'' then
        (case ParseFloat (TrimSuffix increase ''%'') of Inl _ \<Rightarrow> False | Inr _ \<Rightarrow> True)
      else qty_parse Q increase \<noteq> None)"

definition NewGlobalConfig ::
  "'q quantity_ops \<Rightarrow> float64 \<Rightarrow> float64 \<Rightarrow> string \<Rightarrow> duration \<Rightarrow> 'q \<Rightarrow> 'q \<Rightarrow> 'q GlobalConfig" where
  "NewGlobalConfig Q threshold inodesThreshold increase cooldown minScaleUp maxSize =
     \<lparr>gc_Threshold = (if f_le threshold (FFin 0) then DefaultThreshold else threshold),
      gc_InodesThreshold =
        (if f_le inodesThreshold (FFin 0) then DefaultInodesThreshold else inodesThreshold),
      gc_Increase =
        (if increase = '''' then DefaultIncrease
         else if valid_increase Q (TrimSpace increase) then TrimSpace increase else DefaultIncrease),
      gc_Cooldown = (if cooldown \<le> 0 then DefaultCooldown else cooldown),
      gc_MinScaleUp = (if qty_is_zero Q minScaleUp then qty_binary Q DefaultMinScaleUp else minScaleUp),
      gc_MaxSize = maxSize\<rparr>"

section \<open>Correctness\<close>

subsection \<open>Percentages\<close>

lemma f_range_cases:
  assumes "\<not> f_less x (FFin a)" and "\<not> f_less (FFin b) x"
  shows "x = FNaN \<or> (\<exists>q. x = FFin q \<and> a \<le> q \<and> q \<le> b)"
  using assms by (cases x) (auto split: bool.splits elim: f_less.elims)

lemma parsePercentage_range:
  assumes "parsePercentage s = Inr x"
  shows "x = FNaN \<or> (\<exists>q. x = FFin q \<and> 0 \<le> q \<and> q \<le> 100)"
proof (rule f_range_cases)
  show "\<not> f_less x (FFin 0)" and "\<not> f_less (FFin 100) x"
    using assms by (auto simp: parsePercentage_def Let_def split: if_splits sum.splits)
qed

text \<open>A string of digits is left alone by \<open>TrimSpace\<close>, with or without a percent sign.\<close>

lemma space_rune_heads: "\<forall>p \<in> set space_runes. p \<noteq> [] \<and> \<not> is_digit (hd p)"
  by code_simp

lemma digits_no_space:
  assumes "\<forall>c \<in> set s. is_digit c" and "s \<noteq> []"
  shows "TrimSpace (s @ ''%'') = s @ ''%''"
proof (rule TrimSpace_id)
  obtain c cs where s: "s = c # cs" using \<open>s \<noteq> []\<close> by (cases s) auto
  have c: "is_digit c" using assms s by simp
  have "strip_prefix p (s @ ''%'') = None" if "p \<in> set space_runes" for p
    using space_rune_heads that c by (cases p) (auto simp: s)
  then show "strip_first space_runes (s @ ''%'') = None"
    by (simp add: strip_first_None)
  show "strip_first (map rev space_runes) (rev (s @ ''%'')) = None"
    by (simp add: space_runes_def)
qed

lemma to_f64_small_int: "\<bar>n\<bar> < 9007199254740992 \<Longrightarrow> to_f64 (of_int n) = FFin (of_int n)"
proof -
  assume n: "\<bar>n\<bar> < 9007199254740992"
  have "\<bar>rat_of_int n\<bar> = of_int \<bar>n\<bar>" by simp
  also have "\<dots> \<le> of_int 9007199254740992" using n by (simp only: of_int_le_iff less_imp_le)
  also have "\<dots> = pow2 53" by (simp add: pow2_def)
  also have "\<dots> \<le> pow2 1023" by (rule pow2_mono) simp
  finally show ?thesis by (simp add: to_f64_finite fround_of_int n)
qed

lemma parsePercentage_digits:
  assumes "0 \<le> n" and "n \<le> 100"
  shows "parsePercentage (fmt_nat n @ ''%'') = Inr (FFin (of_int n))"
proof -
  have "ParseFloat (fmt_nat n) = Inr (FFin (of_int n))"
    using ParseFloat_digits [OF fmt_nat_digits fmt_nat_nonempty, of n] assms
    by (simp add: dec_val_fmt_nat to_f64_small_int)
  moreover have "TrimSpace (fmt_nat n @ ''%'') = fmt_nat n @ ''%''"
    using assms by (intro digits_no_space fmt_nat_digits fmt_nat_nonempty)
  ultimately show ?thesis
    using assms by (simp add: parsePercentage_def fmt_nat_nonempty)
qed

end
