(* ===== verification/AnnotationFacts.thy ===== *)
theory AnnotationFacts
  imports Annotations
begin

text \<open>
  What the configuration code of pkg/annotations/annotations.go guarantees: which source each
  field comes from, when reading fails, the arithmetic of the new size, and that a validated
  global configuration cannot make it fail.
\<close>

section \<open>Reading annotations\<close>

lemma annotation_or_Inr: "annotation_or m k parse d = Inr x \<longleftrightarrow>
    (case m k of None \<Rightarrow> x = d | Some v \<Rightarrow> parse v = Inr x)"
  by (auto simp: annotation_or_def split: option.splits)

text \<open>The success of reading, as one equation per field.\<close>

lemma parse_annotations_Inr:
  "ParsePVCAnnotations Q (Some p) (Some g) = Inr c \<longleftrightarrow>
    (\<exists>m e. pvc_annotations p = Some m \<and> m AnnotationEnabled = Some e \<and> ToLower e = ''true'' \<and>
      pc_Enabled c \<and>
      (case m AnnotationThreshold of None \<Rightarrow> pc_Threshold c = gc_Threshold g
        | Some v \<Rightarrow> parsePercentage v = Inr (pc_Threshold c)) \<and>
      (case m AnnotationInodesThreshold of None \<Rightarrow> pc_InodesThreshold c = gc_InodesThreshold g
        | Some v \<Rightarrow> parsePercentage v = Inr (pc_InodesThreshold c)) \<and>
      (case m AnnotationIncrease of None \<Rightarrow> pc_Increase c = gc_Increase g
        | Some v \<Rightarrow> pc_Increase c = v) \<and>
      (case m AnnotationMaxSize of None \<Rightarrow> pc_MaxSize c = gc_MaxSize g
        | Some v \<Rightarrow> qty_parse Q v = Some (pc_MaxSize c)) \<and>
      (case m AnnotationCooldown of None \<Rightarrow> pc_Cooldown c = gc_Cooldown g
        | Some v \<Rightarrow> ParseDuration v = Inr (pc_Cooldown c)) \<and>
      (case m AnnotationMinScaleUp of None \<Rightarrow> pc_MinScaleUp c = gc_MinScaleUp g
        | Some v \<Rightarrow> qty_parse Q v = Some (pc_MinScaleUp c)) \<and>
      (case m AnnotationLastExpansion of None \<Rightarrow> pc_LastExpansion c = None
        | Some v \<Rightarrow> \<exists>t. parse_rfc3339 v = Some t \<and> pc_LastExpansion c = Some t))"
  by (cases c)
    (auto simp: ParsePVCAnnotations_def annotation_or_Inr result_Inr split: option.splits)

definition annotations_parse :: "'q quantity_ops \<Rightarrow> (string \<rightharpoonup> string) \<Rightarrow> bool" where
  "annotations_parse Q m \<longleftrightarrow>
     pred_option (\<lambda>v. \<exists>x. parsePercentage v = Inr x) (m AnnotationThreshold) \<and>
     pred_option (\<lambda>v. \<exists>x. parsePercentage v = Inr x) (m AnnotationInodesThreshold) \<and>
     pred_option (\<lambda>v. qty_parse Q v \<noteq> None) (m AnnotationMaxSize) \<and>
     pred_option (\<lambda>v. \<exists>x. ParseDuration v = Inr x) (m AnnotationCooldown) \<and>
     pred_option (\<lambda>v. qty_parse Q v \<noteq> None) (m AnnotationMinScaleUp) \<and>
     pred_option (\<lambda>v. parse_rfc3339 v \<noteq> None) (m AnnotationLastExpansion)"

lemma annotation_or_total:
  "(\<exists>x. annotation_or m k parse d = Inr x) \<longleftrightarrow> pred_option (\<lambda>v. \<exists>x. parse v = Inr x) (m k)"
  by (auto simp: annotation_or_def split: option.splits)

lemma try_in_total: "(\<exists>y. try_in r f = Inr y) \<longleftrightarrow> (\<exists>x. r = Inr x \<and> (\<exists>y. f x = Inr y))"
  by (cases r) auto

lemma parse_annotations_total:
  "(\<exists>c. ParsePVCAnnotations Q (Some p) (Some g) = Inr c) \<longleftrightarrow>
    (\<exists>m e. pvc_annotations p = Some m \<and> m AnnotationEnabled = Some e \<and> ToLower e = ''true'' \<and>
      annotations_parse Q m)"
  by (auto simp: ParsePVCAnnotations_def annotations_parse_def try_in_total annotation_or_total
      map_err_Inr of_opt_Inr option.pred_True split: option.split if_split)

section \<open>The arithmetic of the new size\<close>

lemma gib_pos: "0 < gibBoundary"
  by (simp add: gibBoundary_def)

lemma round_to_gib_exact:
  assumes "0 \<le> n" and "n \<le> max_int64 - gibBoundary"
  shows "round_to_gib n = (n + gibBoundary - 1) div gibBoundary * gibBoundary"
    and "gibBoundary dvd round_to_gib n"
    and "n \<le> round_to_gib n" and "round_to_gib n < n + gibBoundary"
    and "in_int64 (round_to_gib n)"
proof -
  let ?r = "(n + gibBoundary - 1) div gibBoundary * gibBoundary"
  have r: "n \<le> ?r" "?r < n + gibBoundary"
    using round_up_bounds [OF gib_pos, of n] by auto
  have "in_int64 (n + gibBoundary)" "in_int64 (n + gibBoundary - 1)" and i: "in_int64 ?r"
    using assms r gib_pos by (auto simp: in_int64_def min_int64_def)
  then have e: "round_to_gib n = ?r"
    using assms gib_pos by (simp add: round_to_gib_def wrap64_id go_div_nonneg)
  then show "round_to_gib n = ?r" and "gibBoundary dvd round_to_gib n"
    and "n \<le> round_to_gib n" and "round_to_gib n < n + gibBoundary"
    and "in_int64 (round_to_gib n)"
    using r i by simp_all
qed

text \<open>Above that bound the sum wraps around, and the result is negative.\<close>

lemma round_to_gib_overflow:
  assumes "max_int64 - gibBoundary + 1 < n" and "n \<le> max_int64"
  shows "round_to_gib n < 0" and "in_int64 (round_to_gib n)"
proof -
  define v where "v = n + gibBoundary - 18446744073709551616"
  have v: "min_int64 < v" "v < min_int64 + gibBoundary"
    using assms unfolding v_def by (simp_all add: max_int64_def min_int64_def)
  have "wrap64 (n + gibBoundary) = v"
  proof -
    have "(n + gibBoundary + 9223372036854775808) mod 18446744073709551616
      = (n + gibBoundary + 9223372036854775808 - 18446744073709551616) mod 18446744073709551616"
      by (rule minus_mod_self2 [symmetric])
    also have "\<dots> = n + gibBoundary + 9223372036854775808 - 18446744073709551616"
      using v unfolding v_def
      by (intro mod_pos_pos_trivial) (simp_all add: min_int64_def gibBoundary_def)
    finally show ?thesis by (simp add: wrap64_def v_def)
  qed
  moreover have "in_int64 (v - 1)" using v by (simp add: in_int64_def min_int64_def max_int64_def gibBoundary_def)
  moreover have "go_div (v - 1) gibBoundary * gibBoundary = - (\<bar>v - 1\<bar> div gibBoundary * gibBoundary)"
    using v by (simp add: go_div_def min_int64_def gibBoundary_def)
  moreover define k where "k = \<bar>v - 1\<bar> div gibBoundary * gibBoundary"
  moreover have k: "k \<le> \<bar>v - 1\<bar>" "\<bar>v - 1\<bar> < k + gibBoundary"
    using round_up_bounds [OF gib_pos, of "\<bar>v - 1\<bar> - gibBoundary + 1"] unfolding k_def by simp_all
  then have "0 < k" "in_int64 (- k)"
    using v by (simp_all add: in_int64_def min_int64_def max_int64_def gibBoundary_def)
  ultimately have "round_to_gib n = - k" by (simp add: round_to_gib_def wrap64_id)
  then show "round_to_gib n < 0" "in_int64 (round_to_gib n)" using \<open>0 < k\<close> \<open>in_int64 (- k)\<close> by simp_all
qed

text \<open>The step a resize adds: the increase, raised to the minimum.\<close>

definition scale_step :: "'q quantity_ops \<Rightarrow> 'q PVCConfig \<Rightarrow> int \<Rightarrow> int" where
  "scale_step Q c inc = max inc (qty_value Q (pc_MinScaleUp c))"

lemma CalculateNewSize_Inr:
  "CalculateNewSize oob Q (Some c) cur = Inr new \<longleftrightarrow>
    (\<exists>inc. increase_of oob Q (pc_Increase c) cur = Inr inc \<and>
      new = qty_binary Q (round_to_gib (wrap64 (qty_value Q cur + scale_step Q c inc))))"
  by (cases "increase_of oob Q (pc_Increase c) cur")
    (auto simp: CalculateNewSize_def Let_def scale_step_def max_def not_less)

context quantity_api
begin

lemma new_size_bounds:
  assumes "CalculateNewSize oob Q (Some c) cur = Inr new"
    and "increase_of oob Q (pc_Increase c) cur = Inr inc"
    and "0 \<le> qty_value Q cur + scale_step Q c inc"
    and "qty_value Q cur + scale_step Q c inc \<le> max_int64 - gibBoundary"
  shows "gibBoundary dvd qty_value Q new"
    and "qty_value Q cur + scale_step Q c inc \<le> qty_value Q new"
    and "qty_value Q new < qty_value Q cur + scale_step Q c inc + gibBoundary"
    and "amount new = of_int (qty_value Q new)"
proof -
  let ?n = "qty_value Q cur + scale_step Q c inc"
  have "in_int64 ?n" using assms(3,4) gib_pos by (auto simp: in_int64_def min_int64_def)
  then have "new = qty_binary Q (round_to_gib ?n)"
    using assms(1,2) by (auto simp: CalculateNewSize_Inr wrap64_id)
  with round_to_gib_exact [OF assms(3,4)]
  show "gibBoundary dvd qty_value Q new" and "?n \<le> qty_value Q new"
    and "qty_value Q new < ?n + gibBoundary" and "amount new = of_int (qty_value Q new)"
    by (simp_all add: value_binary binary_amount)
qed

lemma new_size_grows:
  assumes "CalculateNewSize oob Q (Some c) cur = Inr new"
    and "increase_of oob Q (pc_Increase c) cur = Inr inc"
    and "0 \<le> amount cur" and "in_int64 (round_away (amount cur))"
    and "0 < qty_value Q (pc_MinScaleUp c)"
    and "qty_value Q cur + scale_step Q c inc \<le> max_int64 - gibBoundary"
  shows "0 < qty_cmp Q new cur"
proof -
  have cur: "amount cur \<le> of_int (qty_value Q cur)"
    using assms(4,3) by (rule value_ge_amount)
  then have "0 \<le> qty_value Q cur"
    using assms(3) by (metis of_int_0_le_iff order_trans)
  moreover have "0 < scale_step Q c inc" using assms(5) by (simp add: scale_step_def)
  ultimately have "0 \<le> qty_value Q cur + scale_step Q c inc"
    and less: "qty_value Q cur < qty_value Q cur + scale_step Q c inc" by simp_all
  from new_size_bounds [OF assms(1,2) this(1) assms(6)] less
  have "qty_value Q cur < qty_value Q new" and "amount new = of_int (qty_value Q new)" by simp_all
  then have "amount cur < amount new"
    using cur by (metis le_less_trans of_int_less_iff)
  then show ?thesis by (simp add: cmp_pos)
qed

lemma within_max:
  "\<not> ExceedsMaxSize Q (Some c) new \<longleftrightarrow> amount (pc_MaxSize c) = 0 \<or> amount new \<le> amount (pc_MaxSize c)"
  by (auto simp: ExceedsMaxSize_def is_zero cmp_pos not_less)

end

section \<open>Percentages of the current size\<close>

text \<open>The quotient by 100 of an integer below \<open>2 ^ 53\<close> is never rounded up to the next integer.\<close>

lemma fround_hundredth:
  fixes n :: int
  assumes "0 \<le> n" and "n < 9007199254740992"
  shows "\<lfloor>fround (of_int n / 100)\<rfloor> = n div 100"
proof (cases "n mod 100 = 0")
  case True
  then have "rat_of_int n / 100 = of_int (n div 100)"
    by (metis nonzero_mult_div_cancel_left of_int_mult of_int_numeral zero_neq_numeral
        mult_div_mod_eq add.right_neutral)
  then show ?thesis using assms by (simp add: fround_of_int)
next
  case False
  let ?x = "rat_of_int n / 100"
  define f where "f = n div 100"
  have r: "n = 100 * f + n mod 100" "n mod 100 \<le> 99" unfolding f_def by simp_all
  have pos: "0 < ?x" using assms(1) False by (cases "n = 0") auto
  have "n \<le> 100 * f + 99" and "100 * f \<le> n" using r by simp_all
  then have "rat_of_int n \<le> of_int (100 * f + 99)" and "rat_of_int (100 * f) \<le> of_int n"
    by (simp_all only: of_int_le_iff)
  then have x: "?x \<le> of_int f + 99 / 100" "of_int f \<le> ?x" by simp_all
  have "\<bar>f\<bar> < 9007199254740992" using assms unfolding f_def by simp
  then have lo: "of_int f \<le> fround ?x"
    using fround_mono [OF x(2)] fround_of_int [of f] by simp
  have "rat_of_int n < of_int 9007199254740992" using assms(2) by (simp only: of_int_less_iff)
  then have "?x < pow2 47" by (simp add: pow2_def)
  then have "flog2 ?x < 47"
    using flog2_bounds(1) [OF pos] by (metis le_less_trans pow2_less_iff)
  then have "ulp_exp ?x \<le> - 6" using pos by (simp add: ulp_exp_def)
  then have "pow2 (ulp_exp ?x) \<le> pow2 (- 6)" by (rule pow2_mono)
  then have "pow2 (ulp_exp ?x) / 2 \<le> 1 / 128" by (simp add: pow2_def power_int_minus)
  then have "fround ?x < of_int f + 1"
    using fround_error [of ?x] x(1) by linarith
  with lo show ?thesis unfolding f_def [symmetric] by (simp add: floor_eq_iff)
qed

text \<open>So the floating point route gives the exact integer percentage.\<close>

lemma percent_increase_exact:
  assumes "HasSuffix (TrimSpace spec) ''%''"
    and "ParseFloat (TrimSuffix (TrimSpace spec) ''%'') = Inr (FFin (of_int p))"
    and "0 \<le> p" and "0 \<le> qty_value Q cur" and "qty_value Q cur < 9007199254740992"
    and "qty_value Q cur * p < 9007199254740992"
  shows "increase_of oob Q spec cur = Inr (qty_value Q cur * p div 100)"
proof -
  let ?v = "qty_value Q cur" and ?n = "qty_value Q cur * p"
  have n: "0 \<le> ?n" using assms by simp
  have "f_of_int ?v = FFin (of_int ?v)"
    using assms by (simp add: f_of_int_def to_f64_small_int)
  moreover have "to_f64 (rat_of_int ?v * of_int p) = FFin (of_int ?n)"
    using to_f64_small_int [of ?n] assms(6) n by simp
  moreover have "to_f64 (rat_of_int ?n / 100) = FFin (fround (of_int ?n / 100))"
  proof (rule to_f64_finite)
    have "rat_of_int ?n < of_int 9007199254740992" using assms(6) by (simp only: of_int_less_iff)
    then have "\<bar>rat_of_int ?n / 100\<bar> \<le> pow2 53"
      using n by (simp add: pow2_def flip: of_int_mult)
    also have "\<dots> \<le> pow2 1023" by (rule pow2_mono) simp
    finally show "\<bar>rat_of_int ?n / 100\<bar> \<le> pow2 1023" .
  qed
  moreover have "rat_trunc (fround (rat_of_int ?n / 100)) = ?n div 100"
  proof -
    have "0 \<le> fround (rat_of_int ?n / 100)"
    proof (rule fround_nonneg)
      have "0 \<le> rat_of_int ?n" using n by (simp only: of_int_0_le_iff)
      then show "0 \<le> rat_of_int ?n / 100" by simp
    qed
    then show ?thesis using fround_hundredth [OF n assms(6)] by (simp add: rat_trunc_def)
  qed
  moreover have "in_int64 (m div 100)" if "0 \<le> m" "m < 9007199254740992" for m
    using zdiv_mono1 [of m 9007199254740992 100] zdiv_mono1 [of 0 m 100] that
    by (simp add: in_int64_def min_int64_def max_int64_def)
  from this [OF n assms(6)] have "in_int64 (?n div 100)" .
  ultimately show ?thesis
    using assms(1,2) by (simp add: increase_of_def Let_def f_to_int64_def del: of_int_mult)
qed

section \<open>The global configuration\<close>

lemma increase_of_total:
  "(\<exists>inc. increase_of oob Q spec cur = Inr inc) \<longleftrightarrow> valid_increase Q (TrimSpace spec)"
  by (auto simp: increase_of_def valid_increase_def Let_def split: sum.splits option.splits)

lemma DefaultIncrease_valid: "valid_increase Q DefaultIncrease" "TrimSpace DefaultIncrease = DefaultIncrease"
proof -
  have "HasSuffix DefaultIncrease ''%''" "TrimSuffix DefaultIncrease ''%'' = ''10''"
    by (simp_all add: DefaultIncrease_def HasSuffix_def TrimSuffix_def)
  moreover have "\<exists>x. ParseFloat ''10'' = Inr x"
    using to_f64_small_int [of 10]
    by (subst ParseFloat_digits) (auto simp: is_digit_def digit_val_def)
  ultimately show "valid_increase Q DefaultIncrease"
    by (auto simp: valid_increase_def split: sum.split)
  show "TrimSpace DefaultIncrease = DefaultIncrease" by code_simp
qed

lemma NewGlobalConfig_increase:
  "valid_increase Q (TrimSpace (gc_Increase (NewGlobalConfig Q t i inc cd mn mx)))"
  by (simp add: NewGlobalConfig_def DefaultIncrease_valid)

end
