(* ===== verification/Policy.thy ===== *)
theory Policy
  imports AnnotationFacts
begin

text \<open>
  pkg/annotations/policy.go: which configuration governs a claim. The claim's own annotations
  come first, then the first policy of its namespace whose selector matches its labels.
\<close>

datatype resolve_error = ListFailed api_error | SelectorInvalid api_error | ErrPVCNotManaged

section \<open>Optional template fields\<close>

definition getBoolValue :: "bool option \<Rightarrow> bool \<Rightarrow> bool" where
  "getBoolValue ptr defaultVal = (case ptr of Some b \<Rightarrow> b | None \<Rightarrow> defaultVal)"

definition getThresholdValue :: "string option \<Rightarrow> float64 \<Rightarrow> float64" where
  "getThresholdValue ptr defaultVal =
     (case ptr of Some s \<Rightarrow> (case parsePercentage s of Inr v \<Rightarrow> v | Inl _ \<Rightarrow> defaultVal)
      | None \<Rightarrow> defaultVal)"

definition getStringValue :: "string option \<Rightarrow> string \<Rightarrow> string" where
  "getStringValue ptr defaultVal = (case ptr of Some s \<Rightarrow> s | None \<Rightarrow> defaultVal)"

definition getQuantityValue :: "'q option \<Rightarrow> 'q \<Rightarrow> 'q" where
  "getQuantityValue ptr defaultVal = (case ptr of Some q \<Rightarrow> q | None \<Rightarrow> defaultVal)"

definition getDurationValue :: "duration option \<Rightarrow> duration \<Rightarrow> duration" where
  "getDurationValue ptr defaultVal = (case ptr of Some d \<Rightarrow> d | None \<Rightarrow> defaultVal)"

definition buildConfigFromPolicy :: "('q, 'sel) PVCPolicy \<Rightarrow> 'q GlobalConfig \<Rightarrow> 'q PVCConfig" where
  "buildConfigFromPolicy policy g =
     (let t = pol_Template policy in
      \<lparr>pc_Enabled = getBoolValue (pt_Enabled t) True,
       pc_Threshold = getThresholdValue (pt_Threshold t) (gc_Threshold g),
       pc_InodesThreshold = getThresholdValue (pt_InodesThreshold t) (gc_InodesThreshold g),
       pc_Increase = getStringValue (pt_Increase t) (gc_Increase g),
       pc_MaxSize = getQuantityValue (pt_MaxSize t) (gc_MaxSize g),
       pc_Cooldown = getDurationValue (pt_Cooldown t) (gc_Cooldown g),
       pc_MinScaleUp = getQuantityValue (pt_MinScaleUp t) (gc_MinScaleUp g),
       pc_LastExpansion = None\<rparr>)"

section \<open>Resolution\<close>

definition disabled_config :: "'q GlobalConfig \<Rightarrow> 'q PVCConfig" where
  "disabled_config g =
     \<lparr>pc_Enabled = False, pc_Threshold = gc_Threshold g, pc_InodesThreshold = gc_InodesThreshold g,
      pc_Increase = gc_Increase g, pc_MaxSize = gc_MaxSize g, pc_Cooldown = gc_Cooldown g,
      pc_MinScaleUp = gc_MinScaleUp g, pc_LastExpansion = None\<rparr>"

definition explicitly_disabled :: "'q pvc \<Rightarrow> bool" where
  "explicitly_disabled p \<longleftrightarrow>
     (case map_get (pvc_annotations p) AnnotationEnabled of
        None \<Rightarrow> False | Some enabled \<Rightarrow> ToLower enabled = ''false'')"

text \<open>The loop over the policies: an invalid selector ends it with an error.\<close>

fun first_match ::
  "('q, 'sel, 's) kube \<Rightarrow> (string \<rightharpoonup> string) \<Rightarrow> ('q, 'sel) PVCPolicy list \<Rightarrow>
   resolve_error + ('q, 'sel) PVCPolicy" where
  "first_match K labels [] = Inl ErrPVCNotManaged"
| "first_match K labels (policy # rest) =
     (case kube_selector K (pol_Selector policy) of
        Inl err \<Rightarrow> Inl (SelectorInvalid err)
      | Inr matches \<Rightarrow> if matches labels then Inr policy else first_match K labels rest)"

definition ResolvePVCConfig ::
  "'q quantity_ops \<Rightarrow> ('q, 'sel, 's) kube \<Rightarrow> 'q pvc \<Rightarrow> 'q GlobalConfig \<Rightarrow> 's \<Rightarrow>
   resolve_error + 'q PVCConfig" where
  "ResolvePVCConfig Q K p g s =
     (if explicitly_disabled p then Inr (disabled_config g)
      else case ParsePVCAnnotations Q (Some p) (Some g) of
        Inr config \<Rightarrow> Inr config
      | Inl _ \<Rightarrow>
          (case kube_list_policies K (pvc_namespace p) s of
             Inl err \<Rightarrow> Inl (ListFailed err)
           | Inr policies \<Rightarrow>
               try_in (first_match K (pvc_labels p) policies)
                 (\<lambda>policy. Inr (buildConfigFromPolicy policy g))))"

section \<open>Correctness\<close>

definition selector_rejects :: "('q, 'sel, 's) kube \<Rightarrow> (string \<rightharpoonup> string) \<Rightarrow> ('q, 'sel) PVCPolicy \<Rightarrow> bool" where
  "selector_rejects K labels policy \<longleftrightarrow>
     (\<exists>f. kube_selector K (pol_Selector policy) = Inr f \<and> \<not> f labels)"

definition selector_accepts :: "('q, 'sel, 's) kube \<Rightarrow> (string \<rightharpoonup> string) \<Rightarrow> ('q, 'sel) PVCPolicy \<Rightarrow> bool" where
  "selector_accepts K labels policy \<longleftrightarrow>
     (\<exists>f. kube_selector K (pol_Selector policy) = Inr f \<and> f labels)"

definition first_accepting ::
  "('q, 'sel, 's) kube \<Rightarrow> (string \<rightharpoonup> string) \<Rightarrow> ('q, 'sel) PVCPolicy list \<Rightarrow> ('q, 'sel) PVCPolicy \<Rightarrow> bool" where
  "first_accepting K labels ps pol \<longleftrightarrow>
    (\<exists>pre post. ps = pre @ pol # post \<and> list_all (selector_rejects K labels) pre \<and>
      selector_accepts K labels pol)"

lemma first_accepting_Nil: "\<not> first_accepting K labels [] pol"
  by (simp add: first_accepting_def)

lemma first_accepting_Cons:
  "first_accepting K labels (x # xs) pol \<longleftrightarrow>
    x = pol \<and> selector_accepts K labels x \<or>
    selector_rejects K labels x \<and> first_accepting K labels xs pol"
proof
  assume "first_accepting K labels (x # xs) pol"
  then obtain pre post where eq: "x # xs = pre @ pol # post"
    and "list_all (selector_rejects K labels) pre" "selector_accepts K labels pol"
    by (auto simp: first_accepting_def)
  then show "x = pol \<and> selector_accepts K labels x \<or>
      selector_rejects K labels x \<and> first_accepting K labels xs pol"
    by (cases pre) (auto simp: first_accepting_def)
next
  assume R: "x = pol \<and> selector_accepts K labels x \<or>
      selector_rejects K labels x \<and> first_accepting K labels xs pol"
  show "first_accepting K labels (x # xs) pol"
  proof (cases "x = pol \<and> selector_accepts K labels x")
    case True
    then have "x # xs = [] @ pol # xs" and "selector_accepts K labels pol" by auto
    then show ?thesis unfolding first_accepting_def by (metis list.pred_inject(1))
  next
    case False
    with R obtain pre post where "xs = pre @ pol # post" "selector_accepts K labels pol"
      and "list_all (selector_rejects K labels) (x # pre)"
      by (auto simp: first_accepting_def)
    then show ?thesis unfolding first_accepting_def by (metis append_Cons)
  qed
qed

lemma first_match_Inr: "first_match K labels ps = Inr pol \<longleftrightarrow> first_accepting K labels ps pol"
proof (induction ps)
  case Nil
  then show ?case by (simp add: first_accepting_Nil)
next
  case (Cons x xs)
  then show ?case
    by (auto simp: first_accepting_Cons selector_accepts_def selector_rejects_def split: sum.split)
qed

lemma resolve_disabled:
  "explicitly_disabled p \<Longrightarrow> ResolvePVCConfig Q K p g s = Inr (disabled_config g)"
  by (simp add: ResolvePVCConfig_def)

lemma true_not_disabled:
  "pvc_annotations p = Some m \<Longrightarrow> m AnnotationEnabled = Some e \<Longrightarrow> ToLower e = ''true'' \<Longrightarrow>
    \<not> explicitly_disabled p"
  by (simp add: explicitly_disabled_def)

lemma resolve_annotations:
  assumes "ParsePVCAnnotations Q (Some p) (Some g) = Inr c"
  shows "ResolvePVCConfig Q K p g s = Inr c"
proof -
  have "\<not> explicitly_disabled p"
    using assms true_not_disabled unfolding parse_annotations_Inr by blast
  with assms show ?thesis by (simp add: ResolvePVCConfig_def)
qed

text \<open>The three ways to be managed.\<close>

lemma resolve_Inr:
  "ResolvePVCConfig Q K p g s = Inr c \<longleftrightarrow>
    (explicitly_disabled p \<and> c = disabled_config g) \<or>
    ParsePVCAnnotations Q (Some p) (Some g) = Inr c \<or>
    (\<not> explicitly_disabled p \<and> (\<nexists>c'. ParsePVCAnnotations Q (Some p) (Some g) = Inr c') \<and>
      (\<exists>policies pol. kube_list_policies K (pvc_namespace p) s = Inr policies \<and>
        first_match K (pvc_labels p) policies = Inr pol \<and> c = buildConfigFromPolicy pol g))"
proof (cases "ParsePVCAnnotations Q (Some p) (Some g)")
  case (Inr c')
  then have "\<not> explicitly_disabled p"
    using true_not_disabled unfolding parse_annotations_Inr by blast
  with Inr show ?thesis by (auto simp: ResolvePVCConfig_def)
next
  case (Inl e)
  then show ?thesis
    by (auto simp: ResolvePVCConfig_def result_Inr split: sum.split)
qed

end
