(* ===== verification/Metrics.thy ===== *)
theory Metrics
  imports Float64
begin

text \<open>
  The Prometheus instruments of pkg/metrics/metrics.go. The client library is outside the
  repository, so an operation of the package is the list of the calls it makes on the
  instruments (\<open>WithLabelValues(...).Inc()\<close> and so on); what a scrape reads off a trace of such
  calls is \<open>counter_value\<close> and \<open>gauge_value\<close>, the documented meaning of the calls.
\<close>

datatype instrument =
    SuccessResizeTotal | FailedResizeTotal | LoopSecondsTotal | LimitReachedTotal
  | ThresholdReachedTotal | CooldownSkippedTotal | ResizeInProgressTotal
  | KubernetesClientFailTotal | KubernetesClientRequestsTotal
  | KubeletClientFailTotal | KubeletClientRequestsTotal | KubeletClientResponseTime
  | LastReconciliationTime | ReconciliationStatus | ManagedPVCsTotal
  | PVCUsagePercent | PVCCapacityBytes | PVCInodesUsagePercent | PVCInodesTotal

datatype instrument_kind = Counter | Gauge | Histogram

fun kind_of :: "instrument \<Rightarrow> instrument_kind" where
  "kind_of LastReconciliationTime = Gauge"
| "kind_of ReconciliationStatus = Gauge"
| "kind_of ManagedPVCsTotal = Gauge"
| "kind_of PVCUsagePercent = Gauge"
| "kind_of PVCCapacityBytes = Gauge"
| "kind_of PVCInodesUsagePercent = Gauge"
| "kind_of PVCInodesTotal = Gauge"
| "kind_of KubeletClientResponseTime = Histogram"
| "kind_of _ = Counter"

text \<open>The names of the labels, in the order the values are given in; none for a plain instrument.\<close>

definition claim_labels :: "string list" where "claim_labels = [''persistentvolumeclaim'', ''namespace'']"

fun label_names :: "instrument \<Rightarrow> string list" where
  "label_names SuccessResizeTotal = claim_labels"
| "label_names FailedResizeTotal = claim_labels @ [''reason'']"
| "label_names LimitReachedTotal = claim_labels"
| "label_names ThresholdReachedTotal = claim_labels"
| "label_names CooldownSkippedTotal = claim_labels"
| "label_names ResizeInProgressTotal = claim_labels"
| "label_names KubernetesClientFailTotal = [''operation'']"
| "label_names KubernetesClientRequestsTotal = [''operation'', ''status'']"
| "label_names KubeletClientRequestsTotal = [''status'']"
| "label_names ReconciliationStatus = [''status'']"
| "label_names PVCUsagePercent = claim_labels"
| "label_names PVCCapacityBytes = claim_labels"
| "label_names PVCInodesUsagePercent = claim_labels"
| "label_names PVCInodesTotal = claim_labels"
| "label_names _ = []"

text \<open>The name a series is exposed under: namespace, subsystem and name, joined by underscores.\<close>

fun series_name :: "instrument \<Rightarrow> string" where
  "series_name SuccessResizeTotal = ''pvcchonker_resizer_success_resize_total''"
| "series_name FailedResizeTotal = ''pvcchonker_resizer_failed_resize_total''"
| "series_name LoopSecondsTotal = ''pvcchonker_resizer_loop_seconds_total''"
| "series_name LimitReachedTotal = ''pvcchonker_resizer_limit_reached_total''"
| "series_name ThresholdReachedTotal = ''pvcchonker_resizer_threshold_reached_total''"
| "series_name CooldownSkippedTotal = ''pvcchonker_resizer_cooldown_skipped_total''"
| "series_name ResizeInProgressTotal = ''pvcchonker_resizer_resize_in_progress_total''"
| "series_name KubernetesClientFailTotal = ''pvcchonker_kubernetes_client_fail_total''"
| "series_name KubernetesClientRequestsTotal = ''pvcchonker_kubernetes_client_requests_total''"
| "series_name KubeletClientFailTotal = ''pvcchonker_kubelet_client_fail_total''"
| "series_name KubeletClientRequestsTotal = ''pvcchonker_kubelet_client_requests_total''"
| "series_name KubeletClientResponseTime = ''pvcchonker_kubelet_client_response_time_seconds''"
| "series_name LastReconciliationTime = ''pvcchonker_last_reconciliation_timestamp_seconds''"
| "series_name ReconciliationStatus = ''pvcchonker_reconciliation_status''"
| "series_name ManagedPVCsTotal = ''pvcchonker_managed_pvcs_total''"
| "series_name PVCUsagePercent = ''pvcchonker_pvc_usage_percent''"
| "series_name PVCCapacityBytes = ''pvcchonker_pvc_capacity_bytes''"
| "series_name PVCInodesUsagePercent = ''pvcchonker_pvc_inodes_usage_percent''"
| "series_name PVCInodesTotal = ''pvcchonker_pvc_inodes_total''"

text \<open>What \<open>init\<close> registers.\<close>

definition registered :: "instrument list" where
  "registered = [SuccessResizeTotal, FailedResizeTotal, LoopSecondsTotal, LimitReachedTotal,
     ThresholdReachedTotal, CooldownSkippedTotal, ResizeInProgressTotal, KubernetesClientFailTotal,
     KubernetesClientRequestsTotal, KubeletClientFailTotal, KubeletClientRequestsTotal,
     KubeletClientResponseTime, LastReconciliationTime, ReconciliationStatus, ManagedPVCsTotal,
     PVCUsagePercent, PVCCapacityBytes, PVCInodesUsagePercent, PVCInodesTotal]"

datatype metric_op =
    Inc instrument "string list"
  | Add instrument "string list" float64
  | SetGauge instrument "string list" float64
  | DeleteLabelValues instrument "string list"

type_synonym metric_trace = "metric_op list"

section \<open>The recording functions\<close>

definition RecordSuccessfulResize :: "string \<Rightarrow> string \<Rightarrow> metric_trace" where
  "RecordSuccessfulResize pvcName namespace = [Inc SuccessResizeTotal [pvcName, namespace]]"

definition RecordFailedResize :: "string \<Rightarrow> string \<Rightarrow> string \<Rightarrow> metric_trace" where
  "RecordFailedResize pvcName namespace reason = [Inc FailedResizeTotal [pvcName, namespace, reason]]"

definition RecordThresholdReached :: "string \<Rightarrow> string \<Rightarrow> metric_trace" where
  "RecordThresholdReached pvcName namespace = [Inc ThresholdReachedTotal [pvcName, namespace]]"

definition RecordLimitReached :: "string \<Rightarrow> string \<Rightarrow> metric_trace" where
  "RecordLimitReached pvcName namespace = [Inc LimitReachedTotal [pvcName, namespace]]"

definition RecordCooldownSkipped :: "string \<Rightarrow> string \<Rightarrow> metric_trace" where
  "RecordCooldownSkipped pvcName namespace = [Inc CooldownSkippedTotal [pvcName, namespace]]"

definition RecordResizeInProgress :: "string \<Rightarrow> string \<Rightarrow> metric_trace" where
  "RecordResizeInProgress pvcName namespace = [Inc ResizeInProgressTotal [pvcName, namespace]]"

definition RecordKubernetesClientRequest :: "string \<Rightarrow> string \<Rightarrow> metric_trace" where
  "RecordKubernetesClientRequest operation status =
     Inc KubernetesClientRequestsTotal [operation, status] #
     (if status = ''failed'' then [Inc KubernetesClientFailTotal [operation]] else [])"

definition RecordKubeletClientRequest :: "string \<Rightarrow> metric_trace" where
  "RecordKubeletClientRequest status =
     Inc KubeletClientRequestsTotal [status] #
     (if status = ''failed'' then [Inc KubeletClientFailTotal []] else [])"

definition RecordLoopDuration :: "float64 \<Rightarrow> metric_trace" where
  "RecordLoopDuration seconds = [Add LoopSecondsTotal [] seconds]"

definition UpdatePVCMetrics :: "string \<Rightarrow> string \<Rightarrow> float64 \<Rightarrow> int \<Rightarrow> metric_trace" where
  "UpdatePVCMetrics pvcName namespace usagePercent capacityBytes =
     [SetGauge PVCUsagePercent [pvcName, namespace] usagePercent,
      SetGauge PVCCapacityBytes [pvcName, namespace] (f_of_int capacityBytes)]"

definition UpdatePVCInodesMetrics :: "string \<Rightarrow> string \<Rightarrow> float64 \<Rightarrow> int \<Rightarrow> metric_trace" where
  "UpdatePVCInodesMetrics pvcName namespace inodesUsagePercent inodesTotal =
     (if 0 < inodesTotal then
        [SetGauge PVCInodesUsagePercent [pvcName, namespace] inodesUsagePercent,
         SetGauge PVCInodesTotal [pvcName, namespace] (f_of_int inodesTotal)]
      else
        [DeleteLabelValues PVCInodesUsagePercent [pvcName, namespace],
         DeleteLabelValues PVCInodesTotal [pvcName, namespace]])"

lemmas record_defs =
  RecordSuccessfulResize_def RecordFailedResize_def RecordThresholdReached_def
  RecordLimitReached_def RecordCooldownSkipped_def RecordResizeInProgress_def
  RecordKubernetesClientRequest_def RecordKubeletClientRequest_def RecordLoopDuration_def
  UpdatePVCMetrics_def UpdatePVCInodesMetrics_def

section \<open>Calls that the client library accepts\<close>

text \<open>
  \<open>WithLabelValues\<close> panics on the wrong number of values, \<open>Add\<close> of a counter on a negative
  number, and each method belongs to one kind of instrument.
\<close>

fun op_ok :: "metric_op \<Rightarrow> bool" where
  "op_ok (Inc i ls) = (kind_of i = Counter \<and> length ls = length (label_names i))"
| "op_ok (Add i ls x) = (kind_of i = Counter \<and> length ls = length (label_names i) \<and> \<not> f_less x (FFin 0))"
| "op_ok (SetGauge i ls x) = (kind_of i = Gauge \<and> length ls = length (label_names i))"
| "op_ok (DeleteLabelValues i ls) = (length ls = length (label_names i))"

lemma record_ok [simp]:
  "list_all op_ok (RecordSuccessfulResize n ns)" "list_all op_ok (RecordFailedResize n ns r)"
  "list_all op_ok (RecordThresholdReached n ns)" "list_all op_ok (RecordLimitReached n ns)"
  "list_all op_ok (RecordCooldownSkipped n ns)" "list_all op_ok (RecordResizeInProgress n ns)"
  "list_all op_ok (RecordKubernetesClientRequest op s)" "list_all op_ok (RecordKubeletClientRequest s)"
  "list_all op_ok (UpdatePVCMetrics n ns u c)" "list_all op_ok (UpdatePVCInodesMetrics n ns v t)"
  "list_all op_ok (RecordLoopDuration x) \<longleftrightarrow> \<not> f_less x (FFin 0)"
  by (simp_all add: record_defs claim_labels_def)

lemma registered_all: "i \<in> set registered"
  by (cases i) (simp_all add: registered_def)

lemma registered_distinct: "distinct (map series_name registered)"
  by (simp add: registered_def)

section \<open>What a trace means\<close>

fun counter_value :: "instrument \<Rightarrow> string list \<Rightarrow> metric_trace \<Rightarrow> nat" where
  "counter_value i ls [] = 0"
| "counter_value i ls (Inc j ks # tr) = (if i = j \<and> ls = ks then 1 else 0) + counter_value i ls tr"
| "counter_value i ls (_ # tr) = counter_value i ls tr"

text \<open>The last call on a gauge's label set decides whether it is exposed, and its value.\<close>

fun gauge_from :: "float64 option \<Rightarrow> instrument \<Rightarrow> string list \<Rightarrow> metric_trace \<Rightarrow> float64 option" where
  "gauge_from v i ls [] = v"
| "gauge_from v i ls (SetGauge j ks x # tr) =
     gauge_from (if i = j \<and> ls = ks then Some x else v) i ls tr"
| "gauge_from v i ls (DeleteLabelValues j ks # tr) =
     gauge_from (if i = j \<and> ls = ks then None else v) i ls tr"
| "gauge_from v i ls (_ # tr) = gauge_from v i ls tr"

definition gauge_value :: "instrument \<Rightarrow> string list \<Rightarrow> metric_trace \<Rightarrow> float64 option" where
  "gauge_value = gauge_from None"

lemma counter_value_append [simp]:
  "counter_value i ls (a @ b) = counter_value i ls a + counter_value i ls b"
  by (induction i ls a rule: counter_value.induct) auto

lemma gauge_from_append: "gauge_from v i ls (a @ b) = gauge_from (gauge_from v i ls a) i ls b"
  by (induction v i ls a rule: gauge_from.induct) auto

text \<open>Every failed request is counted twice: in its status series and in the failure counter.\<close>

lemma client_fail_counter:
  "counter_value KubernetesClientFailTotal [op]
     (concat (map (\<lambda>(o', st). RecordKubernetesClientRequest o' st) calls)) =
   counter_value KubernetesClientRequestsTotal [op, ''failed'']
     (concat (map (\<lambda>(o', st). RecordKubernetesClientRequest o' st) calls))"
  by (induction calls) (auto simp: RecordKubernetesClientRequest_def)

end
