(* ===== verification/Kubelet.thy ===== *)
theory Kubelet
  imports KubeTypes Metrics
begin

text \<open>
  pkg/kubelet: the usage of every volume, scraped from the kubelets of all nodes into a cache
  keyed by namespace/name. Fetching and parsing the Prometheus text is library code, so a
  scrape of a node is a parameter: the metric families it holds, or an error.
\<close>

section \<open>The cache\<close>

record VolumeMetrics =
  vm_CapacityBytes :: int
  vm_AvailableBytes :: int
  vm_UsedBytes :: int
  vm_UsagePercent :: float64
  vm_InodesTotal :: int
  vm_InodesUsed :: int
  vm_InodesFree :: int
  vm_InodesUsagePercent :: float64

definition zero_metrics :: VolumeMetrics where
  "zero_metrics = \<lparr>vm_CapacityBytes = 0, vm_AvailableBytes = 0, vm_UsedBytes = 0,
     vm_UsagePercent = FFin 0, vm_InodesTotal = 0, vm_InodesUsed = 0, vm_InodesFree = 0,
     vm_InodesUsagePercent = FFin 0\<rparr>"

type_synonym MetricsCache = "string \<rightharpoonup> VolumeMetrics"

definition NewMetricsCache :: MetricsCache where "NewMetricsCache = Map.empty"

definition keyFromNamespacedName :: "namespaced_name \<Rightarrow> string" where
  "keyFromNamespacedName nn = nn_namespace nn @ ''/'' @ nn_name nn"

definition mc_Get :: "MetricsCache \<Rightarrow> namespaced_name \<Rightarrow> VolumeMetrics option" where
  "mc_Get cache nn = cache (keyFromNamespacedName nn)"

text \<open>The entry a setter changes, allocated when the key is new.\<close>

definition entry_of :: "MetricsCache \<Rightarrow> string \<Rightarrow> VolumeMetrics" where
  "entry_of cache key = (case cache key of None \<Rightarrow> zero_metrics | Some vm \<Rightarrow> vm)"

definition setCapacity :: "namespaced_name \<Rightarrow> int \<Rightarrow> MetricsCache \<Rightarrow> MetricsCache" where
  "setCapacity nn value cache = (let key = keyFromNamespacedName nn in
     cache(key \<mapsto> (entry_of cache key)\<lparr>vm_CapacityBytes := value\<rparr>))"

definition setAvailable :: "namespaced_name \<Rightarrow> int \<Rightarrow> MetricsCache \<Rightarrow> MetricsCache" where
  "setAvailable nn value cache = (let key = keyFromNamespacedName nn in
     cache(key \<mapsto> (entry_of cache key)\<lparr>vm_AvailableBytes := value\<rparr>))"

definition setInodesTotal :: "namespaced_name \<Rightarrow> int \<Rightarrow> MetricsCache \<Rightarrow> MetricsCache" where
  "setInodesTotal nn value cache = (let key = keyFromNamespacedName nn in
     cache(key \<mapsto> (entry_of cache key)\<lparr>vm_InodesTotal := value\<rparr>))"

definition setInodesUsed :: "namespaced_name \<Rightarrow> int \<Rightarrow> MetricsCache \<Rightarrow> MetricsCache" where
  "setInodesUsed nn value cache = (let key = keyFromNamespacedName nn in
     cache(key \<mapsto> (entry_of cache key)\<lparr>vm_InodesUsed := value\<rparr>))"

definition usage_of :: "VolumeMetrics \<Rightarrow> VolumeMetrics" where
  "usage_of vm =
     (let vm = (if 0 < vm_CapacityBytes vm then
            let used = wrap64 (vm_CapacityBytes vm - vm_AvailableBytes vm) in
            vm\<lparr>vm_UsedBytes := used,
               vm_UsagePercent :=
                 f_mul (f_div (f_of_int used) (f_of_int (vm_CapacityBytes vm))) (FFin 100)\<rparr>
          else vm)
      in if 0 < vm_InodesTotal vm then
           vm\<lparr>vm_InodesFree := wrap64 (vm_InodesTotal vm - vm_InodesUsed vm),
              vm_InodesUsagePercent :=
                f_mul (f_div (f_of_int (vm_InodesUsed vm)) (f_of_int (vm_InodesTotal vm))) (FFin 100)\<rparr>
         else vm)"

definition calculateUsagePercentages :: "MetricsCache \<Rightarrow> MetricsCache" where
  "calculateUsagePercentages cache = (\<lambda>key. map_option usage_of (cache key))"

section \<open>Reading a scrape\<close>

record dto_metric =
  dm_labels :: "(string \<times> string) list"
  dm_gauge :: "float64 option"

type_synonym metric_families = "string \<rightharpoonup> dto_metric list"

fun scan_labels :: "namespaced_name \<Rightarrow> (string \<times> string) list \<Rightarrow> namespaced_name" where
  "scan_labels nn [] = nn"
| "scan_labels nn ((n, v) # ls) =
     scan_labels (if n = ''namespace'' then nn\<lparr>nn_namespace := v\<rparr>
                  else if n = ''persistentvolumeclaim'' then nn\<lparr>nn_name := v\<rparr> else nn) ls"

text \<open>\<open>GetGauge().GetValue()\<close> of an absent gauge is 0.\<close>

definition parseMetric :: "(float64 \<Rightarrow> int) \<Rightarrow> dto_metric \<Rightarrow> namespaced_name \<times> int" where
  "parseMetric oob m =
     (scan_labels \<lparr>nn_namespace = '''', nn_name = ''''\<rparr> (dm_labels m),
      f_to_int64 oob (case dm_gauge m of None \<Rightarrow> FFin 0 | Some v \<Rightarrow> v))"

text \<open>
  The four families in the order of the source. A write is a setter with its arguments, so that
  the writes of concurrent scrapes can be interleaved.
\<close>

datatype field = Capacity | Available | InodesTotal | InodesUsed

type_synonym cache_write = "field \<times> namespaced_name \<times> int"

definition family_of :: "field \<Rightarrow> string" where
  "family_of f = (case f of
       Capacity \<Rightarrow> ''kubelet_volume_stats_capacity_bytes''
     | Available \<Rightarrow> ''kubelet_volume_stats_available_bytes''
     | InodesTotal \<Rightarrow> ''kubelet_volume_stats_inodes''
     | InodesUsed \<Rightarrow> ''kubelet_volume_stats_inodes_used'')"

fun apply_write :: "cache_write \<Rightarrow> MetricsCache \<Rightarrow> MetricsCache" where
  "apply_write (Capacity, nn, v) cache = setCapacity nn v cache"
| "apply_write (Available, nn, v) cache = setAvailable nn v cache"
| "apply_write (InodesTotal, nn, v) cache = setInodesTotal nn v cache"
| "apply_write (InodesUsed, nn, v) cache = setInodesUsed nn v cache"

definition family_writes :: "(float64 \<Rightarrow> int) \<Rightarrow> metric_families \<Rightarrow> field \<Rightarrow> cache_write list" where
  "family_writes oob fams f =
     (case fams (family_of f) of
        None \<Rightarrow> []
      | Some ms \<Rightarrow> [(f, nn, v). (nn, v) \<leftarrow> map (parseMetric oob) ms,
                     nn_name nn \<noteq> '''' \<and> nn_namespace nn \<noteq> ''''])"

definition node_writes :: "(float64 \<Rightarrow> int) \<Rightarrow> metric_families \<Rightarrow> cache_write list" where
  "node_writes oob fams =
     concat (map (family_writes oob fams) [Capacity, Available, InodesTotal, InodesUsed])"

text \<open>The errors as the source wraps them; the name of the node is added by \<open>NodeFailed\<close>.\<close>

datatype get_error =
    CreateRequestFailed string
  | FetchFailed string
  | UnexpectedStatus int
  | ReadBodyFailed string
  | ProxyFailed string

datatype scrape_error = GetMetricsFailed get_error | ParseMetricsFailed string

datatype fetch_error = ListNodesFailed api_error | NoNodes | NodeFailed string scrape_error

section \<open>Fetching all nodes\<close>

text \<open>
  One goroutine per node; each setter is atomic (it holds the cache's lock), so the cache ends
  up as the writes of all nodes applied in some interleaving. An error of any node is the
  result of \<open>errgroup.Wait\<close>.
\<close>

fun interleavings :: "'a list list \<Rightarrow> 'a list set" where
  "interleavings [] = {[]}"
| "interleavings (xs # xss) = (\<Union>ys \<in> interleavings xss. shuffles xs ys)"

definition node_ok :: "(string \<Rightarrow> scrape_error + metric_families) \<Rightarrow> string \<Rightarrow> metric_families" where
  "node_ok scrape n = (case scrape n of Inl _ \<Rightarrow> Map.empty | Inr fams \<Rightarrow> fams)"

inductive fetchAllNodeMetrics ::
  "(float64 \<Rightarrow> int) \<Rightarrow> (string \<Rightarrow> scrape_error + metric_families) \<Rightarrow> (api_error + string list) \<Rightarrow>
   MetricsCache \<Rightarrow> fetch_error + MetricsCache \<Rightarrow> bool" for oob scrape where
  list_failed: "fetchAllNodeMetrics oob scrape (Inl e) c (Inl (ListNodesFailed e))"
| no_nodes: "fetchAllNodeMetrics oob scrape (Inr []) c (Inl NoNodes)"
| node_failed: "n \<in> set nodes \<Longrightarrow> scrape n = Inl e \<Longrightarrow>
    fetchAllNodeMetrics oob scrape (Inr nodes) c (Inl (NodeFailed n e))"
| fetched: "nodes \<noteq> [] \<Longrightarrow> \<forall>n \<in> set nodes. \<exists>fams. scrape n = Inr fams \<Longrightarrow>
    ws \<in> interleavings (map (\<lambda>n. node_writes oob (node_ok scrape n)) nodes) \<Longrightarrow>
    fetchAllNodeMetrics oob scrape (Inr nodes) c (Inr (fold apply_write ws c))"

text \<open>The schedule in which the goroutines run one after the other, as a function.\<close>

fun fetch_nodes_in_order ::
  "(float64 \<Rightarrow> int) \<Rightarrow> (string \<Rightarrow> scrape_error + metric_families) \<Rightarrow> string list \<Rightarrow>
   MetricsCache \<Rightarrow> fetch_error + MetricsCache" where
  "fetch_nodes_in_order oob scrape [] c = Inr c"
| "fetch_nodes_in_order oob scrape (n # ns) c =
     (case scrape n of
        Inl e \<Rightarrow> Inl (NodeFailed n e)
      | Inr fams \<Rightarrow> fetch_nodes_in_order oob scrape ns (fold apply_write (node_writes oob fams) c))"

definition GetAllVolumeMetrics ::
  "(float64 \<Rightarrow> int) \<Rightarrow> (string \<Rightarrow> scrape_error + metric_families) \<Rightarrow> (api_error + string list) \<Rightarrow>
   fetch_error + MetricsCache \<Rightarrow> bool" where
  "GetAllVolumeMetrics oob scrape nodes r \<longleftrightarrow>
     (\<exists>r'. fetchAllNodeMetrics oob scrape nodes NewMetricsCache r' \<and>
       r = (case r' of Inl e \<Rightarrow> Inl e | Inr c \<Rightarrow> Inr (calculateUsagePercentages c)))"

end
