(* ===== verification/StorageCache.thy ===== *)
theory StorageCache
  imports Prelude
begin

text \<open>
  pkg/cache/storage.go: what the controller knows of the storage classes within one cycle. Every
  operation holds the cache's lock for its whole body, so it is one atomic step here.
\<close>

record storage_class_cache =
  sc_cache :: "string \<rightharpoonup> bool"
  sc_fs_types :: "string \<rightharpoonup> string"

definition NewStorageClassCache :: storage_class_cache where
  "NewStorageClassCache = \<lparr>sc_cache = Map.empty, sc_fs_types = Map.empty\<rparr>"

text \<open>The pair of a value and \<open>exists\<close> is an option.\<close>

definition cache_Get :: "storage_class_cache \<Rightarrow> string \<Rightarrow> bool option" where
  "cache_Get c name = sc_cache c name"

definition cache_Set :: "storage_class_cache \<Rightarrow> string \<Rightarrow> bool \<Rightarrow> storage_class_cache" where
  "cache_Set c name expandable = c\<lparr>sc_cache := (sc_cache c)(name \<mapsto> expandable)\<rparr>"

definition cache_GetFsType :: "storage_class_cache \<Rightarrow> string \<Rightarrow> string option" where
  "cache_GetFsType c name = sc_fs_types c name"

definition cache_SetFsType :: "storage_class_cache \<Rightarrow> string \<Rightarrow> string \<Rightarrow> storage_class_cache" where
  "cache_SetFsType c name fsType = c\<lparr>sc_fs_types := (sc_fs_types c)(name \<mapsto> fsType)\<rparr>"

definition cache_Clear :: "storage_class_cache \<Rightarrow> storage_class_cache" where
  "cache_Clear c = c\<lparr>sc_cache := Map.empty, sc_fs_types := Map.empty\<rparr>"

text \<open>The interface the controller sees: two independent keyed tables, emptied together.\<close>

locale class_cache =
  fixes get :: "'c \<Rightarrow> string \<Rightarrow> bool option"
    and put :: "'c \<Rightarrow> string \<Rightarrow> bool \<Rightarrow> 'c"
    and get_fs :: "'c \<Rightarrow> string \<Rightarrow> string option"
    and put_fs :: "'c \<Rightarrow> string \<Rightarrow> string \<Rightarrow> 'c"
    and clear :: "'c \<Rightarrow> 'c"
  assumes get_put: "get (put c n e) m = (if m = n then Some e else get c m)"
    and get_put_fs: "get (put_fs c n f) m = get c m"
    and get_fs_put: "get_fs (put c n e) m = get_fs c m"
    and get_fs_put_fs: "get_fs (put_fs c n f) m = (if m = n then Some f else get_fs c m)"
    and get_clear: "get (clear c) m = None"
    and get_fs_clear: "get_fs (clear c) m = None"
begin

text \<open>
  An entry is coherent when it is what the API said: \<open>ans n\<close> is the pair computed from the
  class \<open>n\<close>. Recording an answer keeps coherence and settles the name.
\<close>

definition coherent :: "(string \<Rightarrow> (bool \<times> string) option) \<Rightarrow> 'c \<Rightarrow> bool" where
  "coherent ans c \<longleftrightarrow> (\<forall>n e. get c n = Some e \<longrightarrow>
     (\<exists>f. ans n = Some (e, f) \<and> get_fs c n = Some f))"

lemma coherent_clear: "coherent ans (clear c)"
  by (simp add: coherent_def get_clear)

lemma coherent_record:
  "coherent ans c \<Longrightarrow> ans n = Some (e, f) \<Longrightarrow> coherent ans (put_fs (put c n e) n f)"
  by (auto simp: coherent_def get_put get_put_fs get_fs_put get_fs_put_fs)

lemma coherent_hit: "coherent ans c \<Longrightarrow> get c n = Some e \<Longrightarrow> \<exists>f. ans n = Some (e, f) \<and> get_fs c n = Some f"
  by (auto simp: coherent_def)

end

interpretation scc: class_cache cache_Get cache_Set cache_GetFsType cache_SetFsType cache_Clear
  by unfold_locales
    (auto simp: cache_Get_def cache_Set_def cache_GetFsType_def cache_SetFsType_def cache_Clear_def)

lemmas cache_laws [simp] =
  scc.get_put scc.get_put_fs scc.get_fs_put scc.get_fs_put_fs scc.get_clear scc.get_fs_clear

end
