(* ===== verification/PVCController.thy ===== *)
theory PVCController
  imports Policy Kubelet StorageCache
begin

text \<open>
  internal/controller/persistentvolumeclaim_controller.go: the periodic loop that expands claims.
  The reconciler's fields that never change during a cycle are \<open>Reconciler\<close>; what a cycle
  changes (the API server, the storage class cache, the metrics, the events) is \<open>rstate\<close>.
  Log output is left out. A time the source reads off the clock is an argument.
\<close>

section \<open>State\<close>

record ('q, 'sel, 's) Reconciler =
  r_Client :: "('q, 'sel, 's) kube"
  r_Q :: "'q quantity_ops"
  r_oob :: "float64 \<Rightarrow> int"
  r_zone :: int
  r_GlobalConfig :: "'q GlobalConfig"
  r_WatchInterval :: duration
  r_DryRun :: bool
  r_MaxParallel :: int

record ('q, 's) rstate =
  st_server :: 's
  st_cache :: storage_class_cache
  st_metrics :: metric_trace
  st_events :: "'q event list"

definition record_metrics :: "metric_trace \<Rightarrow> ('q, 's) rstate \<Rightarrow> ('q, 's) rstate" where
  "record_metrics ops st = st\<lparr>st_metrics := st_metrics st @ ops\<rparr>"

definition emit_event :: "'q event \<Rightarrow> ('q, 's) rstate \<Rightarrow> ('q, 's) rstate" where
  "emit_event e st = st\<lparr>st_events := st_events st @ [e]\<rparr>"

lemma record_metrics_simps [simp]:
  "st_server (record_metrics ops st) = st_server st"
  "st_cache (record_metrics ops st) = st_cache st"
  "st_metrics (record_metrics ops st) = st_metrics st @ ops"
  "st_events (record_metrics ops st) = st_events st"
  by (simp_all add: record_metrics_def)

lemma emit_event_simps [simp]:
  "st_server (emit_event e st) = st_server st"
  "st_cache (emit_event e st) = st_cache st"
  "st_metrics (emit_event e st) = st_metrics st"
  "st_events (emit_event e st) = st_events st @ [e]"
  by (simp_all add: emit_event_def)

section \<open>Eligibility\<close>

definition IsPVCEligible :: "'q pvc \<Rightarrow> bool" where
  "IsPVCEligible p =
     (if pvc_volume_mode p \<noteq> None \<and> pvc_volume_mode p \<noteq> Some ''Filesystem'' then False
      else if pvc_phase p \<noteq> ''Bound'' then False
      else True)"

text \<open>What the controller computes from a storage class: expandable, and the file system type.\<close>

definition class_expandable :: "storage_class \<Rightarrow> bool" where
  "class_expandable sc = (sc_allow_expansion sc = Some True)"

definition class_fs_type :: "storage_class \<Rightarrow> string" where
  "class_fs_type sc =
     (case sc_parameters sc ''fsType'' of Some t \<Rightarrow> t
      | None \<Rightarrow> (case sc_parameters sc ''csi.storage.k8s.io/fstype'' of Some t \<Rightarrow> t | None \<Rightarrow> ''ext4''))"

definition IsStorageClassExpandable ::
  "('q, 'sel, 's) Reconciler \<Rightarrow> 'q pvc \<Rightarrow> ('q, 's) rstate \<Rightarrow> bool \<times> ('q, 's) rstate" where
  "IsStorageClassExpandable R p st =
     (case pvc_storage_class p of None \<Rightarrow> (False, st) | Some scName \<Rightarrow>
      case cache_Get (st_cache st) scName of Some expandable \<Rightarrow> (expandable, st) | None \<Rightarrow>
      case kube_get_storage_class (r_Client R) scName (st_server st) of
        Inl err \<Rightarrow> (False, record_metrics (RecordKubernetesClientRequest ''get_storageclass'' ''failed'') st)
      | Inr sc \<Rightarrow>
          (let st = record_metrics (RecordKubernetesClientRequest ''get_storageclass'' ''success'') st;
               expandable = class_expandable sc;
               st = st\<lparr>st_cache := cache_Set (st_cache st) scName expandable\<rparr>;
               st = st\<lparr>st_cache := cache_SetFsType (st_cache st) scName (class_fs_type sc)\<rparr>
           in (expandable, st)))"

definition getFilesystemType :: "'q pvc \<Rightarrow> ('q, 's) rstate \<Rightarrow> string" where
  "getFilesystemType p st =
     (case pvc_storage_class p of None \<Rightarrow> ''unknown'' | Some scName \<Rightarrow>
      (case cache_GetFsType (st_cache st) scName of Some t \<Rightarrow> t | None \<Rightarrow> ''ext4''))"

section \<open>Expansion\<close>

datatype expand_error = CalcFailed size_error | LimitReached string string | UpdateFailed api_error

definition size_error_message :: "size_error \<Rightarrow> string" where
  "size_error_message e = (case e of NilConfig \<Rightarrow> ''PVCConfig is nil''
     | InvalidPercentage s \<Rightarrow> ''invalid percentage: '' @ s
     | InvalidSize s \<Rightarrow> ''invalid size: '' @ s)"

definition api_error_message :: "api_error \<Rightarrow> string" where
  "api_error_message e = (case e of NotFound m \<Rightarrow> m | ApiError m \<Rightarrow> m)"

definition expand_error_message :: "expand_error \<Rightarrow> string" where
  "expand_error_message e = (case e of
       CalcFailed s \<Rightarrow> ''failed to calculate new size: '' @ size_error_message s
     | LimitReached n m \<Rightarrow> ''new size '' @ n @ '' exceeds max size '' @ m
     | UpdateFailed a \<Rightarrow> ''failed to update PVC spec: '' @ api_error_message a)"

text \<open>The claim that is sent to the server: a deep copy with the new request and timestamp.\<close>

definition expanded_pvc ::
  "('q, 'sel, 's) Reconciler \<Rightarrow> time \<Rightarrow> 'q pvc \<Rightarrow> 'q \<Rightarrow> 'q pvc go_run" where
  "expanded_pvc R now p newSize =
     (case map_set (pvc_requests p) ResourceStorage newSize of
        Inl panic \<Rightarrow> Inl panic
      | Inr reqs \<Rightarrow> Inr (UpdateLastExpansion (r_zone R) now (p\<lparr>pvc_requests := reqs\<rparr>)))"

definition ExpandPVC ::
  "('q, 'sel, 's) Reconciler \<Rightarrow> time \<Rightarrow> 'q pvc \<Rightarrow> 'q PVCConfig \<Rightarrow> ('q, 's) rstate \<Rightarrow>
   (expand_error option \<times> ('q, 's) rstate) go_run" where
  "ExpandPVC R now p config st =
     (let Q = r_Q R; currentSize = pvc_capacity_storage Q p in
      case CalculateNewSize (r_oob R) Q (Some config) currentSize of
        Inl e \<Rightarrow> Inr (Some (CalcFailed e), st)
      | Inr newSize \<Rightarrow>
          if ExceedsMaxSize Q (Some config) newSize then
            Inr (Some (LimitReached (qty_string Q newSize) (qty_string Q (pc_MaxSize config))),
                 record_metrics (RecordLimitReached (pvc_name p) (pvc_namespace p)) st)
          else if r_DryRun R then Inr (None, st)
          else case expanded_pvc R now p newSize of
            Inl panic \<Rightarrow> Inl panic
          | Inr pvcCopy \<Rightarrow>
              (case kube_update_pvc (r_Client R) pvcCopy (st_server st) of
                 (Some e, s') \<Rightarrow> Inr (Some (UpdateFailed e),
                    record_metrics (RecordKubernetesClientRequest ''update_pvc'' ''failed'')
                      (st\<lparr>st_server := s'\<rparr>))
               | (None, s') \<Rightarrow> Inr (None,
                    record_metrics (RecordKubernetesClientRequest ''update_pvc'' ''success'')
                      (st\<lparr>st_server := s'\<rparr>))))"

section \<open>One claim\<close>

definition storage_reached :: "'q PVCConfig \<Rightarrow> VolumeMetrics \<Rightarrow> bool" where
  "storage_reached config vm \<longleftrightarrow> f_le (pc_Threshold config) (vm_UsagePercent vm)"

definition inodes_reached :: "'q PVCConfig \<Rightarrow> VolumeMetrics \<Rightarrow> bool" where
  "inodes_reached config vm \<longleftrightarrow>
     0 < vm_InodesTotal vm \<and> f_le (pc_InodesThreshold config) (vm_InodesUsagePercent vm)"

text \<open>The event after an expansion; its second size is the request of the claim as it was read.\<close>

definition expansion_event ::
  "'q quantity_ops \<Rightarrow> 'q pvc \<Rightarrow> 'q PVCConfig \<Rightarrow> VolumeMetrics \<Rightarrow> string \<Rightarrow> 'q event" where
  "expansion_event Q p config vm fsType =
     (let sizes = [ArgQty (pvc_capacity_storage Q p), ArgQty (pvc_request_storage Q p)];
          usage = ArgPercent (vm_UsagePercent vm);
          inodes = ArgPercent (vm_InodesUsagePercent vm)
      in if 0 < vm_InodesTotal vm then
           if f_le (pc_InodesThreshold config) (vm_InodesUsagePercent vm) then
             \<lparr>ev_type = (if fsType = ''ext3'' \<or> fsType = ''ext4'' then EventWarning else EventNormal),
              ev_reason = ''ExpandedInodePressure'', ev_object = pvc_key p,
              ev_args = sizes @ [usage, inodes, ArgStr fsType]\<rparr>
           else
             \<lparr>ev_type = EventNormal, ev_reason = ''Expanded'', ev_object = pvc_key p,
              ev_args = sizes @ [usage, inodes]\<rparr>
         else
           \<lparr>ev_type = EventNormal, ev_reason = ''Expanded'', ev_object = pvc_key p,
            ev_args = sizes @ [usage]\<rparr>)"

definition failure_event :: "'q pvc \<Rightarrow> expand_error \<Rightarrow> 'q event" where
  "failure_event p e = \<lparr>ev_type = EventWarning, ev_reason = ''ExpansionFailed'',
     ev_object = pvc_key p, ev_args = [ArgStr (expand_error_message e)]\<rparr>"

definition reconcilePVC ::
  "('q, 'sel, 's) Reconciler \<Rightarrow> time \<Rightarrow> time \<Rightarrow> 'q pvc \<Rightarrow> MetricsCache \<Rightarrow> ('q, 's) rstate \<Rightarrow>
   ('q, 's) rstate go_run" where
  "reconcilePVC R now1 now2 p metricsCache st =
     (let Q = r_Q R; name = pvc_name p; ns = pvc_namespace p in
      case ResolvePVCConfig Q (r_Client R) p (r_GlobalConfig R) (st_server st) of
        Inl _ \<Rightarrow> Inr st
      | Inr config \<Rightarrow>
      if \<not> IsPVCEligible p then Inr st else
      case IsStorageClassExpandable R p st of (expandable, st) \<Rightarrow>
      if \<not> expandable then
        Inr (record_metrics (RecordFailedResize name ns ''storage_class_not_expandable'') st)
      else if IsPvcResizing (Some p) then Inr (record_metrics (RecordResizeInProgress name ns) st)
      else if IsInCooldown now1 (Some config) then
        Inr (record_metrics (RecordCooldownSkipped name ns) st)
      else case mc_Get metricsCache (pvc_key p) of
        None \<Rightarrow> Inr (record_metrics (RecordFailedResize name ns ''metrics_not_found'') st)
      | Some vm \<Rightarrow>
      let st = record_metrics
                 (UpdatePVCMetrics name ns (vm_UsagePercent vm) (qty_value Q (pvc_capacity_storage Q p))) st;
          st = record_metrics
                 (UpdatePVCInodesMetrics name ns (vm_InodesUsagePercent vm) (vm_InodesTotal vm)) st;
          fsType = (if inodes_reached config vm then getFilesystemType p st else '''')
      in
      if \<not> (storage_reached config vm \<or> inodes_reached config vm) then Inr st
      else
      let st = record_metrics (RecordThresholdReached name ns) st in
      case ExpandPVC R now2 p config st of
        Inl panic \<Rightarrow> Inl panic
      | Inr (Some e, st) \<Rightarrow>
          Inr (emit_event (failure_event p e)
                (record_metrics (RecordFailedResize name ns ''expansion_failed'') st))
      | Inr (None, st) \<Rightarrow>
          Inr (emit_event (expansion_event Q p config vm fsType)
                (record_metrics (RecordSuccessfulResize name ns) st)))"

section \<open>One cycle\<close>

text \<open>The claims some configuration governs, in the order of the list.\<close>

definition managed_pvcs :: "('q, 'sel, 's) Reconciler \<Rightarrow> 's \<Rightarrow> 'q pvc list \<Rightarrow> 'q pvc list" where
  "managed_pvcs R s ps = filter
     (\<lambda>p. case ResolvePVCConfig (r_Q R) (r_Client R) p (r_GlobalConfig R) s of
        Inl _ \<Rightarrow> False | Inr _ \<Rightarrow> True) ps"

text \<open>
  The goroutines of a cycle, run one after the other in the order given; a panic in one of them
  ends the process. The two clock readings of each claim come with it.
\<close>

fun reconcile_each ::
  "('q, 'sel, 's) Reconciler \<Rightarrow> MetricsCache \<Rightarrow> ('q pvc \<times> time \<times> time) list \<Rightarrow> ('q, 's) rstate \<Rightarrow>
   ('q, 's) rstate go_run" where
  "reconcile_each R mc [] st = Inr st"
| "reconcile_each R mc ((p, now1, now2) # rest) st =
     try_in (reconcilePVC R now1 now2 p mc st) (reconcile_each R mc rest)"

definition status_gauges :: "bool \<Rightarrow> metric_trace" where
  "status_gauges ok =
     (if ok then [SetGauge ReconciliationStatus [''success''] (FFin 1),
                  SetGauge ReconciliationStatus [''failure''] (FFin 0)]
      else [SetGauge ReconciliationStatus [''failure''] (FFin 1),
            SetGauge ReconciliationStatus [''success''] (FFin 0)])"

text \<open>
  \<open>fetched\<close> is the result of the metrics collector, \<open>sched\<close> the order in which the goroutines
  run with the times they read (a permutation of the managed claims), \<open>duration\<close> and \<open>finished\<close>
  the floats the two clock metrics get.
\<close>

definition reconcileAll ::
  "('q, 'sel, 's) Reconciler \<Rightarrow> fetch_error + MetricsCache \<Rightarrow>
   ('q pvc list \<Rightarrow> ('q pvc \<times> time \<times> time) list) \<Rightarrow> float64 \<Rightarrow> float64 \<Rightarrow>
   ('q, 's) rstate \<Rightarrow> ('q, 's) rstate go_run" where
  "reconcileAll R fetched sched duration finished st =
     (let last = record_metrics [SetGauge LastReconciliationTime [] finished];
          st = st\<lparr>st_cache := cache_Clear (st_cache st)\<rparr> in
      case kube_list_pvcs (r_Client R) (st_server st) of
        Inl err \<Rightarrow> Inr (last (record_metrics
          (RecordKubernetesClientRequest ''list_pvcs'' ''failed'' @ status_gauges False) st))
      | Inr pvcs \<Rightarrow>
      let st = record_metrics (RecordKubernetesClientRequest ''list_pvcs'' ''success'') st;
          managed = managed_pvcs R (st_server st) pvcs
      in
      case fetched of
        Inl err \<Rightarrow> Inr (last (record_metrics
          (RecordKubeletClientRequest ''failed'' @ status_gauges False) st))
      | Inr metricsCache \<Rightarrow>
      let st = record_metrics (RecordKubeletClientRequest ''success'' @
                 [SetGauge ManagedPVCsTotal [] (f_of_int (int (length managed)))]) st
      in
      try_in (reconcile_each R metricsCache (sched managed) st) (\<lambda>st.
        Inr (last (record_metrics (RecordLoopDuration duration @ status_gauges True) st))))"

end
