(* ===== verification/Semaphores.thy ===== *)
theory Semaphores
  imports Prelude
begin

text \<open>
  The bounded parallelism of a cycle (\<open>reconcileAll\<close>: a buffered channel of \<open>MaxParallel\<close> slots
  and a wait group) as a step relation over the goroutines of one cycle. A send on a full
  channel blocks; the deferred receive runs before the deferred \<open>wg.Done\<close>. The semaphore of
  PVCPolicyReconciler is the same channel protocol with ten slots.
\<close>

section \<open>Configuration\<close>

text \<open>The default \<open>Start\<close> puts in place of a value that is not positive.\<close>

definition start_max_parallel :: "int \<Rightarrow> int" where
  "start_max_parallel n = (if n \<le> 0 then 4 else n)"

definition policy_slots :: nat where "policy_slots = 10"

section \<open>Steps\<close>

datatype worker_phase = Spawned | Working | Received | Finished

record sem_state =
  sem_chan :: nat \<comment> \<open>items buffered in the channel\<close>
  sem_wait :: nat \<comment> \<open>the counter of the wait group\<close>
  sem_workers :: "worker_phase list"

definition sem_initial :: "nat \<Rightarrow> sem_state" where
  "sem_initial n = \<lparr>sem_chan = 0, sem_wait = n, sem_workers = replicate n Spawned\<rparr>"

inductive sem_step :: "nat \<Rightarrow> sem_state \<Rightarrow> sem_state \<Rightarrow> bool" for cap where
  send: "i < length (sem_workers s) \<Longrightarrow> sem_workers s ! i = Spawned \<Longrightarrow> sem_chan s < cap \<Longrightarrow>
    sem_step cap s (s\<lparr>sem_chan := Suc (sem_chan s), sem_workers := (sem_workers s)[i := Working]\<rparr>)"
| receive: "i < length (sem_workers s) \<Longrightarrow> sem_workers s ! i = Working \<Longrightarrow> 0 < sem_chan s \<Longrightarrow>
    sem_step cap s (s\<lparr>sem_chan := sem_chan s - 1, sem_workers := (sem_workers s)[i := Received]\<rparr>)"
| finish: "i < length (sem_workers s) \<Longrightarrow> sem_workers s ! i = Received \<Longrightarrow>
    sem_step cap s (s\<lparr>sem_wait := sem_wait s - 1, sem_workers := (sem_workers s)[i := Finished]\<rparr>)"

inductive sem_reach :: "nat \<Rightarrow> nat \<Rightarrow> sem_state \<Rightarrow> bool" for cap n where
  initial: "sem_reach cap n (sem_initial n)"
| more: "sem_reach cap n s \<Longrightarrow> sem_step cap s s' \<Longrightarrow> sem_reach cap n s'"

inductive_cases sem_stepE: "sem_step cap s s'"

section \<open>Invariant, progress and termination\<close>

definition working :: "worker_phase list \<Rightarrow> nat" where "working ws = length (filter (\<lambda>w. w = Working) ws)"

definition unfinished :: "worker_phase list \<Rightarrow> nat" where
  "unfinished ws = length (filter (\<lambda>w. w \<noteq> Finished) ws)"

definition sem_inv :: "nat \<Rightarrow> sem_state \<Rightarrow> bool" where
  "sem_inv cap s \<longleftrightarrow> sem_chan s = working (sem_workers s) \<and> sem_chan s \<le> cap \<and>
     sem_wait s = unfinished (sem_workers s)"

lemma filter_update:
  "i < length ws \<Longrightarrow> length (filter P (ws[i := w])) + (if P (ws ! i) then 1 else 0) =
    length (filter P ws) + (if P w then 1 else 0)"
proof (induction ws arbitrary: i)
  case (Cons x ws)
  then show ?case by (cases i) auto
qed simp

lemma working_update: "i < length ws \<Longrightarrow> working (ws[i := w]) + (if ws ! i = Working then 1 else 0) =
    working ws + (if w = Working then 1 else 0)"
  unfolding working_def by (rule filter_update)

lemma unfinished_update: "i < length ws \<Longrightarrow> unfinished (ws[i := w]) + (if ws ! i \<noteq> Finished then 1 else 0) =
    unfinished ws + (if w \<noteq> Finished then 1 else 0)"
  unfolding unfinished_def by (rule filter_update)

lemma sem_inv_step: "sem_step cap s s' \<Longrightarrow> sem_inv cap s \<Longrightarrow> sem_inv cap s'"
proof (erule sem_stepE)
  fix i assume "i < length (sem_workers s)" "sem_workers s ! i = Spawned" "sem_chan s < cap"
    "s' = s\<lparr>sem_chan := Suc (sem_chan s), sem_workers := (sem_workers s)[i := Working]\<rparr>" "sem_inv cap s"
  then show "sem_inv cap s'"
    using working_update [of i "sem_workers s" Working] unfinished_update [of i "sem_workers s" Working]
    by (simp add: sem_inv_def)
next
  fix i assume "i < length (sem_workers s)" "sem_workers s ! i = Working" "0 < sem_chan s"
    "s' = s\<lparr>sem_chan := sem_chan s - Suc 0, sem_workers := (sem_workers s)[i := Received]\<rparr>" "sem_inv cap s"
  then show "sem_inv cap s'"
    using working_update [of i "sem_workers s" Received] unfinished_update [of i "sem_workers s" Received]
    by (auto simp: sem_inv_def)
next
  fix i assume "i < length (sem_workers s)" "sem_workers s ! i = Received"
    "s' = s\<lparr>sem_wait := sem_wait s - Suc 0, sem_workers := (sem_workers s)[i := Finished]\<rparr>" "sem_inv cap s"
  then show "sem_inv cap s'"
    using working_update [of i "sem_workers s" Finished] unfinished_update [of i "sem_workers s" Finished]
    by (simp add: sem_inv_def)
qed

lemma sem_inv_reach: "sem_reach cap n s \<Longrightarrow> sem_inv cap s \<and> length (sem_workers s) = n"
proof (induction rule: sem_reach.induct)
  case initial
  then show ?case by (simp add: sem_inv_def sem_initial_def working_def unfinished_def)
next
  case (more s s')
  then show ?case by (auto intro: sem_inv_step elim: sem_stepE)
qed

lemma unfinished_worker:
  assumes "unfinished ws \<noteq> 0"
  obtains i where "i < length ws" and "ws ! i \<noteq> Finished"
  using assms unfolding unfinished_def by (metis (mono_tags) filter_False in_set_conv_nth list.size(3))

lemma working_worker:
  assumes "working ws \<noteq> 0"
  obtains i where "i < length ws" and "ws ! i = Working"
  using assms unfolding working_def by (metis (mono_tags) filter_False in_set_conv_nth list.size(3))

text \<open>While some worker has not finished, some worker can move.\<close>

lemma sem_progress:
  assumes "sem_inv cap s" and "0 < cap" and "sem_wait s \<noteq> 0"
  shows "\<exists>s'. sem_step cap s s'"
proof -
  obtain i where i: "i < length (sem_workers s)" "sem_workers s ! i \<noteq> Finished"
    using assms(1,3) unfinished_worker by (metis sem_inv_def)
  show ?thesis
  proof (cases "sem_workers s ! i")
    case Spawned
    show ?thesis
    proof (cases "sem_chan s < cap")
      case True
      then show ?thesis using sem_step.send [OF i(1) Spawned] by blast
    next
      case False
      then have chan: "0 < sem_chan s" "working (sem_workers s) \<noteq> 0"
        using assms(1,2) by (auto simp: sem_inv_def)
      then obtain j where "j < length (sem_workers s)" "sem_workers s ! j = Working"
        using working_worker by blast
      then show ?thesis using sem_step.receive chan(1) by blast
    qed
  next
    case Working
    then have "working (sem_workers s) \<noteq> 0"
      unfolding working_def using i(1) by (metis (mono_tags) filter_empty_conv length_0_conv nth_mem)
    then have "0 < sem_chan s" using assms(1) by (simp add: sem_inv_def)
    then show ?thesis using sem_step.receive [OF i(1) Working] by blast
  next
    case Received
    then show ?thesis using sem_step.finish [OF i(1)] by blast
  next
    case Finished
    with i show ?thesis by simp
  qed
qed

text \<open>Every step brings a worker nearer to its end, so a cycle of \<open>n\<close> workers has \<open>3 * n\<close> steps.\<close>

fun phase_rest :: "worker_phase \<Rightarrow> nat" where
  "phase_rest Spawned = 3"
| "phase_rest Working = 2"
| "phase_rest Received = 1"
| "phase_rest Finished = 0"

definition sem_rest :: "sem_state \<Rightarrow> nat" where "sem_rest s = sum_list (map phase_rest (sem_workers s))"

lemma rest_update: "i < length ws \<Longrightarrow>
    sum_list (map phase_rest (ws[i := w])) + phase_rest (ws ! i) = sum_list (map phase_rest ws) + phase_rest w"
proof (induction ws arbitrary: i)
  case (Cons x ws)
  then show ?case by (cases i) auto
qed simp

lemma sem_rest_step: "sem_step cap s s' \<Longrightarrow> sem_rest s = Suc (sem_rest s')"
proof (erule sem_stepE)
  fix i assume "i < length (sem_workers s)" "sem_workers s ! i = Spawned"
    "s' = s\<lparr>sem_chan := Suc (sem_chan s), sem_workers := (sem_workers s)[i := Working]\<rparr>"
  then show ?thesis using rest_update [of i "sem_workers s" Working] by (simp add: sem_rest_def)
next
  fix i assume "i < length (sem_workers s)" "sem_workers s ! i = Working"
    "s' = s\<lparr>sem_chan := sem_chan s - Suc 0, sem_workers := (sem_workers s)[i := Received]\<rparr>"
  then show ?thesis using rest_update [of i "sem_workers s" Received] by (simp add: sem_rest_def)
next
  fix i assume "i < length (sem_workers s)" "sem_workers s ! i = Received"
    "s' = s\<lparr>sem_wait := sem_wait s - Suc 0, sem_workers := (sem_workers s)[i := Finished]\<rparr>"
  then show ?thesis using rest_update [of i "sem_workers s" Finished] by (simp add: sem_rest_def)
qed

text \<open>The phases in the order a worker goes through them: no worker ever goes back.\<close>

instantiation worker_phase :: linorder
begin

definition less_eq_worker_phase :: "worker_phase \<Rightarrow> worker_phase \<Rightarrow> bool" where
  "less_eq_worker_phase v w \<longleftrightarrow> phase_rest w \<le> phase_rest v"

definition less_worker_phase :: "worker_phase \<Rightarrow> worker_phase \<Rightarrow> bool" where
  "less_worker_phase v w \<longleftrightarrow> phase_rest w < phase_rest v"

instance
proof
  fix v w :: worker_phase
  show "v \<le> w \<Longrightarrow> w \<le> v \<Longrightarrow> v = w"
    by (cases v; cases w) (simp_all add: less_eq_worker_phase_def)
qed (auto simp: less_eq_worker_phase_def less_worker_phase_def)

end

lemma sem_step_advances:
  assumes "sem_step cap s s'"
  shows "list_all2 (\<le>) (sem_workers s) (sem_workers s')"
  using assms
  by cases (auto simp: list_all2_conv_all_nth nth_list_update less_eq_worker_phase_def)

lemma phase_rest_zero: "phase_rest w = 0 \<longleftrightarrow> w = Finished"
  by (cases w) simp_all

lemma sem_rest_zero: "sem_inv cap s \<Longrightarrow> sem_rest s = 0 \<Longrightarrow> sem_wait s = 0"
  by (auto simp: sem_inv_def sem_rest_def unfinished_def phase_rest_zero)

text \<open>A run of \<open>k\<close> steps, and the length of every run.\<close>

lemma sem_reach_rest: "sem_reach cap n s \<Longrightarrow> sem_rest s \<le> 3 * n"
  by (induction rule: sem_reach.induct) (auto simp: sem_rest_def sem_initial_def sum_list_replicate
      dest: sem_rest_step [unfolded sem_rest_def])

end
