(* ===== verification/StartLoop.thy ===== *)
theory StartLoop
  imports PVCController Semaphores
begin

text \<open>
  \<open>Start\<close> of internal/controller/persistentvolumeclaim_controller.go: the first cycle at once,
  then one cycle per tick until the context is done. What a cycle gets from outside (what other
  clients did to the server since the last one, the scrape, the schedule of the goroutines and
  the clock) is its \<open>cycle_input\<close>; a run until the context is done is the list of these.
\<close>

record ('q, 's) cycle_input =
  ci_others :: "'s \<Rightarrow> 's"
  ci_fetched :: "fetch_error + MetricsCache"
  ci_sched :: "'q pvc list \<Rightarrow> ('q pvc \<times> time \<times> time) list"
  ci_duration :: float64
  ci_finished :: float64

definition run_cycle ::
  "('q, 'sel, 's) Reconciler \<Rightarrow> ('q, 's) cycle_input \<Rightarrow> ('q, 's) rstate \<Rightarrow> ('q, 's) rstate go_run" where
  "run_cycle R i st =
     reconcileAll R (ci_fetched i) (ci_sched i) (ci_duration i) (ci_finished i)
       (st\<lparr>st_server := ci_others i (st_server st)\<rparr>)"

fun tick_loop ::
  "('q, 'sel, 's) Reconciler \<Rightarrow> ('q, 's) cycle_input list \<Rightarrow> ('q, 's) rstate \<Rightarrow> ('q, 's) rstate go_run" where
  "tick_loop R [] st = Inr st"
| "tick_loop R (i # ticks) st = try_in (run_cycle R i st) (tick_loop R ticks)"

text \<open>\<open>time.NewTicker\<close> panics unless its interval is positive.\<close>

definition NewTicker :: "duration \<Rightarrow> unit go_run" where
  "NewTicker d = (if d \<le> 0 then Inl NonPositiveInterval else Inr ())"

definition Start ::
  "('q, 'sel, 's) Reconciler \<Rightarrow> ('q, 's) cycle_input \<Rightarrow> ('q, 's) cycle_input list \<Rightarrow>
   ('q, 's) rstate \<Rightarrow> (('q, 'sel, 's) Reconciler \<times> ('q, 's) rstate) go_run" where
  "Start R first ticks st =
     (let st = st\<lparr>st_cache := NewStorageClassCache\<rparr>;
          R = R\<lparr>r_MaxParallel := start_max_parallel (r_MaxParallel R)\<rparr> in
      try_in (NewTicker (r_WatchInterval R)) (\<lambda>ticker.
      try_in (run_cycle R first st) (\<lambda>st.
      try_in (tick_loop R ticks st) (\<lambda>st. Inr (R, st)))))"

section \<open>Runs\<close>

lemma Start_Inr: "Start R first ticks st = Inr (R', st') \<longleftrightarrow>
    0 < r_WatchInterval R \<and> R' = R\<lparr>r_MaxParallel := start_max_parallel (r_MaxParallel R)\<rparr> \<and>
    tick_loop R' (first # ticks) (st\<lparr>st_cache := NewStorageClassCache\<rparr>) = Inr st'"
  by (auto simp: Start_def NewTicker_def Let_def try_in_Inr split: if_splits)

text \<open>What every cycle preserves, a run preserves.\<close>

lemma tick_loop_invariant:
  assumes "tick_loop R ticks st = Inr st'" and "I st"
    and "\<And>i st st'. i \<in> set ticks \<Longrightarrow> I st \<Longrightarrow> run_cycle R i st = Inr st' \<Longrightarrow> I st'"
  shows "I st'"
  using assms
proof (induction ticks arbitrary: st)
  case (Cons i ticks)
  then obtain st1 where "run_cycle R i st = Inr st1" "tick_loop R ticks st1 = Inr st'"
    by (auto simp: try_in_Inr)
  with Cons show ?case by (meson list.set_intros)
qed simp

end
