(* ===== verification/PVCControllerFacts.thy ===== *)
theory PVCControllerFacts
  imports PVCController
begin

text \<open>
  What the expansion controller guarantees. \<open>expansion_target\<close> is its contract for one claim: the
  object the server is sent, as a function of the claim, the configuration and the scraped
  usage, with no state, metrics or cache in it. The lemmas show that a reconciliation does
  exactly that to the server, that the storage class cache cannot be observed, and what the
  metrics of a reconciliation mean.
\<close>

section \<open>The storage class cache\<close>

text \<open>What the API answers for a class.\<close>

definition class_answer ::
  "('q, 'sel, 's) kube \<Rightarrow> 's \<Rightarrow> string \<Rightarrow> (bool \<times> string) option" where
  "class_answer K s n = (case kube_get_storage_class K n s of
     Inl _ \<Rightarrow> None | Inr sc \<Rightarrow> Some (class_expandable sc, class_fs_type sc))"

abbreviation cache_ok :: "('q, 'sel, 's) Reconciler \<Rightarrow> ('q, 's) rstate \<Rightarrow> bool" where
  "cache_ok R st \<equiv> scc.coherent (class_answer (r_Client R) (st_server st)) (st_cache st)"

text \<open>The decision without a cache.\<close>

definition expandable_now :: "('q, 'sel, 's) kube \<Rightarrow> 's \<Rightarrow> 'q pvc \<Rightarrow> bool" where
  "expandable_now K s p =
     (case pvc_storage_class p of None \<Rightarrow> False
      | Some n \<Rightarrow> (case class_answer K s n of None \<Rightarrow> False | Some (e, f) \<Rightarrow> e))"

definition fs_type_now :: "('q, 'sel, 's) kube \<Rightarrow> 's \<Rightarrow> 'q pvc \<Rightarrow> string" where
  "fs_type_now K s p =
     (case pvc_storage_class p of None \<Rightarrow> ''unknown''
      | Some n \<Rightarrow> (case class_answer K s n of None \<Rightarrow> ''ext4'' | Some (e, f) \<Rightarrow> f))"

lemma expandable_server:
  "IsStorageClassExpandable R p st = (e, st') \<Longrightarrow> st_server st' = st_server st \<and> st_events st' = st_events st"
  by (auto simp: IsStorageClassExpandable_def Let_def split: option.splits sum.splits)

lemma expandable_transparent:
  assumes "cache_ok R st" and "IsStorageClassExpandable R p st = (e, st')"
  shows "e = expandable_now (r_Client R) (st_server st) p" and "cache_ok R st'"
    and "e \<Longrightarrow> getFilesystemType p st' = fs_type_now (r_Client R) (st_server st) p"
proof -
  have hit: "\<forall>n v. cache_Get (st_cache st) n = Some v \<longrightarrow>
      (\<exists>sc. kube_get_storage_class (r_Client R) n (st_server st) = Inr sc \<and>
        v = class_expandable sc \<and> cache_GetFsType (st_cache st) n = Some (class_fs_type sc))"
    using scc.coherent_hit [OF assms(1)] by (fastforce simp: class_answer_def split: sum.splits)
  show "cache_ok R st'"
    using assms by (auto simp: IsStorageClassExpandable_def Let_def class_answer_def
        intro!: scc.coherent_record split: option.splits sum.splits)
  have "e = expandable_now (r_Client R) (st_server st) p \<and>
      (e \<longrightarrow> getFilesystemType p st' = fs_type_now (r_Client R) (st_server st) p)"
  proof (cases "pvc_storage_class p")
    case None
    with assms(2) show ?thesis by (auto simp: IsStorageClassExpandable_def expandable_now_def)
  next
    case (Some n)
    note now_defs = Let_def expandable_now_def fs_type_now_def getFilesystemType_def class_answer_def
    show ?thesis
    proof (cases "cache_Get (st_cache st) n")
      case None
      with Some assms(2) show ?thesis
        by (auto simp: IsStorageClassExpandable_def now_defs split: sum.splits)
    next
      case (Some v)
      with \<open>pvc_storage_class p = Some n\<close> hit assms(2) show ?thesis
        by (force simp: IsStorageClassExpandable_def now_defs)
    qed
  qed
  then show "e = expandable_now (r_Client R) (st_server st) p"
    and "e \<Longrightarrow> getFilesystemType p st' = fs_type_now (r_Client R) (st_server st) p"
    by simp_all
qed

text \<open>A claim whose class could not be read is retried: only answers are cached.\<close>

lemma expandable_error_not_cached:
  assumes "pvc_storage_class p = Some n" and "cache_Get (st_cache st) n = None"
    and "kube_get_storage_class (r_Client R) n (st_server st) = Inl err"
    and "IsStorageClassExpandable R p st = (e, st')"
  shows "\<not> e \<and> st_cache st' = st_cache st"
  using assms by (auto simp: IsStorageClassExpandable_def)

section \<open>One claim\<close>

text \<open>The guards of a reconciliation, in the order of the code.\<close>

definition may_expand ::
  "('q, 'sel, 's) Reconciler \<Rightarrow> time \<Rightarrow> 'q pvc \<Rightarrow> MetricsCache \<Rightarrow> bool \<Rightarrow> 'q PVCConfig \<Rightarrow> bool" where
  "may_expand R now p mc expandable config \<longleftrightarrow>
     IsPVCEligible p \<and> expandable \<and> \<not> IsPvcResizing (Some p) \<and> \<not> IsInCooldown now (Some config) \<and>
     (case mc_Get mc (pvc_key p) of None \<Rightarrow> False
      | Some vm \<Rightarrow> storage_reached config vm \<or> inodes_reached config vm)"

definition target_size :: "('q, 'sel, 's) Reconciler \<Rightarrow> 'q pvc \<Rightarrow> 'q PVCConfig \<Rightarrow> 'q option" where
  "target_size R p config =
     (case CalculateNewSize (r_oob R) (r_Q R) (Some config) (pvc_capacity_storage (r_Q R) p) of
        Inl _ \<Rightarrow> None
      | Inr n \<Rightarrow> if ExceedsMaxSize (r_Q R) (Some config) n then None else Some n)"

text \<open>The size a reconciliation asks for, None when it must leave the server alone.\<close>

definition expansion_target ::
  "('q, 'sel, 's) Reconciler \<Rightarrow> time \<Rightarrow> 'q pvc \<Rightarrow> MetricsCache \<Rightarrow> bool \<Rightarrow> 's \<Rightarrow> 'q option" where
  "expansion_target R now p mc expandable s =
     (case ResolvePVCConfig (r_Q R) (r_Client R) p (r_GlobalConfig R) s of
        Inl _ \<Rightarrow> None
      | Inr config \<Rightarrow>
          if may_expand R now p mc expandable config \<and> \<not> r_DryRun R then target_size R p config
          else None)"

definition expansion_object :: "('q, 'sel, 's) Reconciler \<Rightarrow> time \<Rightarrow> 'q pvc \<Rightarrow> 'q \<Rightarrow> 'q pvc" where
  "expansion_object R now p n =
     p\<lparr>pvc_requests := Some ((case pvc_requests p of None \<Rightarrow> Map.empty | Some m \<Rightarrow> m)(ResourceStorage \<mapsto> n)),
       pvc_annotations := Some ((case pvc_annotations p of None \<Rightarrow> Map.empty | Some m \<Rightarrow> m)
         (AnnotationLastExpansion \<mapsto> format_rfc3339 (r_zone R) now))\<rparr>"

lemma expanded_pvc_cases:
  "expanded_pvc R now p n =
    (if pvc_requests p = None then Inl NilMapWrite else Inr (expansion_object R now p n))"
  by (auto simp: expanded_pvc_def expansion_object_def UpdateLastExpansion_def map_set_def
      split: option.splits)

lemma expansion_object_key [simp]: "pvc_key (expansion_object R now p n) = pvc_key p"
  by (simp add: expansion_object_def pvc_key_def)

text \<open>What an attempt to expand does, by cases on its target.\<close>

lemma ExpandPVC_cases:
  "ExpandPVC R now p config st = Inr (r, st') \<Longrightarrow>
    (target_size R p config = None \<longrightarrow> (\<exists>e. r = Some e) \<and> st_server st' = st_server st) \<and>
    (\<forall>n. target_size R p config = Some n \<longrightarrow>
      (if r_DryRun R then r = None \<and> st' = st
       else pvc_requests p \<noteq> None \<and>
         (r, st_server st') = apfst (map_option UpdateFailed)
           (kube_update_pvc (r_Client R) (expansion_object R now p n) (st_server st))))"
  by (auto simp: ExpandPVC_def Let_def target_size_def expanded_pvc_cases
      split: sum.splits if_splits prod.splits option.splits)

lemma ExpandPVC_frame:
  "ExpandPVC R now p config st = Inr (r, st') \<Longrightarrow>
    st_cache st' = st_cache st \<and> st_events st' = st_events st"
  by (auto simp: ExpandPVC_def Let_def expanded_pvc_cases
      split: sum.splits if_splits prod.splits option.splits)

lemma ExpandPVC_target:
  assumes "ExpandPVC R now p config st = Inr (r, st')"
  shows "st_server st' = (case (if r_DryRun R then None else target_size R p config) of
      None \<Rightarrow> st_server st
    | Some n \<Rightarrow> snd (kube_update_pvc (r_Client R) (expansion_object R now p n) (st_server st)))"
proof (cases "target_size R p config")
  case (Some n)
  with ExpandPVC_cases [OF assms] show ?thesis by (auto simp: prod_eq_iff split: if_splits)
next
  case None
  with ExpandPVC_cases [OF assms] show ?thesis by simp
qed

lemma ExpandPVC_panic:
  "ExpandPVC R now p config st = Inl panic \<longleftrightarrow>
    panic = NilMapWrite \<and> \<not> r_DryRun R \<and> target_size R p config \<noteq> None \<and> pvc_requests p = None"
  by (auto simp: ExpandPVC_def Let_def target_size_def expanded_pvc_cases
      split: sum.splits prod.splits option.splits)

text \<open>A reconciliation up to the call of \<open>ExpandPVC\<close>, and what follows it.\<close>

definition observed :: "'q quantity_ops \<Rightarrow> 'q pvc \<Rightarrow> VolumeMetrics \<Rightarrow> ('q, 's) rstate \<Rightarrow> ('q, 's) rstate" where
  "observed Q p vm st =
     record_metrics (UpdatePVCInodesMetrics (pvc_name p) (pvc_namespace p)
         (vm_InodesUsagePercent vm) (vm_InodesTotal vm))
       (record_metrics (UpdatePVCMetrics (pvc_name p) (pvc_namespace p)
         (vm_UsagePercent vm) (qty_value Q (pvc_capacity_storage Q p))) st)"

definition outcome ::
  "('q, 'sel, 's) Reconciler \<Rightarrow> 'q pvc \<Rightarrow> 'q PVCConfig \<Rightarrow> VolumeMetrics \<Rightarrow> string \<Rightarrow>
   expand_error option \<times> ('q, 's) rstate \<Rightarrow> ('q, 's) rstate" where
  "outcome R p config vm fs res =
     (case res of
        (Some e, st) \<Rightarrow> emit_event (failure_event p e) (record_metrics
          (RecordFailedResize (pvc_name p) (pvc_namespace p) ''expansion_failed'') st)
      | (None, st) \<Rightarrow> emit_event (expansion_event (r_Q R) p config vm fs) (record_metrics
          (RecordSuccessfulResize (pvc_name p) (pvc_namespace p)) st))"

lemma observed_simps [simp]:
  "st_server (observed Q p vm st) = st_server st" "st_cache (observed Q p vm st) = st_cache st"
  "st_events (observed Q p vm st) = st_events st"
  by (simp_all add: observed_def)

lemma outcome_simps [simp]:
  "st_server (outcome R p config vm fs (r, st)) = st_server st"
  "st_cache (outcome R p config vm fs (r, st)) = st_cache st"
  by (cases r; simp add: outcome_def)+

lemma getFilesystemType_observed [simp]:
  "getFilesystemType p (observed Q p vm st) = getFilesystemType p st"
  by (simp add: getFilesystemType_def split: option.split)

lemma reconcile_expands:
  assumes "IsStorageClassExpandable R p st = (e, st1)"
    and "ResolvePVCConfig (r_Q R) (r_Client R) p (r_GlobalConfig R) (st_server st) = Inr config"
    and "may_expand R now1 p mc e config" and "mc_Get mc (pvc_key p) = Some vm"
  shows "reconcilePVC R now1 now2 p mc st =
    try_in (ExpandPVC R now2 p config
        (record_metrics (RecordThresholdReached (pvc_name p) (pvc_namespace p)) (observed (r_Q R) p vm st1)))
      (\<lambda>res. Inr (outcome R p config vm
        (if inodes_reached config vm then getFilesystemType p st1 else '''') res))"
  using assms by (cases "ExpandPVC R now2 p config (record_metrics
      (RecordThresholdReached (pvc_name p) (pvc_namespace p)) (observed (r_Q R) p vm st1))")
    (auto simp: reconcilePVC_def may_expand_def Let_def outcome_def simp flip: observed_def
      split: option.splits)

text \<open>The ways to decline: each records its reason.\<close>

definition declined ::
  "('q, 'sel, 's) Reconciler \<Rightarrow> 'q pvc \<Rightarrow> ('q, 's) rstate \<Rightarrow> ('q, 's) rstate \<Rightarrow> ('q, 's) rstate \<Rightarrow> bool" where
  "declined R p st st1 st2 \<longleftrightarrow>
     st2 = st \<or>
     st2 = record_metrics (RecordFailedResize (pvc_name p) (pvc_namespace p) ''storage_class_not_expandable'') st1 \<or>
     st2 = record_metrics (RecordResizeInProgress (pvc_name p) (pvc_namespace p)) st1 \<or>
     st2 = record_metrics (RecordCooldownSkipped (pvc_name p) (pvc_namespace p)) st1 \<or>
     st2 = record_metrics (RecordFailedResize (pvc_name p) (pvc_namespace p) ''metrics_not_found'') st1 \<or>
     (\<exists>vm. st2 = observed (r_Q R) p vm st1)"

lemma reconcile_declined:
  assumes "IsStorageClassExpandable R p st = (e, st1)"
    and "ResolvePVCConfig (r_Q R) (r_Client R) p (r_GlobalConfig R) (st_server st) = Inr config"
    and "\<not> may_expand R now1 p mc e config"
  shows "\<exists>st2. reconcilePVC R now1 now2 p mc st = Inr st2 \<and> declined R p st st1 st2"
  using assms unfolding declined_def
  by (cases "mc_Get mc (pvc_key p)")
    (auto simp: reconcilePVC_def may_expand_def Let_def simp flip: observed_def)

lemma reconcile_declines:
  assumes "IsStorageClassExpandable R p st = (e, st1)"
    and "ResolvePVCConfig (r_Q R) (r_Client R) p (r_GlobalConfig R) (st_server st) = Inr config"
    and "\<not> may_expand R now1 p mc e config"
  shows "\<exists>st2. reconcilePVC R now1 now2 p mc st = Inr st2 \<and> st_server st2 = st_server st \<and>
    st_events st2 = st_events st \<and> (st_cache st2 = st_cache st1 \<or> st_cache st2 = st_cache st)"
  using reconcile_declined [OF assms, of now2] expandable_server [OF assms(1)]
  by (auto simp: declined_def)

lemma reconcile_unmanaged:
  "ResolvePVCConfig (r_Q R) (r_Client R) p (r_GlobalConfig R) (st_server st) = Inl err \<Longrightarrow>
    reconcilePVC R now1 now2 p mc st = Inr st"
  by (simp add: reconcilePVC_def)

text \<open>The three ways a reconciliation ends, with what was computed on the way.\<close>

lemma reconcilePVC_cases:
  assumes "reconcilePVC R now1 now2 p mc st = Inr st'" and e: "IsStorageClassExpandable R p st = (e, st1)"
  obtains (unmanaged) err where "ResolvePVCConfig (r_Q R) (r_Client R) p (r_GlobalConfig R) (st_server st) = Inl err"
      and "st' = st"
  | (declines) config where "ResolvePVCConfig (r_Q R) (r_Client R) p (r_GlobalConfig R) (st_server st) = Inr config"
      and "\<not> may_expand R now1 p mc e config" and "declined R p st st1 st'"
  | (expands) config vm fs r st3 where "ResolvePVCConfig (r_Q R) (r_Client R) p (r_GlobalConfig R) (st_server st) = Inr config"
      and "may_expand R now1 p mc e config" and "mc_Get mc (pvc_key p) = Some vm"
      and "ExpandPVC R now2 p config (record_metrics (RecordThresholdReached (pvc_name p) (pvc_namespace p))
        (observed (r_Q R) p vm st1)) = Inr (r, st3)"
      and "fs = (if inodes_reached config vm then getFilesystemType p st1 else '''')"
      and "st' = outcome R p config vm fs (r, st3)"
proof (cases "ResolvePVCConfig (r_Q R) (r_Client R) p (r_GlobalConfig R) (st_server st)")
  case (Inl err)
  with assms(1) show thesis by (simp add: reconcile_unmanaged unmanaged)
next
  case (Inr config)
  show thesis
  proof (cases "may_expand R now1 p mc e config")
    case False
    from reconcile_declined [OF e Inr False, of now2] assms(1) Inr False show thesis by (auto intro: declines)
  next
    case True
    then obtain vm where vm: "mc_Get mc (pvc_key p) = Some vm"
      by (auto simp: may_expand_def split: option.splits)
    from assms(1) [unfolded reconcile_expands [OF e Inr True vm, of now2] try_in_Inr] obtain r st3 where
      "ExpandPVC R now2 p config (record_metrics (RecordThresholdReached (pvc_name p) (pvc_namespace p))
        (observed (r_Q R) p vm st1)) = Inr (r, st3)"
      "st' = outcome R p config vm (if inodes_reached config vm then getFilesystemType p st1 else '''') (r, st3)"
      by auto
    with Inr True vm show thesis by (intro expands) simp_all
  qed
qed

text \<open>The refinement: the server sees exactly the contract's target.\<close>

lemma declined_server:
  "declined R p st st1 st' \<Longrightarrow> st_server st1 = st_server st \<Longrightarrow> st_server st' = st_server st"
  by (auto simp: declined_def)

lemma reconcile_server:
  assumes e: "IsStorageClassExpandable R p st = (e, st1)" and run: "reconcilePVC R now1 now2 p mc st = Inr st'"
  shows "st_server st' = (case expansion_target R now1 p mc e (st_server st) of
      None \<Rightarrow> st_server st
    | Some n \<Rightarrow> snd (kube_update_pvc (r_Client R) (expansion_object R now2 p n) (st_server st)))"
  using run e
proof (cases rule: reconcilePVC_cases)
  case (declines config)
  then show ?thesis using declined_server [OF declines(3)] expandable_server [OF e] by (simp add: expansion_target_def)
next
  case (expands config vm fs r st3)
  with ExpandPVC_target [OF expands(4)] expandable_server [OF e] show ?thesis
    by (simp add: expansion_target_def split: option.split)
qed (simp add: expansion_target_def)

text \<open>A reconciliation panics exactly when it has a size to ask for and the claim has no requests.\<close>

lemma reconcile_panic:
  assumes "IsStorageClassExpandable R p st = (e, st1)"
  shows "reconcilePVC R now1 now2 p mc st = Inl panic \<longleftrightarrow>
    panic = NilMapWrite \<and> pvc_requests p = None \<and> expansion_target R now1 p mc e (st_server st) \<noteq> None"
proof (cases "ResolvePVCConfig (r_Q R) (r_Client R) p (r_GlobalConfig R) (st_server st)")
  case (Inl err)
  then show ?thesis by (simp add: reconcile_unmanaged expansion_target_def)
next
  case (Inr config)
  show ?thesis
  proof (cases "may_expand R now1 p mc e config")
    case False
    from reconcile_declines [OF assms Inr False, of now2] Inr False show ?thesis
      by (auto simp: expansion_target_def)
  next
    case True
    then obtain vm where vm: "mc_Get mc (pvc_key p) = Some vm"
      by (auto simp: may_expand_def split: option.splits)
    let ?st2 = "record_metrics (RecordThresholdReached (pvc_name p) (pvc_namespace p)) (observed (r_Q R) p vm st1)"
    from reconcile_expands [OF assms Inr True vm, of now2]
    have "reconcilePVC R now1 now2 p mc st = Inl panic \<longleftrightarrow> ExpandPVC R now2 p config ?st2 = Inl panic"
      by (cases "ExpandPVC R now2 p config ?st2") auto
    with ExpandPVC_panic [of R now2 p config ?st2 panic] Inr True show ?thesis
      by (auto simp: expansion_target_def)
  qed
qed

end
