(* ===== verification/CycleFacts.thy ===== *)
theory CycleFacts
  imports PVCControllerFacts "HOL-Library.Multiset"
begin

text \<open>
  A whole cycle of the expansion controller. Over any API server that keeps the contract
  \<open>kube_store\<close>, each claim gets what the server held when the cycle began asks for, whatever the
  order of the goroutines, and no object but the listed claims is touched.
\<close>

lemma reconcile_cache:
  assumes "IsStorageClassExpandable R p st = (e, st1)" and "reconcilePVC R now1 now2 p mc st = Inr st'"
  shows "st_cache st' = st_cache st \<or> st_cache st' = st_cache st1"
  using assms(2,1)
proof (cases rule: reconcilePVC_cases)
  case (expands config vm fs r st3)
  then show ?thesis using ExpandPVC_frame [OF expands(4)] by simp
qed (auto simp: declined_def)

lemma class_answer_cong:
  "(\<And>n. kube_get_storage_class K n s' = kube_get_storage_class K n s) \<Longrightarrow> class_answer K s' = class_answer K s"
  by (simp add: class_answer_def fun_eq_iff)

lemma resolve_cong:
  "(\<And>ns. kube_list_policies K ns s' = kube_list_policies K ns s) \<Longrightarrow>
    ResolvePVCConfig Q K p g s' = ResolvePVCConfig Q K p g s"
  by (simp add: ResolvePVCConfig_def split: sum.split)

text \<open>The size a claim is given in a cycle, from the server as the cycle finds it.\<close>

definition cycle_target ::
  "('q, 'sel, 's) Reconciler \<Rightarrow> time \<Rightarrow> 'q pvc \<Rightarrow> MetricsCache \<Rightarrow> 's \<Rightarrow> 'q option" where
  "cycle_target R now p mc s = expansion_target R now p mc (expandable_now (r_Client R) s p) s"

section \<open>The shape of a cycle\<close>

text \<open>The state the goroutines start in, what is recorded after them, and after a failed start.\<close>

definition cycle_start :: "('q, 'sel, 's) Reconciler \<Rightarrow> 'q pvc list \<Rightarrow> ('q, 's) rstate \<Rightarrow> ('q, 's) rstate" where
  "cycle_start R pvcs st = record_metrics (RecordKubernetesClientRequest ''list_pvcs'' ''success'' @
       RecordKubeletClientRequest ''success'' @
       [SetGauge ManagedPVCsTotal [] (f_of_int (int (length (managed_pvcs R (st_server st) pvcs))))])
     (st\<lparr>st_cache := cache_Clear (st_cache st)\<rparr>)"

definition finish_trace :: "float64 \<Rightarrow> float64 \<Rightarrow> metric_trace" where
  "finish_trace dur fin = RecordLoopDuration dur @ status_gauges True @ [SetGauge LastReconciliationTime [] fin]"

definition idle_trace :: "bool \<Rightarrow> float64 \<Rightarrow> metric_trace" where
  "idle_trace listed fin =
     (if listed then RecordKubernetesClientRequest ''list_pvcs'' ''success'' @ RecordKubeletClientRequest ''failed''
      else RecordKubernetesClientRequest ''list_pvcs'' ''failed'') @
     status_gauges False @ [SetGauge LastReconciliationTime [] fin]"

lemma cycle_start_simps [simp]:
  "st_server (cycle_start R pvcs st) = st_server st"
  "st_cache (cycle_start R pvcs st) = cache_Clear (st_cache st)"
  "st_events (cycle_start R pvcs st) = st_events st"
  by (simp_all add: cycle_start_def)

lemma record_metrics_append: "record_metrics b (record_metrics a st) = record_metrics (a @ b) st"
  by (simp add: record_metrics_def)

lemma reconcileAll_runs:
  "kube_list_pvcs (r_Client R) (st_server st) = Inr pvcs \<Longrightarrow> reconcileAll R (Inr mc) sched dur fin st =
    try_in (reconcile_each R mc (sched (managed_pvcs R (st_server st) pvcs)) (cycle_start R pvcs st))
      (\<lambda>st. Inr (record_metrics (finish_trace dur fin) st))"
  by (simp add: reconcileAll_def cycle_start_def finish_trace_def record_metrics_append Let_def)

text \<open>
  A cycle is idle (the claims could not be listed, or the metrics not fetched) or it runs the
  goroutines of the managed claims.
\<close>

lemma reconcileAll_cases:
  obtains (idle) listed where "reconcileAll R fetched sched dur fin st =
      Inr (record_metrics (idle_trace listed fin) (st\<lparr>st_cache := cache_Clear (st_cache st)\<rparr>))"
  | (runs) pvcs mc where "kube_list_pvcs (r_Client R) (st_server st) = Inr pvcs" and "fetched = Inr mc"
    and "reconcileAll R fetched sched dur fin st =
      try_in (reconcile_each R mc (sched (managed_pvcs R (st_server st) pvcs)) (cycle_start R pvcs st))
        (\<lambda>st. Inr (record_metrics (finish_trace dur fin) st))"
proof (cases "kube_list_pvcs (r_Client R) (st_server st)")
  case (Inl err)
  then show thesis by (intro idle [of False])
    (simp add: reconcileAll_def idle_trace_def record_metrics_append Let_def)
next
  case pvcs: (Inr pvcs)
  show thesis
  proof (cases fetched)
    case (Inl err)
    with pvcs show thesis by (intro idle [of True])
      (simp add: reconcileAll_def idle_trace_def record_metrics_append Let_def)
  next
    case (Inr mc)
    with pvcs show thesis by (intro runs [of pvcs mc]) (simp_all add: reconcileAll_runs)
  qed
qed

context kube_store
begin

lemma step_effect:
  assumes R: "r_Client R = K" and ok: "cache_ok R st"
    and run: "reconcilePVC R now1 now2 p mc st = Inr st'"
  shows "cache_ok R st'"
    and "class_answer K (st_server st') = class_answer K (st_server st)"
    and "kube_list_policies K ns (st_server st') = kube_list_policies K ns (st_server st)"
    and "k \<noteq> pvc_key p \<Longrightarrow> view (st_server st') k = view (st_server st) k"
    and "view (st_server st') (pvc_key p) = view (st_server st) (pvc_key p) \<or>
      (\<exists>n. cycle_target R now1 p mc (st_server st) = Some n \<and>
        view (st_server st') (pvc_key p) = Some (expansion_object R now2 p n))"
proof -
  obtain e st1 where e: "IsStorageClassExpandable R p st = (e, st1)" by (cases "IsStorageClassExpandable R p st")
  note tr = expandable_transparent [OF ok e]
  note server = reconcile_server [OF e run, unfolded tr(1)]
  have srv: "st_server st' = st_server st \<or>
      (\<exists>n r. cycle_target R now1 p mc (st_server st) = Some n \<and>
        kube_update_pvc K (expansion_object R now2 p n) (st_server st) = (r, st_server st'))"
    using server R unfolding cycle_target_def
    by (cases "expansion_target R now1 p mc (expandable_now (r_Client R) (st_server st) p) (st_server st)")
      (auto simp: prod_eq_iff)
  show cls: "class_answer K (st_server st') = class_answer K (st_server st)"
    using srv by (auto intro!: class_answer_cong dest: class_stable)
  show "kube_list_policies K ns (st_server st') = kube_list_policies K ns (st_server st)"
    using srv by (auto dest: policies_stable)
  show "view (st_server st') k = view (st_server st) k" if "k \<noteq> pvc_key p"
    using srv that by (auto dest: update_other)
  show "view (st_server st') (pvc_key p) = view (st_server st) (pvc_key p) \<or>
      (\<exists>n. cycle_target R now1 p mc (st_server st) = Some n \<and>
        view (st_server st') (pvc_key p) = Some (expansion_object R now2 p n))"
    using srv update_dom by fastforce
  show "cache_ok R st'"
    using reconcile_cache [OF e run] tr(2) ok cls R expandable_server [OF e] by auto
qed

lemma cycle_target_cong:
  assumes "r_Client R = K" and "class_answer K s' = class_answer K s"
    and "\<And>ns. kube_list_policies K ns s' = kube_list_policies K ns s"
  shows "cycle_target R now p mc s' = cycle_target R now p mc s"
proof -
  have "ResolvePVCConfig Q K p g s' = ResolvePVCConfig Q K p g s" for Q p g
    using assms(3) by (rule resolve_cong)
  then show ?thesis
    unfolding cycle_target_def expansion_target_def expandable_now_def by (simp only: assms(1,2))
qed

lemma each_effect:
  assumes R: "r_Client R = K" and "cache_ok R st" and "reconcile_each R mc sched st = Inr st'"
    and "distinct (map (\<lambda>(p, _). pvc_key p) sched)"
  shows "(\<forall>k. k \<notin> (\<lambda>(p, _). pvc_key p) ` set sched \<longrightarrow> view (st_server st') k = view (st_server st) k) \<and>
    (\<forall>p now1 now2. (p, now1, now2) \<in> set sched \<longrightarrow>
      view (st_server st') (pvc_key p) = view (st_server st) (pvc_key p) \<or>
      (\<exists>n. cycle_target R now1 p mc (st_server st) = Some n \<and>
        view (st_server st') (pvc_key p) = Some (expansion_object R now2 p n)))"
  using assms(2-4)
proof (induction sched arbitrary: st)
  case Nil
  then show ?case by simp
next
  case (Cons x rest)
  obtain p now1 now2 where x: "x = (p, now1, now2)" by (cases x)
  from Cons.prems(2) obtain st2 where run: "reconcilePVC R now1 now2 p mc st = Inr st2"
    and rest: "reconcile_each R mc rest st2 = Inr st'"
    unfolding x by (auto simp: try_in_Inr)
  note step = step_effect [OF R Cons.prems(1) run]
  have new: "pvc_key p \<notin> (\<lambda>(p, _). pvc_key p) ` set rest"
    using Cons.prems(3) unfolding x by auto
  have "distinct (map (\<lambda>(p, _). pvc_key p) rest)" using Cons.prems(3) by simp
  note IH = Cons.IH [OF step(1) rest this]
  have target: "cycle_target R now q mc (st_server st2) = cycle_target R now q mc (st_server st)" for now q
    using R step(2,3) by (rule cycle_target_cong)
  have keep: "view (st_server st') (pvc_key p) = view (st_server st2) (pvc_key p)"
    using IH new by simp
  have other: "view (st_server st2) (pvc_key q) = view (st_server st) (pvc_key q)"
    if "(q, y) \<in> set rest" for q y
    using step(4) [of "pvc_key q"] new that by force
  show ?case
    using IH step(4,5) keep target other unfolding x by auto
qed

text \<open>
  The whole cycle, under any schedule \<open>sched\<close>: every object is as it was, or it was a managed
  claim and is now the expansion object of its target.
\<close>

lemma cycle_effect:
  assumes R: "r_Client R = K" and sched: "\<And>ps. mset (map fst (sched ps)) = mset ps"
    and run: "reconcileAll R fetched sched dur fin st = Inr st'"
  shows "view (st_server st') k = view (st_server st) k \<or>
    (\<exists>mc p now1 now2 n ps. fetched = Inr mc \<and> pvc_key p = k \<and> view (st_server st) k = Some p \<and>
      (p, now1, now2) \<in> set (sched ps) \<and> cycle_target R now1 p mc (st_server st) = Some n \<and>
      view (st_server st') k = Some (expansion_object R now2 p n))"
proof (cases rule: reconcileAll_cases [of R fetched sched dur fin st])
  case (idle listed)
  with run show ?thesis by auto
next
  case (runs pvcs mc)
  define managed where "managed = managed_pvcs R (st_server st) pvcs"
  obtain st2 where each: "reconcile_each R mc (sched managed) (cycle_start R pvcs st) = Inr st2"
    and fin: "st_server st' = st_server st2"
    using run runs(3) by (auto simp: managed_def try_in_Inr)
  have list: "kube_list_pvcs K (st_server st) = Inr pvcs" using runs(1) R by simp
  have set: "fst ` set (sched managed) = set managed"
    using sched [of managed] by (metis mset_eq_setD set_map)
  have "distinct (map pvc_key managed)"
    using list_distinct [OF list] by (simp add: managed_def managed_pvcs_def distinct_map_filter)
  moreover have "mset (map pvc_key (map fst (sched managed))) = mset (map pvc_key managed)"
    using sched [of managed] by (metis mset_map)
  ultimately have dist: "distinct (map (\<lambda>(p, _). pvc_key p) (sched managed))"
    by (metis (mono_tags, lifting) mset_eq_imp_distinct_iff map_map comp_def case_prod_unfold map_cong)
  have ok: "cache_ok R (cycle_start R pvcs st)" unfolding cycle_start_simps by (rule scc.coherent_clear)
  note eff = each_effect [OF R ok each dist, unfolded cycle_start_simps]
  show ?thesis
  proof (cases "k \<in> (\<lambda>(p, _). pvc_key p) ` set (sched managed)")
    case False
    with eff fin show ?thesis by simp
  next
    case True
    then obtain p now1 now2 where p: "(p, now1, now2) \<in> set (sched managed)" "pvc_key p = k"
      by auto
    have "p \<in> set pvcs" using p set by (force simp: managed_def managed_pvcs_def)
    then have "view (st_server st) k = Some p" using list_view [OF list] p by simp
    moreover from eff p have "view (st_server st2) k = view (st_server st) k \<or>
        (\<exists>n. cycle_target R now1 p mc (st_server st) = Some n \<and>
          view (st_server st2) k = Some (expansion_object R now2 p n))"
      by auto
    ultimately show ?thesis using p fin runs(2) by fastforce
  qed
qed

end

end
