(* ===== verification/MetricFacts.thy ===== *)
theory MetricFacts
  imports CycleFacts
begin

text \<open>
  The accounting of a cycle: every time a claim reaches its threshold is counted as exactly one
  success or one failed expansion, and a dry run leaves the server alone.
\<close>

section \<open>Counters\<close>

definition balanced :: "string \<Rightarrow> string \<Rightarrow> metric_trace \<Rightarrow> bool" where
  "balanced name ns tr \<longleftrightarrow>
     counter_value ThresholdReachedTotal [name, ns] tr =
     counter_value SuccessResizeTotal [name, ns] tr +
     counter_value FailedResizeTotal [name, ns, ''expansion_failed''] tr"

abbreviation account :: "string \<Rightarrow> string \<Rightarrow> ('q, 's) rstate \<Rightarrow> nat \<times> nat" where
  "account name ns st \<equiv> (counter_value ThresholdReachedTotal [name, ns] (st_metrics st),
     counter_value SuccessResizeTotal [name, ns] (st_metrics st) +
     counter_value FailedResizeTotal [name, ns, ''expansion_failed''] (st_metrics st))"

lemma expandable_account: "IsStorageClassExpandable R p st = (e, st') \<Longrightarrow> account name ns st' = account name ns st"
  by (auto simp: IsStorageClassExpandable_def Let_def RecordKubernetesClientRequest_def
      split: option.splits sum.splits)

lemma ExpandPVC_account: "ExpandPVC R now p config st = Inr (r, st') \<Longrightarrow> account name ns st' = account name ns st"
  by (auto simp: ExpandPVC_def Let_def RecordKubernetesClientRequest_def RecordLimitReached_def
      split: sum.splits if_splits prod.splits option.splits)

lemma observed_account: "account name ns (observed Q p vm st) = account name ns st"
  by (simp add: observed_def UpdatePVCMetrics_def UpdatePVCInodesMetrics_def)

lemma reconcile_balanced:
  assumes "reconcilePVC R now1 now2 p mc st = Inr st'" and "balanced name ns (st_metrics st)"
  shows "balanced name ns (st_metrics st')"
proof -
  obtain e st1 where e: "IsStorageClassExpandable R p st = (e, st1)" by (cases "IsStorageClassExpandable R p st")
  note acc = expandable_account [OF e, of name ns]
  from assms(1) e show ?thesis
  proof (cases rule: reconcilePVC_cases)
    case (declines config)
    then have "account name ns st' = account name ns st"
      using acc by (auto simp: declined_def observed_account [simplified] RecordFailedResize_def
          RecordResizeInProgress_def RecordCooldownSkipped_def)
    then show ?thesis using assms(2) by (simp add: balanced_def)
  next
    case (expands config vm fs r st3)
    then show ?thesis
      using acc ExpandPVC_account [OF expands(4), of name ns] observed_account [of name ns "r_Q R" p vm st1] assms(2)
      by (cases r) (auto simp: balanced_def outcome_def record_defs)
  qed (use assms(2) in simp)
qed

lemma each_balanced:
  "reconcile_each R mc sched st = Inr st' \<Longrightarrow> balanced name ns (st_metrics st) \<Longrightarrow> balanced name ns (st_metrics st')"
proof (induction sched arbitrary: st)
  case (Cons x rest)
  then show ?case by (cases x) (auto simp: try_in_Inr dest: reconcile_balanced)
qed simp

lemma cycle_balanced:
  assumes "reconcileAll R fetched sched dur fin st = Inr st'" and "balanced name ns (st_metrics st)"
  shows "balanced name ns (st_metrics st')"
proof -
  have b: "balanced name ns (tr @ a) \<longleftrightarrow> balanced name ns tr"
    if "\<forall>op \<in> set a. \<nexists>i ls. op = Inc i ls \<and> i \<in> {ThresholdReachedTotal, SuccessResizeTotal, FailedResizeTotal}"
    for tr a
  proof -
    have "counter_value i ls a = 0" if "i \<in> {ThresholdReachedTotal, SuccessResizeTotal, FailedResizeTotal}" for i ls
      using \<open>\<forall>op \<in> set a. _\<close> that by (induction i ls a rule: counter_value.induct) auto
    then show ?thesis by (simp add: balanced_def)
  qed
  show ?thesis
  proof (cases rule: reconcileAll_cases [of R fetched sched dur fin st])
    case (idle listed)
    then show ?thesis using assms
      by (simp add: b idle_trace_def RecordKubernetesClientRequest_def RecordKubeletClientRequest_def status_gauges_def)
  next
    case (runs pvcs mc)
    have "balanced name ns (st_metrics (cycle_start R pvcs st))"
      using assms(2) by (simp add: cycle_start_def b RecordKubernetesClientRequest_def RecordKubeletClientRequest_def)
    then show ?thesis
      using assms(1) runs(3)
      by (auto simp: try_in_Inr b finish_trace_def RecordLoopDuration_def status_gauges_def dest: each_balanced)
  qed
qed

section \<open>Accepted calls\<close>

text \<open>Every call a cycle makes on an instrument is one the client library accepts.\<close>

abbreviation metrics_ok :: "('q, 's) rstate \<Rightarrow> bool" where "metrics_ok st \<equiv> list_all op_ok (st_metrics st)"

lemma expandable_ok: "IsStorageClassExpandable R p st = (e, st') \<Longrightarrow> metrics_ok st \<Longrightarrow> metrics_ok st'"
  by (auto simp: IsStorageClassExpandable_def Let_def split: option.splits sum.splits)

lemma ExpandPVC_ok: "ExpandPVC R now p config st = Inr (r, st') \<Longrightarrow> metrics_ok st \<Longrightarrow> metrics_ok st'"
  by (auto simp: ExpandPVC_def Let_def split: sum.splits if_splits prod.splits option.splits)

lemma reconcile_ok:
  assumes "reconcilePVC R now1 now2 p mc st = Inr st'" and "metrics_ok st"
  shows "metrics_ok st'"
proof -
  obtain e st1 where e: "IsStorageClassExpandable R p st = (e, st1)" by (cases "IsStorageClassExpandable R p st")
  note st1 = expandable_ok [OF e assms(2)]
  from assms(1) e show ?thesis
  proof (cases rule: reconcilePVC_cases)
    case (declines config)
    then show ?thesis using st1 assms(2) by (auto simp: declined_def observed_def)
  next
    case (expands config vm fs r st3)
    have "metrics_ok st3" using ExpandPVC_ok [OF expands(4)] st1 by (simp add: observed_def)
    then show ?thesis using expands(6) by (cases r) (simp_all add: outcome_def)
  qed (use assms(2) in simp)
qed

lemma each_ok: "reconcile_each R mc sched st = Inr st' \<Longrightarrow> metrics_ok st \<Longrightarrow> metrics_ok st'"
proof (induction sched arbitrary: st)
  case (Cons x rest)
  then show ?case by (cases x) (auto simp: try_in_Inr dest: reconcile_ok)
qed simp

lemma cycle_ok:
  assumes "reconcileAll R fetched sched dur fin st = Inr st'" and "metrics_ok st" and "\<not> f_less dur (FFin 0)"
  shows "metrics_ok st'"
proof (cases rule: reconcileAll_cases [of R fetched sched dur fin st])
  case (idle listed)
  then show ?thesis using assms by (simp add: idle_trace_def status_gauges_def)
next
  case (runs pvcs mc)
  have "metrics_ok (cycle_start R pvcs st)" using assms(2) by (simp add: cycle_start_def)
  then show ?thesis
    using assms(1,3) runs(3) by (auto simp: try_in_Inr finish_trace_def status_gauges_def dest: each_ok)
qed

section \<open>Dry run\<close>

lemma reconcile_dry:
  assumes "r_DryRun R"
  shows "\<exists>st'. reconcilePVC R now1 now2 p mc st = Inr st' \<and> st_server st' = st_server st"
proof -
  obtain e st1 where e: "IsStorageClassExpandable R p st = (e, st1)" by (cases "IsStorageClassExpandable R p st")
  have none: "expansion_target R now1 p mc e (st_server st) = None"
    using assms by (simp add: expansion_target_def split: sum.split)
  with reconcile_panic [OF e, of now1 now2 mc] obtain st' where run: "reconcilePVC R now1 now2 p mc st = Inr st'"
    by (cases "reconcilePVC R now1 now2 p mc st") auto
  with reconcile_server [OF e run] none show ?thesis by simp
qed

lemma each_dry:
  "r_DryRun R \<Longrightarrow> \<exists>st'. reconcile_each R mc sched st = Inr st' \<and> st_server st' = st_server st"
proof (induction sched arbitrary: st)
  case (Cons x rest)
  obtain p now1 now2 where x: "x = (p, now1, now2)" by (cases x)
  obtain st1 where "reconcilePVC R now1 now2 p mc st = Inr st1" "st_server st1 = st_server st"
    using reconcile_dry [OF Cons.prems] by blast
  with Cons.IH [OF Cons.prems, of st1] show ?case unfolding x by auto
qed simp

lemma cycle_dry:
  assumes "r_DryRun R"
  shows "\<exists>st'. reconcileAll R fetched sched dur fin st = Inr st' \<and> st_server st' = st_server st"
proof (cases rule: reconcileAll_cases [of R fetched sched dur fin st])
  case (runs pvcs mc)
  obtain st' where "reconcile_each R mc (sched (managed_pvcs R (st_server st) pvcs)) (cycle_start R pvcs st) = Inr st'"
    and "st_server st' = st_server st"
    using each_dry [OF assms] cycle_start_simps(1) by metis
  then show ?thesis using runs(3) by simp
qed auto

section \<open>Completion\<close>

text \<open>A cycle over claims that have requests does not panic.\<close>

lemma each_completes:
  "\<forall>(p, _) \<in> set sched. pvc_requests p \<noteq> None \<Longrightarrow> \<exists>st'. reconcile_each R mc sched st = Inr st'"
proof (induction sched arbitrary: st)
  case (Cons x rest)
  obtain p now1 now2 where x: "x = (p, now1, now2)" by (cases x)
  obtain e st0 where e: "IsStorageClassExpandable R p st = (e, st0)" by (cases "IsStorageClassExpandable R p st")
  have "pvc_requests p \<noteq> None" using Cons.prems unfolding x by simp
  then have "reconcilePVC R now1 now2 p mc st \<noteq> Inl panic" for panic
    using reconcile_panic [OF e] by simp
  then obtain st1 where "reconcilePVC R now1 now2 p mc st = Inr st1"
    by (cases "reconcilePVC R now1 now2 p mc st") auto
  with Cons.IH [of st1] Cons.prems show ?case unfolding x by auto
qed simp

lemma cycle_completes:
  assumes "\<And>ps. mset (map fst (sched ps)) = mset ps"
    and "\<And>pvcs. kube_list_pvcs (r_Client R) (st_server st) = Inr pvcs \<Longrightarrow> \<forall>p \<in> set pvcs. pvc_requests p \<noteq> None"
  shows "\<exists>st'. reconcileAll R fetched sched dur fin st = Inr st'"
proof (cases rule: reconcileAll_cases [of R fetched sched dur fin st])
  case (runs pvcs mc)
  let ?m = "managed_pvcs R (st_server st) pvcs"
  have "fst ` set (sched ?m) = set ?m" using assms(1) [of ?m] by (metis mset_eq_setD set_map)
  moreover have "set ?m \<subseteq> set pvcs" by (auto simp: managed_pvcs_def)
  ultimately have "\<forall>(p, _) \<in> set (sched ?m). pvc_requests p \<noteq> None"
    using assms(2) [OF runs(1)] by (auto simp: split_beta)
  from each_completes [OF this, of R mc "cycle_start R pvcs st"] show ?thesis
    using runs(3) by auto
qed auto

end
