(* ===== verification/TimeFacts.thy ===== *)
theory TimeFacts
  imports GoRFC3339
begin

text \<open>
  Round trips of the time syntax: the calendar, RFC 3339 timestamps to the second, and durations
  of whole seconds.
\<close>

section \<open>The calendar\<close>

text \<open>The year of a day of a 400 year era, as \<open>civil_from_days\<close> computes it.\<close>

definition era_year :: "int \<Rightarrow> int" where
  "era_year doe = (doe - doe div 1460 + doe div 36524 - doe div 146096) div 365"

lemma div_eq: "0 \<le> b \<Longrightarrow> b < k \<Longrightarrow> (a * k + b) div k = (a::int)"
  by (simp add: div_mult_self3)

text \<open>The day \<open>e\<close> of year \<open>100 * c + 4 * q + k\<close> of an era.\<close>

definition era_pos :: "int \<Rightarrow> int \<Rightarrow> int \<Rightarrow> int \<Rightarrow> bool" where
  "era_pos c q k e \<longleftrightarrow> 0 \<le> c \<and> c \<le> 3 \<and> 0 \<le> q \<and> q \<le> 24 \<and> 0 \<le> k \<and> k \<le> 3 \<and> 0 \<le> e \<and>
    e \<le> (if k = 3 \<and> q < 24 then 365 else 364)"

lemma era_pos_exists:
  assumes "0 \<le> doe" and "doe < 146096"
  obtains c q k e where "era_pos c q k e" and "doe = 36524 * c + 1461 * q + 365 * k + e"
proof
  define r where "r = doe mod 36524"
  define s where "s = r mod 1461"
  have r: "0 \<le> r" "r < 36524" "doe = 36524 * (doe div 36524) + r" by (simp_all add: r_def)
  have s: "0 \<le> s" "s < 1461" "r = 1461 * (r div 1461) + s" by (simp_all add: s_def)
  have q: "0 \<le> r div 1461" "r div 1461 \<le> 24" using r by auto
  show "era_pos (doe div 36524) (r div 1461) (min 3 (s div 365)) (s - 365 * min 3 (s div 365))"
    unfolding era_pos_def using assms r s q by (auto simp: min_def)
  show "doe = 36524 * (doe div 36524) + 1461 * (r div 1461) + 365 * min 3 (s div 365) + (s - 365 * min 3 (s div 365))"
    using r(3) s(3) by simp
qed

lemma era_year_pos:
  assumes "era_pos c q k e"
  shows "era_year (36524 * c + 1461 * q + 365 * k + e) = 100 * c + 4 * q + k"
proof -
  let ?d = "36524 * c + 1461 * q + 365 * k + e"
  let ?u = "24 * c + q + 365 * k + e"
  have b: "0 \<le> c" "c \<le> 3" "0 \<le> q" "q \<le> 24" "0 \<le> k" "k \<le> 3" "0 \<le> e" "e \<le> 365"
    and e: "k = 3 \<and> q < 24 \<or> e \<le> 364"
    using assms by (auto simp: era_pos_def split: if_splits)
  define \<delta> where "\<delta> = (if ?u < 1460 then 0 else 1 :: int)"
  have "?d = (25 * c + q + \<delta>) * 1460 + (?u - 1460 * \<delta>)" by (simp add: algebra_simps)
  moreover have "0 \<le> ?u - 1460 * \<delta>" "?u - 1460 * \<delta> < 1460" using b by (auto simp: \<delta>_def)
  ultimately have 1: "?d div 1460 = 25 * c + q + \<delta>" by (metis div_eq)
  have "?d = c * 36524 + (1461 * q + 365 * k + e)" by simp
  moreover have "1461 * q + 365 * k + e < 36524" "0 \<le> 1461 * q + 365 * k + e" using b e by auto
  ultimately have 2: "?d div 36524 = c" by (metis div_eq)
  have 3: "?d div 146096 = 0" using b e by auto
  have "(?d - ?d div 1460 + ?d div 36524 - ?d div 146096) = (100 * c + 4 * q + k) * 365 + (e - \<delta>)"
    unfolding 1 2 3 by (simp add: algebra_simps)
  moreover have "0 \<le> e - \<delta>" "e - \<delta> < 365" using b e by (auto simp: \<delta>_def)
  ultimately show ?thesis unfolding era_year_def by (metis div_eq)
qed

text \<open>A day of an era is a day of its year; only a year that ends in a leap February has 366.\<close>

lemma era_day:
  assumes "0 \<le> doe" and "doe < 146097" and "y = era_year doe" and "e = doe - (365 * y + y div 4 - y div 100)"
  shows "0 \<le> y \<and> y < 400 \<and> 0 \<le> e \<and> (e \<le> 364 \<or> e = 365 \<and> leap_year (y + 1))"
proof (cases "doe = 146096")
  case True
  then have "y = 399" using assms(3) by (simp add: era_year_def)
  with True show ?thesis using assms(4) by (simp add: leap_year_def)
next
  case False
  then have "doe < 146096" using assms(2) by simp
  from era_pos_exists [OF assms(1) this] obtain c q k x where p: "era_pos c q k x"
    and doe: "doe = 36524 * c + 1461 * q + 365 * k + x" by blast
  have y: "y = 100 * c + 4 * q + k" using era_year_pos [OF p] assms(3) doe by simp
  have b: "0 \<le> c" "c \<le> 3" "0 \<le> q" "q \<le> 24" "0 \<le> k" "k \<le> 3" "0 \<le> x" "x \<le> 365"
    and x: "k = 3 \<and> q < 24 \<or> x \<le> 364"
    using p by (auto simp: era_pos_def split: if_splits)
  have y4: "y = (25 * c + q) * 4 + k" and y100: "y = c * 100 + (4 * q + k)" using y by simp_all
  have "y div 4 = 25 * c + q" unfolding y4 using b by (intro div_eq) linarith+
  moreover have "y div 100 = c" unfolding y100 using b by (intro div_eq) linarith+
  ultimately have e: "e = x" using assms(4) doe y by simp
  have "leap_year (y + 1)" if "k = 3" "q < 24"
  proof -
    have y1: "y + 1 = (25 * c + q + 1) * 4" and y2: "y + 1 = c * 100 + (4 * q + 4)" using y that by simp_all
    have "(y + 1) mod 4 = 0" unfolding y1 by simp
    moreover have "(y + 1) mod 100 = 4 * q + 4"
      unfolding y2 mod_mult_self3 using b that by simp
    ultimately show ?thesis using b by (simp add: leap_year_def)
  qed
  then show ?thesis using b x y e by auto
qed

lemma month_of_day:
  fixes e mp d :: int
  assumes "0 \<le> e" and "e \<le> 364 \<or> e = 365 \<and> leap" and "mp = (5 * e + 2) div 153" and "d = e - (153 * mp + 2) div 5 + 1"
  shows "0 \<le> mp \<and> mp \<le> 11 \<and> 1 \<le> d \<and> d \<le> (if mp = 11 then (if leap then 29 else 28)
    else if mp \<in> {1, 3, 6, 8} then 30 else 31)"
proof -
  have "153 * mp \<le> 5 * e + 2" "5 * e + 2 < 153 * mp + 153" using assms(3) by simp_all
  moreover from this have "0 \<le> mp" "mp \<le> 11" using assms(1,2) by auto
  then have "mp = 0 \<or> mp = 1 \<or> mp = 2 \<or> mp = 3 \<or> mp = 4 \<or> mp = 5 \<or> mp = 6 \<or> mp = 7 \<or>
    mp = 8 \<or> mp = 9 \<or> mp = 10 \<or> mp = 11" by presburger
  ultimately show ?thesis using assms(2,4) by (elim disjE) auto
qed

text \<open>The parts \<open>civil_from_days\<close> computes: era, year of the era, day of the year, month.\<close>

lemma civil_parts:
  assumes "civil_from_days z = (y, m, d)"
  obtains era yoe e mp y' where "z + 719468 = era * 146097 + (yoe * 365 + yoe div 4 - yoe div 100 + e)"
    and "y' = yoe + era * 400" and "0 \<le> yoe" and "yoe < 400"
    and "0 \<le> e" and "e \<le> 364 \<or> e = 365 \<and> leap_year (yoe + 1)" and "mp = (5 * e + 2) div 153"
    and "0 \<le> mp" and "mp \<le> 11" and "1 \<le> d"
    and "d \<le> (if mp = 11 then (if leap_year (yoe + 1) then 29 else 28)
      else if mp \<in> {1, 3, 6, 8} then 30 else 31)"
    and "m = (if mp < 10 then mp + 3 else mp - 9)" and "d = e - (153 * mp + 2) div 5 + 1"
    and "y = (if m \<le> 2 then y' + 1 else y')"
proof -
  define w where "w = z + 719468"
  define doe where "doe = w mod 146097"
  define yoe where "yoe = era_year doe"
  define e where "e = doe - (365 * yoe + yoe div 4 - yoe div 100)"
  define mp where "mp = (5 * e + 2) div 153"
  define y' where "y' = yoe + w div 146097 * 400"
  have E: "0 \<le> yoe" "yoe < 400" "0 \<le> e" "e \<le> 364 \<or> e = 365 \<and> leap_year (yoe + 1)"
    using era_day [OF _ _ yoe_def e_def] by (auto simp: doe_def)
  have "civil_from_days z = (let m = (if mp < 10 then mp + 3 else mp - 9) in
      (if m \<le> 2 then y' + 1 else y', m, e - (153 * mp + 2) div 5 + 1))"
    by (simp only: civil_from_days_def Let_def mp_def y'_def e_def yoe_def era_year_def doe_def w_def)
  then have civil: "m = (if mp < 10 then mp + 3 else mp - 9)" "d = e - (153 * mp + 2) div 5 + 1"
    "y = (if m \<le> 2 then y' + 1 else y')"
    using assms by (simp_all add: Let_def)
  have "z + 719468 = w div 146097 * 146097 + (yoe * 365 + yoe div 4 - yoe div 100 + e)"
    unfolding e_def doe_def w_def by simp
  from that [OF this y'_def E mp_def _ _ _ _ civil] show thesis
    using month_of_day [OF E(3,4) mp_def civil(2)] by simp
qed

lemma civil_round_trip:
  assumes "civil_from_days z = (y, m, d)"
  shows "days_from_civil y m d = z \<and> 1 \<le> m \<and> m \<le> 12 \<and> 1 \<le> d \<and> d \<le> days_in m y"
  using assms
proof (cases rule: civil_parts)
  case (1 era yoe e mp y')
  have mp: "(m + 9) mod 12 = mp"
    using 1(8,9,12) by (cases "mp < 10") (simp_all add: mod_pos_pos_trivial)
  have y': "(if m \<le> 2 then y - 1 else y) = y'" using 1(14) by simp
  have yoe: "y' mod 400 = yoe" "y' div 400 = era" using 1(3,4) unfolding 1(2) by simp_all
  have "days_from_civil y m d = z"
    using 1(1,13) unfolding days_from_civil_def Let_def y' yoe mp by simp
  moreover have "y' + 1 = yoe + 1 + era * 100 * 4" "y' + 1 = yoe + 1 + era * 4 * 100"
    "y' + 1 = yoe + 1 + era * 400" by (simp_all add: 1(2))
  then have "(y' + 1) mod 4 = (yoe + 1) mod 4" "(y' + 1) mod 100 = (yoe + 1) mod 100"
    "(y' + 1) mod 400 = (yoe + 1) mod 400" by (metis mod_mult_self1)+
  then have "leap_year (yoe + 1) = leap_year (y' + 1)" by (simp add: leap_year_def)
  then have "d \<le> days_in m y"
    using 1(8,9,11,12,14) by (auto simp: days_in_def split: if_splits)
  ultimately show "days_from_civil y m d = z \<and> 1 \<le> m \<and> m \<le> 12 \<and> 1 \<le> d \<and> d \<le> days_in m y"
    using 1(8-10,12) by auto
qed

text \<open>From 1970 to the end of 9999 the year has four digits.\<close>

lemma civil_year:
  assumes "civil_from_days z = (y, m, d)" and "0 \<le> z" and "z \<le> 2932896"
  shows "0 \<le> y \<and> y \<le> 9999"
  using assms(1)
proof (cases rule: civil_parts)
  case (1 era yoe e mp y')
  have start: "0 \<le> yoe * 365 + yoe div 4 - yoe div 100" using 1(3) by simp
  have "yoe * 365 + yoe div 4 - yoe div 100 + e < 146097"
    using 1(3-6) by (auto simp: leap_year_def)
  then have era: "0 \<le> era" "era \<le> 24" using 1(1,5) start assms(2,3) by auto
  have "y \<le> 9999"
  proof (cases "era = 24 \<and> yoe = 399")
    case True
    then have "e \<le> 305" using 1(1) assms(3) by simp
    then have "mp \<le> 9" unfolding 1(7) by simp
    then show ?thesis using 1(2,8,12,14) True by auto
  next
    case False
    then show ?thesis using 1(2,4,14) era(2) by auto
  qed
  then show "0 \<le> y \<and> y \<le> 9999" using era(1) 1(2,3,14) by auto
qed

section \<open>Timestamps\<close>

lemma fmt_nat_length: "0 \<le> n \<Longrightarrow> n < 10 ^ Suc k \<Longrightarrow> length (fmt_nat n) \<le> Suc k"
proof (induction n arbitrary: k rule: fmt_nat.induct)
  case (1 n)
  show ?case
  proof (cases "n < 10")
    case True
    then show ?thesis by (subst fmt_nat.simps) simp
  next
    case False
    with "1.prems" obtain j where "k = Suc j" by (cases k) auto
    with "1.IH" [of j] "1.prems" False show ?thesis by (subst fmt_nat.simps) simp
  qed
qed

lemma zero_digit: "digit_char 0 = CHR ''0''" "is_digit (CHR ''0'')" "digit_val (CHR ''0'') = 0"
  by code_simp+

lemma dec_val_zeros: "dec_val 0 (replicate k (CHR ''0'') @ s) = dec_val 0 s"
  by (induction k) (simp_all add: zero_digit)

lemma pad_digits:
  assumes "0 \<le> n" and "n < 10 ^ Suc k"
  shows "length (pad (Suc k) n) = Suc k \<and> list_all is_digit (pad (Suc k) n) \<and> dec_val 0 (pad (Suc k) n) = n"
  using assms fmt_nat_length [OF assms] fmt_nat_digits [of n]
  by (auto simp: pad_def Let_def dec_val_zeros dec_val_fmt_nat list_all_iff zero_digit)

lemma pad_2:
  assumes "0 \<le> n" and "n < 100"
  shows "pad 2 n = [digit_char (n div 10), digit_char (n mod 10)]"
proof (cases "n < 10")
  case True
  then have "fmt_nat n = [digit_char n]" by (subst fmt_nat.simps) simp
  then show ?thesis using True assms by (simp add: pad_def zero_digit)
next
  case False
  then have "fmt_nat n = [digit_char (n div 10), digit_char (n mod 10)]"
    using assms by (subst fmt_nat.simps, subst fmt_nat.simps) auto
  then show ?thesis using assms by (simp add: pad_def)
qed

lemma getnum_pad: "0 \<le> n \<Longrightarrow> n < 100 \<Longrightarrow> getnum fixed (pad 2 n @ s) = Some (n, s)"
  by (simp add: pad_2 getnum_def digit_char_simps)

lemma getyear_pad: "0 \<le> y \<Longrightarrow> y \<le> 9999 \<Longrightarrow> getyear (pad 4 y @ s) = Some (y, s)"
  using pad_digits [of y 3] by (simp add: getyear_def eval_nat_numeral)

lemma expect_Cons [simp]: "expect c (c # s) = Some s"
  by (simp add: expect_def)

lemma getzone_format:
  assumes "off = 60 * k" and "\<bar>k\<bar> \<le> 1440"
  shows "getzone (format_zone off) = Some (off, [])"
proof (cases "k = 0")
  case True
  then show ?thesis using assms by (simp add: format_zone_def getzone_def)
next
  case False
  let ?h = "\<bar>k\<bar> div 60" and ?m = "\<bar>k\<bar> mod 60"
  have hm: "0 \<le> ?h" "?h \<le> 24" "0 \<le> ?m" "?m < 60" "?h * 60 + ?m = \<bar>k\<bar>" using assms(2) by auto
  have g: "getnum True (pad 2 n) = Some (n, [])" if "0 \<le> n" "n < 100" for n
    using getnum_pad [of n True "[]"] that by simp
  have "go_div off 60 = k" using assms(1) by (auto simp: go_div_def abs_mult sgn_mult abs_sgn_eq mult_sgn_abs)
  then have "format_zone off = (if k < 0 then CHR ''-'' else CHR ''+'') # pad 2 ?h @ CHR '':'' # pad 2 ?m"
    using False assms(1) by (simp add: format_zone_def)
  then show ?thesis
    using hm g [of ?h] g [of ?m] assms(1) False
    by (auto simp: getzone_def pad_2)
qed

lemma format_zone_plain: "getfrac (format_zone off) = (0, format_zone off)"
  by (auto simp: format_zone_def getfrac_def Let_def split: list.split)

lemma parse_clock_pad:
  assumes "0 \<le> h" and "h < 24" and "0 \<le> m" and "m < 60" and "0 \<le> s" and "s < 60"
  shows "parse_clock (pad 2 h @ CHR '':'' # pad 2 m @ CHR '':'' # pad 2 s @ r) = Some (h * 3600 + m * 60 + s, r)"
  using assms by (simp add: parse_clock_def getnum_pad)

text \<open>A time that is formatted in a zone of whole minutes reads back as itself, cut to the second.\<close>

lemma parse_format_rfc3339:
  assumes "off = 60 * k" and "\<bar>k\<bar> \<le> 1440"
    and "0 \<le> t div 1000000000 + off" and "t div 1000000000 + off < 253402300800"
  shows "parse_rfc3339 (format_rfc3339 off t) = Some (t div 1000000000 * 1000000000)"
proof -
  define l where "l = t div 1000000000 + off"
  define s where "s = l mod 86400"
  obtain y m d where c: "civil_from_days (l div 86400) = (y, m, d)" by (metis prod_cases3)
  have l: "0 \<le> l div 86400" "l div 86400 \<le> 2932896" "l = l div 86400 * 86400 + s"
    using assms(3,4) by (auto simp: l_def s_def)
  have y: "0 \<le> y" "y \<le> 9999" using civil_year [OF c l(1,2)] by simp_all
  have civ: "days_from_civil y m d = l div 86400" "1 \<le> m" "m \<le> 12" "1 \<le> d" "d \<le> days_in m y"
    using civil_round_trip [OF c] by simp_all
  have "d \<le> 31" using civ(5) by (auto simp: days_in_def split: if_splits)
  then have date: "parse_date (pad 4 y @ ''-'' @ pad 2 m @ ''-'' @ pad 2 d @ r) = Some (l div 86400, r)" for r
    using y civ by (simp add: parse_date_def getyear_pad getnum_pad)
  have hms: "0 \<le> s div 3600" "s div 3600 < 24" "0 \<le> s mod 3600 div 60" "s mod 3600 div 60 < 60"
    "0 \<le> s mod 60" "s mod 60 < 60" by (auto simp: s_def)
  have "s div 3600 * 3600 + s mod 3600 div 60 * 60 + s mod 60 = s"
  proof -
    have "s mod 60 = s mod 3600 mod 60" by (simp add: mod_mod_cancel)
    then show ?thesis using div_mult_mod_eq [of s 3600] div_mult_mod_eq [of "s mod 3600" 60] by linarith
  qed
  then have clock: "parse_clock (pad 2 (s div 3600) @ '':'' @ pad 2 (s mod 3600 div 60) @ '':'' @
      pad 2 (s mod 60) @ r) = Some (s, r)" for r
    using parse_clock_pad [OF hms] by simp
  have "format_rfc3339 off t = pad 4 y @ ''-'' @ pad 2 m @ ''-'' @ pad 2 d @ ''T'' @
      pad 2 (s div 3600) @ '':'' @ pad 2 (s mod 3600 div 60) @ '':'' @ pad 2 (s mod 60) @ format_zone off"
    unfolding format_rfc3339_def Let_def l_def [symmetric] s_def [symmetric] c by simp
  then have "parse_rfc3339 (format_rfc3339 off t) = Some ((l div 86400 * 86400 + s - off) * 1000000000)"
    using date clock by (simp add: parse_rfc3339_def format_zone_plain getzone_format [OF assms(1,2)])
  then show ?thesis using l(3) by (simp add: l_def)
qed

section \<open>Durations of whole seconds\<close>

lemma digit_nonneg: "is_digit c \<Longrightarrow> 0 \<le> digit_val c"
  by (simp add: is_digit_def digit_val_def) (metis of_nat_of_char of_nat_le_iff of_nat_numeral)

lemma dec_val_ge: "list_all is_digit ds \<Longrightarrow> 0 \<le> a \<Longrightarrow> a \<le> dec_val a ds"
proof (induction ds arbitrary: a)
  case (Cons b bs)
  have "a * 10 + digit_val b \<le> dec_val (a * 10 + digit_val b) bs"
    using Cons digit_nonneg [of b] by simp
  then show ?case using Cons.prems digit_nonneg [of b] by simp
qed simp

lemma leadingInt_digits:
  assumes "list_all is_digit ds" and "0 \<le> x" and "dec_val x ds \<le> 922337203685477580"
    and "r = [] \<or> \<not> is_digit (hd r)"
  shows "leadingInt x (ds @ r) = Some (dec_val x ds, r)"
  using assms
proof (induction ds arbitrary: x)
  case Nil
  then show ?case by (cases r) auto
next
  case (Cons c ds)
  have c: "is_digit c" "0 \<le> digit_val c" using Cons.prems(1) digit_nonneg by simp_all
  have "x * 10 + digit_val c \<le> dec_val (x * 10 + digit_val c) ds"
    using dec_val_ge [of ds "x * 10 + digit_val c"] c Cons.prems(1,2) by simp
  then show ?case using Cons c by simp
qed

lemma duration_element_unit:
  assumes "0 \<le> n" and "unitMap [c] = Some u" and "n * u \<le> max_int64" and "1000000000 \<le> u"
    and "\<not> is_digit c" and "c \<noteq> CHR ''.''" and "r = [] \<or> is_digit (hd r)"
  shows "duration_element (fmt_nat n @ c # r) = Some (n * u, r)"
proof -
  have n: "n \<le> 922337203685477580" "n \<le> 9223372036854775808 div u"
  proof -
    have "n * 1000000000 \<le> n * u" using assms(1,4) by (intro mult_left_mono) simp_all
    then show "n \<le> 922337203685477580" using assms(3) by (simp add: max_int64_def)
    have "n \<le> max_int64 div u" using zdiv_mono1 [OF assms(3), of u] assms(4) by simp
    also have "\<dots> \<le> 9223372036854775808 div u" using assms(4) by (intro zdiv_mono1) (simp_all add: max_int64_def)
    finally show "n \<le> 9223372036854775808 div u" .
  qed
  have lead: "leadingInt 0 (fmt_nat n @ c # r) = Some (n, c # r)"
    using leadingInt_digits [of "fmt_nat n" 0 "c # r"] fmt_nat_digits [OF assms(1)] assms(1,5) n(1)
    by (simp add: list_all_iff dec_val_fmt_nat)
  have "span_unit (c # r) = ([c], r)" using assms(5-7) by (cases r) auto
  moreover have "is_digit (hd (fmt_nat n @ c # r))"
    using fmt_nat_digits [OF assms(1)] fmt_nat_nonempty [of n] by (simp add: hd_append)
  ultimately show ?thesis
    using lead assms(2,3,6) n(2) fmt_nat_nonempty [of n]
    by (simp add: duration_element_def max_int64_def)
qed

lemma fmt_frac_loop_zeros: "fmt_frac_loop n (v * 10 ^ n) False [] = (False, [], v)"
  by (induction n) (simp_all add: Let_def mult.left_commute [of v 10])

lemma fmt_frac_whole: "fmt_frac (s * 1000000000) 9 = ([], s)"
  using fmt_frac_loop_zeros [of 9 s] by (simp add: fmt_frac_def)

lemma duration_loop_step:
  assumes "duration_element s = Some (v, r)" and "0 \<le> d" and "0 \<le> v" and "d + v \<le> max_int64"
  shows "duration_loop d s = duration_loop (d + v) r"
proof -
  have "s \<noteq> []" using assms(1) by (auto simp: duration_element_def)
  then show ?thesis using assms
    by (subst duration_loop.simps) (simp add: Let_def max_int64_def mod_pos_pos_trivial)
qed

lemma unit_simps: "unitMap ''h'' = Some 3600000000000" "unitMap ''m'' = Some 60000000000" "unitMap ''s'' = Some 1000000000"
  by (simp_all add: unitMap_def)

text \<open>The loop reads what \<open>Duration.String\<close> prints of a whole number of seconds.\<close>

lemma duration_loop_unit:
  assumes "0 \<le> n" and "0 \<le> d" and "unitMap [c] = Some u" and "1000000000 \<le> u" and "d + n * u \<le> max_int64"
    and "\<not> is_digit c" and "c \<noteq> CHR ''.''" and "r = [] \<or> is_digit (hd r)"
  shows "duration_loop d (fmt_nat n @ c # r) = duration_loop (d + n * u) r"
proof (rule duration_loop_step)
  have nu: "0 \<le> n * u" using assms(1,4) by simp
  then show "0 \<le> n * u" "0 \<le> d" "d + n * u \<le> max_int64" using assms(2,5) by simp_all
  show "duration_element (fmt_nat n @ c # r) = Some (n * u, r)"
    using assms nu by (intro duration_element_unit) simp_all
qed

lemma hd_fmt_nat: "0 \<le> n \<Longrightarrow> is_digit (hd (fmt_nat n @ s))"
  using fmt_nat_digits [of n] fmt_nat_nonempty [of n] by (simp add: hd_append)

lemma duration_loop_hms:
  assumes "0 \<le> s" and "s * 1000000000 \<le> max_int64" and "mins = s div 60" and "hrs = mins div 60"
  shows "duration_loop 0 ((if 0 < hrs then fmt_nat hrs @ ''h'' else []) @
    (if 0 < mins then fmt_nat (mins mod 60) @ ''m'' else []) @ fmt_nat (s mod 60) @ ''s'') = Some (s * 1000000000)"
proof -
  have split: "hrs * 3600 + mins mod 60 * 60 + s mod 60 = s" and m: "mins = hrs * 60 + mins mod 60"
    using div_mult_mod_eq [of s 60, folded assms(3)] div_mult_mod_eq [of mins 60, folded assms(4)] by linarith+
  have pos: "0 \<le> hrs" "0 \<le> mins mod 60" "0 \<le> s mod 60" using assms(1,3,4) by (simp_all add: pos_imp_zdiv_nonneg_iff)
  have b: "hrs * 3600000000000 + mins mod 60 * 60000000000 + s mod 60 * 1000000000 = s * 1000000000"
    using split by simp
  have c: "\<not> is_digit (CHR ''h'')" "\<not> is_digit (CHR ''m'')" "\<not> is_digit (CHR ''s'')"
    by (simp_all add: is_digit_def)
  have S: "duration_loop d (fmt_nat (s mod 60) @ ''s'') = Some (d + s mod 60 * 1000000000)"
    if "0 \<le> d" "d + s mod 60 * 1000000000 \<le> max_int64" for d
    using duration_loop_unit [OF pos(3) that(1) unit_simps(3) _ that(2) c(3), of "[]"]
    by (simp add: duration_loop.simps [of _ "[]"])
  have M: "duration_loop d (fmt_nat (mins mod 60) @ ''m'' @ fmt_nat (s mod 60) @ ''s'') =
      Some (d + mins mod 60 * 60000000000 + s mod 60 * 1000000000)"
    if "0 \<le> d" "d + mins mod 60 * 60000000000 + s mod 60 * 1000000000 \<le> max_int64" for d
    using duration_loop_unit [OF pos(2) that(1) unit_simps(2) _ _ c(2), of "fmt_nat (s mod 60) @ ''s''"]
      S [of "d + mins mod 60 * 60000000000"] that pos hd_fmt_nat [OF pos(3)] by simp
  have H: "duration_loop 0 (fmt_nat hrs @ ''h'' @ fmt_nat (mins mod 60) @ ''m'' @ fmt_nat (s mod 60) @ ''s'') =
      Some (s * 1000000000)"
    using duration_loop_unit [OF pos(1) _ unit_simps(1) _ _ c(1), of 0 "fmt_nat (mins mod 60) @ ''m'' @ fmt_nat (s mod 60) @ ''s''"]
      M [of "hrs * 3600000000000"] assms(2) b pos hd_fmt_nat [OF pos(2)] by simp
  show ?thesis
    using H M [of 0] S [of 0] assms(2) b pos m by (cases "0 < hrs"; cases "0 < mins") auto
qed

lemma scan_sign_digit: "is_digit (hd s) \<Longrightarrow> s \<noteq> [] \<Longrightarrow>
    scan_sign s = (False, s) \<and> scan_sign (CHR ''-'' # s) = (True, s)"
  by (cases s) (auto simp: scan_sign_def is_digit_def)

lemma parse_duration_string:
  assumes "d = s * 1000000000" and "\<bar>d\<bar> \<le> max_int64"
  shows "ParseDuration (Duration_String d) = Inr d"
proof -
  define mins where "mins = \<bar>s\<bar> div 60"
  define hrs where "hrs = mins div 60"
  define body where "body = (if 0 < hrs then fmt_nat hrs @ ''h'' else []) @
    (if 0 < mins then fmt_nat (mins mod 60) @ ''m'' else []) @ fmt_nat (\<bar>s\<bar> mod 60) @ ''s''"
  have abs: "\<bar>d\<bar> = \<bar>s\<bar> * 1000000000" using assms(1) by (simp add: abs_mult)
  have loop: "duration_loop 0 body = Some \<bar>d\<bar>"
    using duration_loop_hms [OF _ _ mins_def hrs_def] assms(2) unfolding abs body_def by simp
  have str: "Duration_String d = (if d < 0 then ''-'' else []) @ body"
  proof (cases "s = 0")
    case True
    then show ?thesis using assms(1)
      by (simp add: Duration_String_def body_def mins_def hrs_def fmt_nat.simps zero_digit)
  next
    case False
    then have "\<not> \<bar>d\<bar> < 1000000000" "\<bar>d\<bar> \<noteq> 0" unfolding abs by auto
    moreover have "fmt_frac \<bar>d\<bar> 9 = ([], \<bar>s\<bar>)" unfolding abs by (rule fmt_frac_whole)
    ultimately show ?thesis
      unfolding Duration_String_def by (simp add: Let_def body_def mins_def hrs_def)
  qed
  have "0 \<le> mins" "0 \<le> hrs" by (simp_all add: mins_def hrs_def pos_imp_zdiv_nonneg_iff)
  then have h: "is_digit (hd body)" "body \<noteq> []" "last body = CHR ''s''"
    unfolding body_def by (cases "0 < hrs"; cases "0 < mins"; simp add: hd_fmt_nat)+
  have "scan_sign (Duration_String d) = (d < 0, body)"
    unfolding str using scan_sign_digit [OF h(1,2)] by simp
  moreover have "body \<noteq> ''0''" using h(3) by auto
  moreover have "d \<le> max_int64" and "wrap64 d = d"
    using assms(2) by (simp, intro wrap64_id) (auto simp: in_int64_def min_int64_def max_int64_def)
  ultimately show ?thesis
    using loop h(2) by (simp add: ParseDuration_def)
qed

end
