(* ===== verification/StartFacts.thy ===== *)
theory StartFacts
  imports StartLoop MetricFacts TimeFacts
begin

text \<open>
  What holds across the cycles of a run: the accounting of the thresholds from the start of the
  process, and the cooldown, which bounds how often a claim is expanded.
\<close>

section \<open>Accounting\<close>

lemma run_cycle_balanced:
  "run_cycle R i st = Inr st' \<Longrightarrow> balanced name ns (st_metrics st) \<Longrightarrow> balanced name ns (st_metrics st')"
  unfolding run_cycle_def by (erule cycle_balanced) simp

section \<open>The cooldown\<close>

text \<open>The expansion object of a claim that its annotations manage reads back with the time of
  the expansion, cut to the second.\<close>

lemma annotation_distinct: "AnnotationLastExpansion \<notin> {AnnotationEnabled, AnnotationThreshold,
    AnnotationInodesThreshold, AnnotationIncrease, AnnotationMaxSize, AnnotationCooldown, AnnotationMinScaleUp}"
  by (simp add: annotation_names)

lemma annotation_or_upd:
  "annotation_or (m(k \<mapsto> v)) k' parse d = (if k' = k then parse v else annotation_or m k' parse d)"
  by (simp add: annotation_or_def)

lemma parse_expansion_object:
  assumes "ParsePVCAnnotations Q (Some p) (Some g) = Inr c"
    and "parse_rfc3339 (format_rfc3339 (r_zone R) now) = Some t"
  shows "ParsePVCAnnotations Q (Some (expansion_object R now p n)) (Some g) = Inr (c\<lparr>pc_LastExpansion := Some t\<rparr>)"
  using assms(1) annotation_distinct assms(2)
  by (auto simp: ParsePVCAnnotations_def expansion_object_def annotation_or_upd try_in_Inr
      split: option.splits if_splits)

lemma managed_by_annotations:
  assumes "ParsePVCAnnotations Q (Some p) (Some g) = Inr c"
  shows "ResolvePVCConfig Q K p g s = Inr c"
proof -
  have "\<not> explicitly_disabled p"
    using assms unfolding parse_annotations_Inr by (auto simp: explicitly_disabled_def)
  with assms show ?thesis by (simp add: resolve_Inr)
qed

definition zone_ok :: "int \<Rightarrow> bool" where
  "zone_ok off \<longleftrightarrow> (\<exists>k. off = 60 * k \<and> \<bar>k\<bar> \<le> 1440)"

text \<open>The times a timestamp can be written for and read back: 1970 to 9999, local time.\<close>

definition stamped :: "int \<Rightarrow> time \<Rightarrow> bool" where
  "stamped off now \<longleftrightarrow> 0 \<le> now div second + off \<and> now div second + off < 253402300800"

definition stamp :: "time \<Rightarrow> time" where "stamp now = now div second * second"

lemma parse_stamp:
  "zone_ok off \<Longrightarrow> stamped off now \<Longrightarrow> parse_rfc3339 (format_rfc3339 off now) = Some (stamp now)"
  using parse_format_rfc3339 [of off _ now]
  by (auto simp: zone_ok_def stamped_def stamp_def second_def)

lemma time_sub_less: "in_int64 d \<Longrightarrow> time_sub t u < d \<longleftrightarrow> t - u < d \<and> min_int64 < d"
  by (auto simp: time_sub_def in_int64_def)

lemma expansion_object_config:
  assumes "ParsePVCAnnotations (r_Q R) (Some p) (Some (r_GlobalConfig R)) = Inr c"
    and "zone_ok (r_zone R)" and "stamped (r_zone R) now"
  shows "ResolvePVCConfig (r_Q R) (r_Client R) (expansion_object R now p n) (r_GlobalConfig R) s =
    Inr (c\<lparr>pc_LastExpansion := Some (stamp now)\<rparr>)"
  using managed_by_annotations [OF parse_expansion_object [OF assms(1) parse_stamp [OF assms(2,3)]]] .

lemma cooldown_no_target:
  assumes "ParsePVCAnnotations (r_Q R) (Some p) (Some (r_GlobalConfig R)) = Inr c"
    and "zone_ok (r_zone R)" and "stamped (r_zone R) now" and "in_int64 (pc_Cooldown c)"
    and "min_int64 < pc_Cooldown c" and "later - stamp now < pc_Cooldown c"
  shows "cycle_target R later (expansion_object R now p n) mc s = None"
  using expansion_object_config [OF assms(1-3)] assms(4-6)
  by (simp add: cycle_target_def expansion_target_def may_expand_def IsInCooldown_def time_sub_less)

definition requests_set :: "('s \<Rightarrow> namespaced_name \<rightharpoonup> 'q pvc) \<Rightarrow> 's \<Rightarrow> bool" where
  "requests_set view s \<longleftrightarrow> (\<forall>k p. view s k = Some p \<longrightarrow> pvc_requests p \<noteq> None)"

text \<open>
  A cycle's input is fair to a claim \<open>k\<close> in a window of time: the goroutines are some order of
  the managed claims, the clock reads times of the window, and no other client writes \<open>k\<close>.
\<close>

definition in_window ::
  "('s \<Rightarrow> namespaced_name \<rightharpoonup> 'q pvc) \<Rightarrow> namespaced_name \<Rightarrow> time \<Rightarrow> time \<Rightarrow> ('q, 's) cycle_input \<Rightarrow> bool" where
  "in_window view k lo hi i \<longleftrightarrow> (\<forall>ps. mset (map fst (ci_sched i ps)) = mset ps) \<and>
     (\<forall>ps. \<forall>(q, a, b) \<in> set (ci_sched i ps). lo \<le> a \<and> a \<le> hi \<and> lo \<le> b \<and> b \<le> hi) \<and>
     (\<forall>s. view (ci_others i s) k = view s k)"

lemma stamped_between: "stamped off lo \<Longrightarrow> stamped off hi \<Longrightarrow> lo \<le> t \<Longrightarrow> t \<le> hi \<Longrightarrow> stamped off t"
  using zdiv_mono1 [of lo t second] zdiv_mono1 [of t hi second] by (simp add: stamped_def second_def)

lemma stamp_mono: "lo \<le> t \<Longrightarrow> stamp lo \<le> stamp t"
  using zdiv_mono1 [of lo t second] by (simp add: stamp_def second_def)

context kube_store
begin

lemma cycle_in_window:
  assumes R: "r_Client R = K" and w: "in_window view k lo hi i" and run: "run_cycle R i st = Inr st'"
    and p: "ParsePVCAnnotations (r_Q R) (Some p) (Some (r_GlobalConfig R)) = Inr c"
    and zone: "zone_ok (r_zone R)" "stamped (r_zone R) lo" "stamped (r_zone R) hi"
    and cd: "in_int64 (pc_Cooldown c)" "min_int64 < pc_Cooldown c" "hi - stamp lo < pc_Cooldown c"
  shows "view (st_server st) k = Some p \<Longrightarrow> view (st_server st') k = Some p \<or>
      (\<exists>b n. lo \<le> b \<and> b \<le> hi \<and> view (st_server st') k = Some (expansion_object R b p n))"
    and "lo \<le> b \<Longrightarrow> b \<le> hi \<Longrightarrow> view (st_server st) k = Some (expansion_object R b p n) \<Longrightarrow>
      view (st_server st') k = view (st_server st) k"
proof -
  let ?s = "ci_others i (st_server st)"
  have same: "view ?s k = view (st_server st) k" using w by (simp add: in_window_def)
  have "mset (map fst (ci_sched i ps)) = mset ps" for ps using w by (simp add: in_window_def)
  from cycle_effect [OF R this run [unfolded run_cycle_def], of k, simplified, unfolded same]
  have eff: "view (st_server st') k = view (st_server st) k \<or>
    (\<exists>mc q a b n ps. view (st_server st) k = Some q \<and> (q, a, b) \<in> set (ci_sched i ps) \<and>
      cycle_target R a q mc ?s = Some n \<and> view (st_server st') k = Some (expansion_object R b q n))"
    by blast
  have time: "lo \<le> a \<and> a \<le> hi \<and> lo \<le> b \<and> b \<le> hi" if "(q, a, b) \<in> set (ci_sched i ps)" for q a b ps
    using w that by (fastforce simp: in_window_def)
  show "view (st_server st) k = Some p \<Longrightarrow> view (st_server st') k = Some p \<or>
      (\<exists>b n. lo \<le> b \<and> b \<le> hi \<and> view (st_server st') k = Some (expansion_object R b p n))"
    using eff time by fastforce
  assume b: "lo \<le> b" "b \<le> hi" and obj: "view (st_server st) k = Some (expansion_object R b p n)"
  have "cycle_target R a (expansion_object R b p n) mc ?s = None" if "(q, a, x) \<in> set (ci_sched i ps)" for q a x ps mc
  proof (rule cooldown_no_target [OF p zone(1) _ cd(1,2)])
    show "stamped (r_zone R) b" using zone(2,3) b by (rule stamped_between)
    show "a - stamp b < pc_Cooldown c" using stamp_mono [OF b(1)] time [OF that] cd(3) by linarith
  qed
  with eff obj show "view (st_server st') k = view (st_server st) k" by fastforce
qed

text \<open>In a window shorter than the cooldown a claim is expanded at most once.\<close>

lemma expanded_once:
  assumes R: "r_Client R = K" and w: "\<forall>i \<in> set (before @ after). in_window view k lo hi i"
    and p: "ParsePVCAnnotations (r_Q R) (Some p) (Some (r_GlobalConfig R)) = Inr c"
    and zone: "zone_ok (r_zone R)" "stamped (r_zone R) lo" "stamped (r_zone R) hi"
    and cd: "in_int64 (pc_Cooldown c)" "min_int64 < pc_Cooldown c" "hi - stamp lo < pc_Cooldown c"
    and run: "tick_loop R before st = Inr st1" "tick_loop R after st1 = Inr st2"
    and start: "view (st_server st) k = Some p" and changed: "view (st_server st1) k \<noteq> Some p"
  shows "view (st_server st2) k = view (st_server st1) k"
proof -
  let ?E = "\<lambda>st. \<exists>b n. lo \<le> b \<and> b \<le> hi \<and> view (st_server st) k = Some (expansion_object R b p n)"
  note step = cycle_in_window [OF R _ _ p zone cd]
  have "view (st_server st1) k = Some p \<or> ?E st1"
  proof (rule tick_loop_invariant [OF run(1)])
    fix i s s' assume "i \<in> set before" "view (st_server s) k = Some p \<or> ?E s" "run_cycle R i s = Inr s'"
    then show "view (st_server s') k = Some p \<or> ?E s'" using w step [where i = i and st = s and st' = s'] by fastforce
  qed (use start in simp)
  then obtain b n where b: "lo \<le> b" "b \<le> hi" "view (st_server st1) k = Some (expansion_object R b p n)"
    using changed by blast
  show ?thesis
  proof (rule tick_loop_invariant [OF run(2), of "\<lambda>s. view (st_server s) k = view (st_server st1) k"])
    fix i s s' assume i: "i \<in> set after" and s: "view (st_server s) k = view (st_server st1) k"
      and r: "run_cycle R i s = Inr s'"
    have "in_window view k lo hi i" using w i by simp
    from cycle_in_window(2) [OF R this r p zone cd b(1,2)] s b(3)
    show "view (st_server s') k = view (st_server st1) k" by simp
  qed simp
qed

text \<open>A run over claims that all have requests never panics.\<close>

lemma cycle_keeps_requests:
  assumes "r_Client R = K" and "\<And>ps. mset (map fst (ci_sched i ps)) = mset ps"
    and "requests_set view (ci_others i (st_server st))" and "run_cycle R i st = Inr st'"
  shows "requests_set view (st_server st')"
  unfolding requests_set_def
proof (intro allI impI)
  fix k p assume "view (st_server st') k = Some p"
  then show "pvc_requests p \<noteq> None"
    using cycle_effect [OF assms(1,2) assms(4) [unfolded run_cycle_def], of k] assms(3)
    by (auto simp: requests_set_def expansion_object_def)
qed

lemma tick_loop_completes:
  assumes "r_Client R = K" and "\<forall>i \<in> set ticks. \<forall>ps. mset (map fst (ci_sched i ps)) = mset ps"
    and "\<forall>i \<in> set ticks. \<forall>s. requests_set view s \<longrightarrow> requests_set view (ci_others i s)"
    and "requests_set view (st_server st)"
  shows "\<exists>st'. tick_loop R ticks st = Inr st' \<and> requests_set view (st_server st')"
  using assms(2-4)
proof (induction ticks arbitrary: st)
  case (Cons i ticks)
  let ?st = "st\<lparr>st_server := ci_others i (st_server st)\<rparr>"
  have perm: "mset (map fst (ci_sched i ps)) = mset ps" for ps using Cons.prems(1) by simp
  have req: "requests_set view (ci_others i (st_server st))" using Cons.prems(2,3) by simp
  have "\<forall>p \<in> set pvcs. pvc_requests p \<noteq> None" if "kube_list_pvcs (r_Client R) (st_server ?st) = Inr pvcs" for pvcs
  proof -
    have "kube_list_pvcs K (ci_others i (st_server st)) = Inr pvcs" using that assms(1) by simp
    from list_view [OF this] req show ?thesis by (auto simp: requests_set_def)
  qed
  then obtain st1 where run: "run_cycle R i st = Inr st1"
    unfolding run_cycle_def using cycle_completes [OF perm, of R ?st] by blast
  have "requests_set view (st_server st1)" using cycle_keeps_requests [OF assms(1) perm req run] .
  with Cons.IH [of st1] Cons.prems run show ?case by simp
qed simp

end

end
