(* ===== verification/PVCGroupController.thy ===== *)
theory PVCGroupController
  imports KubeTypes
begin

text \<open>
  internal/controller/pvcgroup_controller.go: the controller that raises the requests of a
  group's members to the largest of them. The lock table around a reconciliation is modelled
  in the theory GroupLocks.
\<close>

section \<open>State and results\<close>

record ('q, 's) group_state =
  gs_server :: 's
  gs_events :: "'q event list"

datatype group_error = GetGroupFailed api_error | ListPVCsFailed api_error
  | CoordinateFailed string api_error | StatusFailed api_error

text \<open>\<open>ctrl.Result\<close> with its \<open>RequeueAfter\<close>, 0 for none.\<close>

type_synonym ctrl_result = duration

definition group_error_message :: "group_error \<Rightarrow> string" where
  "group_error_message e = (let msg = (\<lambda>a. case a of NotFound m \<Rightarrow> m | ApiError m \<Rightarrow> m) in case e of
       GetGroupFailed a \<Rightarrow> msg a | ListPVCsFailed a \<Rightarrow> msg a | StatusFailed a \<Rightarrow> msg a
     | CoordinateFailed name a \<Rightarrow> ''failed to update PVC '' @ name @ '': '' @ msg a)"

definition AnnotationGroup :: string where "AnnotationGroup = ''pvc-chonker.io/group''"

section \<open>Operations\<close>

text \<open>The filter of the members; reading a missing annotation gives the empty string.\<close>

definition in_group :: "'q PVCGroup \<Rightarrow> 'q pvc \<Rightarrow> bool" where
  "in_group g p =
     (if pvc_annotations p = None \<or>
         (case map_get (pvc_annotations p) AnnotationGroup of None \<Rightarrow> '''' | Some v \<Rightarrow> v) \<noteq> grp_name g
      then False
      else case map_get (pvc_annotations p) ''pvc-chonker.io/enabled'' of
          None \<Rightarrow> False | Some enabled \<Rightarrow> enabled = ''true'')"

definition calculateLargestSize :: "'q quantity_ops \<Rightarrow> 'q pvc list \<Rightarrow> 'q" where
  "calculateLargestSize Q pvcs = foldl (\<lambda>largest p.
     let size = pvc_request_storage Q p in if 0 < qty_cmp Q size largest then size else largest)
     (qty_zero Q) pvcs"

definition coordinated_event ::
  "'q quantity_ops \<Rightarrow> 'q PVCGroup \<Rightarrow> 'q pvc \<Rightarrow> 'q \<Rightarrow> 'q event" where
  "coordinated_event Q g p target = \<lparr>ev_type = EventNormal, ev_reason = ''PVCCoordinated'',
     ev_object = \<lparr>nn_namespace = grp_namespace g, nn_name = grp_name g\<rparr>,
     ev_args = [ArgStr (pvc_name p), ArgQty (pvc_request_storage Q p), ArgQty target]\<rparr>"

fun coordinatePVCSizes ::
  "'q quantity_ops \<Rightarrow> ('q, 'sel, 's) kube \<Rightarrow> 'q \<Rightarrow> 'q PVCGroup \<Rightarrow> 'q pvc list \<Rightarrow> ('q, 's) group_state \<Rightarrow>
   (group_error option \<times> ('q, 's) group_state) go_run" where
  "coordinatePVCSizes Q K target g [] st = Inr (None, st)"
| "coordinatePVCSizes Q K target g (p # pvcs) st =
     (if 0 \<le> qty_cmp Q (pvc_request_storage Q p) target then coordinatePVCSizes Q K target g pvcs st
      else case map_set (pvc_requests p) ResourceStorage target of
        Inl panic \<Rightarrow> Inl panic
      | Inr reqs \<Rightarrow>
          (case kube_update_pvc K (p\<lparr>pvc_requests := reqs\<rparr>) (gs_server st) of
             (Some err, s') \<Rightarrow> Inr (Some (CoordinateFailed (pvc_name p) err), st\<lparr>gs_server := s'\<rparr>)
           | (None, s') \<Rightarrow> coordinatePVCSizes Q K target g pvcs
               (st\<lparr>gs_server := s', gs_events := gs_events st @ [coordinated_event Q g p target]\<rparr>)))"

definition failed_event :: "'q PVCGroup \<Rightarrow> group_error \<Rightarrow> 'q event" where
  "failed_event g e = \<lparr>ev_type = EventWarning, ev_reason = ''CoordinationFailed'',
     ev_object = \<lparr>nn_namespace = grp_namespace g, nn_name = grp_name g\<rparr>,
     ev_args = [ArgStr (group_error_message e)]\<rparr>"

definition update_group_status ::
  "('q, 'sel, 's) kube \<Rightarrow> 'q PVCGroup \<Rightarrow> ('q, 's) group_state \<Rightarrow>
   ctrl_result \<times> group_error option \<times> ('q, 's) group_state" where
  "update_group_status K g st =
     (case kube_update_group_status K g (gs_server st) of
        (Some err, s') \<Rightarrow> (5 * second, Some (StatusFailed err), st\<lparr>gs_server := s'\<rparr>)
      | (None, s') \<Rightarrow> (10 * minute, None, st\<lparr>gs_server := s'\<rparr>))"

definition PVCGroup_Reconcile ::
  "'q quantity_ops \<Rightarrow> ('q, 'sel, 's) kube \<Rightarrow> namespaced_name \<Rightarrow> time \<Rightarrow> ('q, 's) group_state \<Rightarrow>
   (ctrl_result \<times> group_error option \<times> ('q, 's) group_state) go_run" where
  "PVCGroup_Reconcile Q K req now st =
     (case kube_get_group K req (gs_server st) of
        Inl err \<Rightarrow> if is_not_found err then Inr (0, None, st) else Inr (0, Some (GetGroupFailed err), st)
      | Inr g \<Rightarrow>
      case kube_list_pvcs_in K (grp_namespace g) (gs_server st) of
        Inl err \<Rightarrow> Inr (0, Some (ListPVCsFailed err), st)
      | Inr items \<Rightarrow>
      let activePVCs = filter (in_group g) items;
          g = g\<lparr>grp_MemberCount := wrap32 (int (length activePVCs)), grp_LastUpdated := Some now\<rparr>
      in
      if 0 < length activePVCs then
        let coordinatedSize = calculateLargestSize Q activePVCs;
            g = g\<lparr>grp_CurrentSize := Some coordinatedSize\<rparr>
        in
        case coordinatePVCSizes Q K coordinatedSize g activePVCs st of
          Inl panic \<Rightarrow> Inl panic
        | Inr (Some err, st) \<Rightarrow>
            Inr (5 * minute, Some err, st\<lparr>gs_events := gs_events st @ [failed_event g err]\<rparr>)
        | Inr (None, st) \<Rightarrow> Inr (update_group_status K g st)
      else Inr (update_group_status K g st))"

text \<open>The groups to reconcile when a claim changes.\<close>

definition findPVCGroupForPVC :: "'q pvc \<Rightarrow> namespaced_name list" where
  "findPVCGroupForPVC p =
     (if pvc_annotations p = None then []
      else case map_get (pvc_annotations p) AnnotationGroup of
        None \<Rightarrow> []
      | Some groupName \<Rightarrow>
          if groupName = '''' then []
          else [\<lparr>nn_namespace = pvc_namespace p, nn_name = groupName\<rparr>])"

section \<open>The contract of a coordination\<close>

definition coordinated :: "'q quantity_ops \<Rightarrow> 'q \<Rightarrow> 'q pvc \<Rightarrow> 'q pvc" where
  "coordinated Q target p =
     (if 0 \<le> qty_cmp Q (pvc_request_storage Q p) target then p
      else p\<lparr>pvc_requests := Some ((case pvc_requests p of None \<Rightarrow> Map.empty | Some m \<Rightarrow> m)
             (ResourceStorage \<mapsto> target))\<rparr>)"

lemma coordinated_simps [simp]:
  "pvc_key (coordinated Q target p) = pvc_key p"
  "pvc_annotations (coordinated Q target p) = pvc_annotations p"
  "pvc_namespace (coordinated Q target p) = pvc_namespace p"
  "in_group g (coordinated Q target p) = in_group g p"
  by (simp_all add: coordinated_def pvc_key_def in_group_def)

lemma coordinated_request:
  "pvc_request_storage Q (coordinated Q target p) =
    (if 0 \<le> qty_cmp Q (pvc_request_storage Q p) target then pvc_request_storage Q p else target)"
  by (simp add: coordinated_def pvc_request_storage_def resource_of_def)

text \<open>One member: skipped, a panic, or an update of its coordinated form.\<close>

lemma coordinate_Cons:
  "coordinatePVCSizes Q K target g (p # pvcs) st =
    (if 0 \<le> qty_cmp Q (pvc_request_storage Q p) target then coordinatePVCSizes Q K target g pvcs st
     else if pvc_requests p = None then Inl NilMapWrite
     else case kube_update_pvc K (coordinated Q target p) (gs_server st) of
       (Some err, s') \<Rightarrow> Inr (Some (CoordinateFailed (pvc_name p) err), st\<lparr>gs_server := s'\<rparr>)
     | (None, s') \<Rightarrow> coordinatePVCSizes Q K target g pvcs
         (st\<lparr>gs_server := s', gs_events := gs_events st @ [coordinated_event Q g p target]\<rparr>))"
  by (cases "pvc_requests p") (simp_all add: map_set_def coordinated_def)

lemma coordinate_noop:
  "\<forall>p \<in> set pvcs. 0 \<le> qty_cmp Q (pvc_request_storage Q p) target \<Longrightarrow>
    coordinatePVCSizes Q K target g pvcs st = Inr (None, st)"
  by (induction pvcs) auto

text \<open>No panic when the members have requests.\<close>

lemma coordinate_returns:
  "\<forall>p \<in> set pvcs. pvc_requests p \<noteq> None \<Longrightarrow> \<exists>r. coordinatePVCSizes Q K target g pvcs st = Inr r"
proof (induction pvcs arbitrary: st)
  case (Cons p pvcs)
  then have nn: "pvc_requests p \<noteq> None" and IH: "\<exists>r. coordinatePVCSizes Q K target g pvcs st1 = Inr r" for st1
    by auto
  show ?case
  proof (cases "kube_update_pvc K (coordinated Q target p) (gs_server st)")
    case (Pair e s')
    with nn IH show ?thesis unfolding coordinate_Cons by (cases e) auto
  qed
qed simp

lemma group_reconcile_returns:
  assumes "kube_list_pvcs_in K (grp_namespace g) (gs_server st) = Inr items"
    and "kube_get_group K req (gs_server st) = Inr g" and "\<forall>p \<in> set items. pvc_requests p \<noteq> None"
  shows "\<exists>r. PVCGroup_Reconcile Q K req now st = Inr r"
proof -
  have "\<exists>res. coordinatePVCSizes Q K T g1 (filter (in_group g) items) st = Inr res" for T g1
    using assms(3) by (intro coordinate_returns) simp
  then obtain e st1 where "coordinatePVCSizes Q K (calculateLargestSize Q (filter (in_group g) items))
      (g\<lparr>grp_MemberCount := wrap32 (int (length (filter (in_group g) items))), grp_LastUpdated := Some now,
         grp_CurrentSize := Some (calculateLargestSize Q (filter (in_group g) items))\<rparr>)
      (filter (in_group g) items) st = Inr (e, st1)" by fast
  then show ?thesis using assms(1,2) unfolding PVCGroup_Reconcile_def
    by (cases e) (simp_all add: Let_def del: split_paired_Ex)
qed

context pvc_store
begin

lemma coordinate_effect:
  assumes "coordinatePVCSizes Q K target g pvcs st = Inr (r, st')"
    and "distinct (map pvc_key pvcs)" and "\<forall>p \<in> set pvcs. view (gs_server st) (pvc_key p) = Some p"
  shows "\<exists>done rest. pvcs = done @ rest \<and> (r = None \<longleftrightarrow> rest = []) \<and>
    (\<forall>p \<in> set done. view (gs_server st') (pvc_key p) = Some (coordinated Q target p)) \<and>
    (\<forall>k. k \<notin> pvc_key ` set done \<longrightarrow> view (gs_server st') k = view (gs_server st) k)"
  using assms
proof (induction pvcs arbitrary: st)
  case Nil
  then show ?case by auto
next
  case (Cons p pvcs)
  have dist: "distinct (map pvc_key pvcs)" and new: "pvc_key p \<notin> pvc_key ` set pvcs"
    using Cons.prems(2) by auto
  show ?case
  proof (cases "0 \<le> qty_cmp Q (pvc_request_storage Q p) target")
    case True
    then have same: "coordinated Q target p = p" by (simp add: coordinated_def)
    have "coordinatePVCSizes Q K target g pvcs st = Inr (r, st')"
      and "\<forall>q \<in> set pvcs. view (gs_server st) (pvc_key q) = Some q"
      using Cons.prems(1,3) True by auto
    from Cons.IH [OF this(1) dist this(2)] obtain dn rest
      where IH: "pvcs = dn @ rest" "r = None \<longleftrightarrow> rest = []"
        "\<forall>p \<in> set dn. view (gs_server st') (pvc_key p) = Some (coordinated Q target p)"
        "\<forall>k. k \<notin> pvc_key ` set dn \<longrightarrow> view (gs_server st') k = view (gs_server st) k" by auto
    have "view (gs_server st') (pvc_key p) = Some p" using IH(1,4) new Cons.prems(3) by auto
    with IH same show ?thesis by (intro exI [of _ "p # dn"] exI [of _ rest]) auto
  next
    case low: False
    then have nn: "pvc_requests p \<noteq> None" using Cons.prems(1) unfolding coordinate_Cons
      by (auto split: if_splits)
    obtain e s' where up: "kube_update_pvc K (coordinated Q target p) (gs_server st) = (e, s')"
      by (cases "kube_update_pvc K (coordinated Q target p) (gs_server st)")
    show ?thesis
    proof (cases e)
      case (Some err)
      with low nn up Cons.prems(1) have "r = Some (CoordinateFailed (pvc_name p) err)" "gs_server st' = s'"
        unfolding coordinate_Cons by auto
      with update_err up Some show ?thesis by (intro exI [of _ "[]"] exI [of _ "p # pvcs"]) auto
    next
      case None
      let ?st = "st\<lparr>gs_server := s', gs_events := gs_events st @ [coordinated_event Q g p target]\<rparr>"
      have run: "coordinatePVCSizes Q K target g pvcs ?st = Inr (r, st')"
        using low nn up None Cons.prems(1) unfolding coordinate_Cons by auto
      have v: "view s' = (view (gs_server st))(pvc_key p \<mapsto> coordinated Q target p)"
        using update_ok [of "coordinated Q target p"] up None by simp
      have "\<forall>q \<in> set pvcs. view s' (pvc_key q) = Some q"
      proof
        fix q assume q: "q \<in> set pvcs"
        then have "pvc_key q \<noteq> pvc_key p" using new by (metis image_eqI)
        then show "view s' (pvc_key q) = Some q" using Cons.prems(3) q v by simp
      qed
      then have "\<forall>q \<in> set pvcs. view (gs_server ?st) (pvc_key q) = Some q" by simp
      from Cons.IH [OF run dist this] obtain dn rest
        where IH: "pvcs = dn @ rest" "r = None \<longleftrightarrow> rest = []"
          "\<forall>p \<in> set dn. view (gs_server st') (pvc_key p) = Some (coordinated Q target p)"
          "\<forall>k. k \<notin> pvc_key ` set dn \<longrightarrow> view (gs_server st') k = view s' k" by auto
      have "pvc_key p \<notin> pvc_key ` set dn" using IH(1) new by auto
      then have "view (gs_server st') (pvc_key p) = Some (coordinated Q target p)"
        using IH(4) v by simp
      moreover have "\<forall>k. k \<notin> pvc_key ` set (p # dn) \<longrightarrow> view (gs_server st') k = view (gs_server st) k"
        using IH(4) v by simp
      ultimately show ?thesis
        using IH(1-3) by (intro exI [of _ "p # dn"] exI [of _ rest]) simp
    qed
  qed
qed

end

section \<open>The largest request\<close>

context quantity_api
begin

lemma largest_foldl:
  fixes pvcs :: "'q pvc list"
  defines "step \<equiv> \<lambda>largest p. let size = pvc_request_storage Q p in
    if 0 < qty_cmp Q size largest then size else largest"
  shows "amount a \<le> amount (foldl step a pvcs)"
    and "\<forall>p \<in> set pvcs. amount (pvc_request_storage Q p) \<le> amount (foldl step a pvcs)"
    and "foldl step a pvcs = a \<or> (\<exists>p \<in> set pvcs. foldl step a pvcs = pvc_request_storage Q p)"
proof -
  have "amount a \<le> amount (foldl step a pvcs) \<and>
    (\<forall>p \<in> set pvcs. amount (pvc_request_storage Q p) \<le> amount (foldl step a pvcs)) \<and>
    (foldl step a pvcs = a \<or> (\<exists>p \<in> set pvcs. foldl step a pvcs = pvc_request_storage Q p))"
  proof (induction pvcs arbitrary: a)
    case (Cons p pvcs)
    have "amount a \<le> amount (step a p)" "amount (pvc_request_storage Q p) \<le> amount (step a p)"
      and "step a p = a \<or> step a p = pvc_request_storage Q p"
      by (auto simp: step_def Let_def cmp_pos)
    with Cons.IH [of "step a p"] show ?case by fastforce
  qed simp
  then show "amount a \<le> amount (foldl step a pvcs)"
    and "\<forall>p \<in> set pvcs. amount (pvc_request_storage Q p) \<le> amount (foldl step a pvcs)"
    and "foldl step a pvcs = a \<or> (\<exists>p \<in> set pvcs. foldl step a pvcs = pvc_request_storage Q p)"
    by auto
qed

lemma largest_upper:
  "p \<in> set pvcs \<Longrightarrow> amount (pvc_request_storage Q p) \<le> amount (calculateLargestSize Q pvcs)"
  using largest_foldl(2) unfolding calculateLargestSize_def by blast

lemma largest_attained:
  "amount (calculateLargestSize Q pvcs) = 0 \<or>
    (\<exists>p \<in> set pvcs. calculateLargestSize Q pvcs = pvc_request_storage Q p)"
  using largest_foldl(3) [of "qty_zero Q" pvcs] unfolding calculateLargestSize_def
  by (auto simp: zero_amount)

lemma largest_nonneg: "0 \<le> amount (calculateLargestSize Q pvcs)"
  using largest_foldl(1) [of "qty_zero Q" pvcs] unfolding calculateLargestSize_def
  by (simp add: zero_amount)

lemma largest_Max:
  "amount (calculateLargestSize Q pvcs) =
    Max (insert 0 (amount ` pvc_request_storage Q ` set pvcs))"
  by (rule Max_eqI [symmetric])
    (use largest_upper largest_attained largest_nonneg in \<open>fastforce+\<close>)

lemma coordinated_amount:
  "amount (pvc_request_storage Q (coordinated Q target p)) =
    max (amount (pvc_request_storage Q p)) (amount target)"
  by (auto simp: coordinated_request cmp_nonneg max_def)

end

text \<open>Both libraries together, as the group controller uses them.\<close>

locale group_env = quantity_api Q amount + pvc_store K view
  for Q :: "'q quantity_ops" and amount :: "'q \<Rightarrow> rat"
    and K :: "('q, 'sel, 's) kube" and view :: "'s \<Rightarrow> namespaced_name \<rightharpoonup> 'q pvc"
begin

text \<open>The active members a server stores for a group.\<close>

definition members :: "'q PVCGroup \<Rightarrow> 's \<Rightarrow> 'q pvc set" where
  "members g s = {p. pvc_namespace p = grp_namespace g \<and> in_group g p \<and> view s (pvc_key p) = Some p}"

lemma listed_members: "kube_list_pvcs_in K (grp_namespace g) s = Inr items \<Longrightarrow>
    set (filter (in_group g) items) = members g s"
  using list_in_view by (auto simp: members_def)

text \<open>What a reconciliation does to the claims: the coordination of the members, or nothing.\<close>

lemma reconcile_claims:
  assumes get: "kube_get_group K req (gs_server st) = Inr g"
    and list: "kube_list_pvcs_in K (grp_namespace g) (gs_server st) = Inr items"
    and run: "PVCGroup_Reconcile Q K req now st = Inr (d, r, st')"
  defines "active \<equiv> filter (in_group g) items"
  shows "\<exists>g' e st1. coordinatePVCSizes Q K (calculateLargestSize Q active) g' active st = Inr (e, st1) \<and>
    view (gs_server st') = view (gs_server st1) \<and> (r = None \<longrightarrow> e = None)"
proof -
  have status: "view (gs_server st2) = view (gs_server st1)"
    if "update_group_status K g1 st1 = (d1, r1, st2)" for g1 st1 d1 r1 st2
    using that group_status_view by (auto simp: update_group_status_def split: prod.splits option.splits)
  show ?thesis
  proof (cases "active = []")
    case True
    with get list run have "update_group_status K (g\<lparr>grp_MemberCount := 0, grp_LastUpdated := Some now\<rparr>) st
        = (d, r, st')"
      unfolding PVCGroup_Reconcile_def active_def by (simp add: Let_def wrap32_id)
    then show ?thesis using status True by auto
  next
    case False
    define T where "T = calculateLargestSize Q active"
    define g1 where "g1 = g\<lparr>grp_MemberCount := wrap32 (int (length active)),
      grp_LastUpdated := Some now, grp_CurrentSize := Some T\<rparr>"
    have "PVCGroup_Reconcile Q K req now st =
      (case coordinatePVCSizes Q K T g1 active st of
         Inl panic \<Rightarrow> Inl panic
       | Inr (Some err, st) \<Rightarrow>
           Inr (5 * minute, Some err, st\<lparr>gs_events := gs_events st @ [failed_event g1 err]\<rparr>)
       | Inr (None, st) \<Rightarrow> Inr (update_group_status K g1 st))"
      using get list False unfolding PVCGroup_Reconcile_def T_def g1_def active_def
      by (simp add: Let_def)
    with run obtain e st1 where "coordinatePVCSizes Q K T g1 active st = Inr (e, st1)"
      and "view (gs_server st') = view (gs_server st1)" and "r = None \<longrightarrow> e = None"
      by (auto split: sum.splits prod.splits option.splits dest: status)
    then show ?thesis unfolding T_def by blast
  qed
qed

lemma reconcile_members:
  assumes get: "kube_get_group K req (gs_server st) = Inr g"
    and list: "kube_list_pvcs_in K (grp_namespace g) (gs_server st) = Inr items"
    and run: "PVCGroup_Reconcile Q K req now st = Inr (d, r, st')"
  shows "\<exists>T ps. amount T = Max (insert 0 (amount ` pvc_request_storage Q ` members g (gs_server st))) \<and>
    ps \<subseteq> members g (gs_server st) \<and> (r = None \<longrightarrow> ps = members g (gs_server st)) \<and>
    (\<forall>p \<in> ps. view (gs_server st') (pvc_key p) = Some (coordinated Q T p)) \<and>
    (\<forall>k. k \<notin> pvc_key ` ps \<longrightarrow> view (gs_server st') k = view (gs_server st) k)"
proof -
  define active where "active = filter (in_group g) items"
  have set: "set active = members g (gs_server st)"
    using listed_members [OF list] by (simp add: active_def)
  obtain g' e st1 where c: "coordinatePVCSizes Q K (calculateLargestSize Q active) g' active st = Inr (e, st1)"
    and v: "view (gs_server st') = view (gs_server st1)" and "r = None \<longrightarrow> e = None"
    using reconcile_claims [OF assms] unfolding active_def by blast
  have "distinct (map pvc_key active)"
    using list_in_distinct [OF list] by (simp add: active_def distinct_map_filter)
  moreover have "\<forall>p \<in> set active. view (gs_server st) (pvc_key p) = Some p"
    unfolding set by (simp add: members_def)
  ultimately obtain dn rest where "active = dn @ rest" "e = None \<longleftrightarrow> rest = []"
    and "\<forall>p \<in> set dn. view (gs_server st1) (pvc_key p) = Some (coordinated Q (calculateLargestSize Q active) p)"
    and "\<forall>k. k \<notin> pvc_key ` set dn \<longrightarrow> view (gs_server st1) k = view (gs_server st) k"
    using coordinate_effect [OF c] by blast
  moreover from this have "set dn \<subseteq> members g (gs_server st)"
    and "r = None \<longrightarrow> set dn = members g (gs_server st)"
    using \<open>r = None \<longrightarrow> e = None\<close> unfolding set [symmetric] by auto
  ultimately show ?thesis
    using largest_Max [of active] v unfolding set by (intro exI [of _ "calculateLargestSize Q active"] exI [of _ "set dn"]) simp
qed

lemma members_finite: "kube_list_pvcs_in K (grp_namespace g) s = Inr items \<Longrightarrow> finite (members g s)"
  using listed_members by (metis List.finite_set)

lemma in_group_cong: "grp_name g' = grp_name g \<Longrightarrow> in_group g' = in_group g"
  by (simp add: in_group_def fun_eq_iff)

text \<open>After a success every member of the group has the group's size, so a further run is a no-op.\<close>

lemma members_after:
  assumes get: "kube_get_group K req (gs_server st) = Inr g"
    and list: "kube_list_pvcs_in K (grp_namespace g) (gs_server st) = Inr items"
    and run: "PVCGroup_Reconcile Q K req now st = Inr (d, None, st')"
    and p: "p \<in> members g (gs_server st')"
  shows "amount (pvc_request_storage Q p) =
    Max (insert 0 (amount ` pvc_request_storage Q ` members g (gs_server st)))"
proof -
  let ?M = "members g (gs_server st)"
  obtain T where T: "amount T = Max (insert 0 (amount ` pvc_request_storage Q ` ?M))"
    and on: "\<forall>p \<in> ?M. view (gs_server st') (pvc_key p) = Some (coordinated Q T p)"
    and off: "\<forall>k. k \<notin> pvc_key ` ?M \<longrightarrow> view (gs_server st') k = view (gs_server st) k"
    using reconcile_members [OF get list run] by auto
  have p': "pvc_namespace p = grp_namespace g" "in_group g p" "view (gs_server st') (pvc_key p) = Some p"
    using p by (auto simp: members_def)
  have "pvc_key p \<in> pvc_key ` ?M"
    using off p' by (cases "pvc_key p \<in> pvc_key ` ?M") (auto simp: members_def)
  then obtain q where q: "q \<in> ?M" "pvc_key q = pvc_key p" by (metis imageE)
  then have "p = coordinated Q T q" using on p'(3) by (metis option.inject)
  moreover have "amount (pvc_request_storage Q q) \<le> amount T"
    unfolding T using q(1) members_finite [OF list] by (intro Max_ge) auto
  ultimately show ?thesis unfolding T [symmetric] by (simp add: coordinated_amount max_def)
qed

lemma reconcile_fixpoint:
  assumes "kube_get_group K req (gs_server st) = Inr g"
    and "kube_list_pvcs_in K (grp_namespace g) (gs_server st) = Inr items"
    and "PVCGroup_Reconcile Q K req now st = Inr (d, None, st')"
    and "kube_get_group K req (gs_server st') = Inr g'"
    and same: "grp_namespace g' = grp_namespace g" "grp_name g' = grp_name g"
    and list': "kube_list_pvcs_in K (grp_namespace g') (gs_server st') = Inr items'"
    and "PVCGroup_Reconcile Q K req now' st' = Inr (d', r', st'')"
  shows "view (gs_server st'') = view (gs_server st')"
proof
  fix k
  let ?m = "Max (insert 0 (amount ` pvc_request_storage Q ` members g (gs_server st)))"
  have mem: "members g' (gs_server st') = members g (gs_server st')"
    using same in_group_cong [OF same(2)] by (simp add: members_def)
  have each: "amount (pvc_request_storage Q p) = ?m" if "p \<in> members g (gs_server st')" for p
    using that by (rule members_after [OF assms(1-3)])
  obtain T ps where T: "amount T = Max (insert 0 (amount ` pvc_request_storage Q ` members g (gs_server st')))"
    and ps: "ps \<subseteq> members g (gs_server st')"
    and on: "\<forall>p \<in> ps. view (gs_server st'') (pvc_key p) = Some (coordinated Q T p)"
    and off: "\<forall>k. k \<notin> pvc_key ` ps \<longrightarrow> view (gs_server st'') k = view (gs_server st') k"
    using reconcile_members [OF assms(4) list' assms(8)] unfolding mem by auto
  show "view (gs_server st'') k = view (gs_server st') k"
  proof (cases "k \<in> pvc_key ` ps")
    case False
    then show ?thesis using off by simp
  next
    case True
    then obtain p where p: "p \<in> ps" "k = pvc_key p" by (metis imageE)
    then have pm: "p \<in> members g (gs_server st')" using ps by auto
    have "0 \<le> ?m" by (intro Max_ge) (use members_finite [OF assms(2)] in auto)
    moreover have "insert 0 (amount ` pvc_request_storage Q ` members g (gs_server st')) = {0, ?m}"
      using each pm by (auto simp: image_iff)
    ultimately have "amount T = ?m" using T by (simp add: max_def)
    then have "coordinated Q T p = p" using each [OF pm] by (simp add: coordinated_def cmp_nonneg)
    then show ?thesis using on p pm by (simp add: members_def)
  qed
qed

end

end
