(* ===== verification/Samples.thy ===== *)
theory Samples
  imports RefCluster StartFacts PVCGroupController
begin

text \<open>
  A concrete cluster: one claim of 10Gi that is 90 percent full, on an expandable class, with the
  default configuration. The concrete runs of the properties start here.
\<close>

definition gi :: "int \<Rightarrow> int" where "gi n = n * 1073741824 * nano"

definition sample_pvc :: "int pvc" where
  "sample_pvc = \<lparr>pvc_namespace = ''apps'', pvc_name = ''db'', pvc_labels = Map.empty,
     pvc_annotations = Some [AnnotationEnabled \<mapsto> ''true'', AnnotationGroup \<mapsto> ''g''], pvc_volume_mode = None,
     pvc_storage_class = Some ''fast'', pvc_requests = Some [ResourceStorage \<mapsto> gi 10],
     pvc_phase = ''Bound'', pvc_capacity = Some [ResourceStorage \<mapsto> gi 10], pvc_conditions = []\<rparr>"

definition sample_global :: "int GlobalConfig" where
  "sample_global = \<lparr>gc_Threshold = FFin 80, gc_InodesThreshold = FFin 80, gc_Increase = ''10%'',
     gc_Cooldown = 15 * minute, gc_MinScaleUp = gi 1, gc_MaxSize = 0\<rparr>"

definition sample_config :: "int PVCConfig" where
  "sample_config = \<lparr>pc_Enabled = True, pc_Threshold = FFin 80, pc_InodesThreshold = FFin 80,
     pc_Increase = ''10%'', pc_MaxSize = 0, pc_Cooldown = 15 * minute, pc_MinScaleUp = gi 1,
     pc_LastExpansion = None\<rparr>"

definition small_pvc :: "int pvc" where
  "small_pvc = sample_pvc\<lparr>pvc_name := ''log'', pvc_requests := Some [ResourceStorage \<mapsto> gi 4]\<rparr>"

definition sample_group :: "int PVCGroup" where
  "sample_group = \<lparr>grp_namespace = ''apps'', grp_name = ''g'',
     grp_Template = \<lparr>gt_Enabled = None, gt_Threshold = Some ''70%'', gt_InodesThreshold = None,
       gt_Increase = None, gt_MaxSize = Some (gi 100), gt_MinScaleUp = None, gt_Cooldown = None\<rparr>,
     grp_MemberCount = 0, grp_CurrentSize = None, grp_LastExpansion = None, grp_LastUpdated = None\<rparr>"

definition sample_server :: ref_server where
  "sample_server = \<lparr>rs_pvcs = [sample_pvc, small_pvc], rs_policies = [], rs_groups = [sample_group],
     rs_classes = [(''fast'', \<lparr>sc_allow_expansion = Some True, sc_parameters = Map.empty\<rparr>)],
     rs_conflicts = []\<rparr>"

definition sample_policy :: "(int, ref_selector) PVCPolicy" where
  "sample_policy = \<lparr>pol_namespace = ''apps'', pol_name = ''p'', pol_Selector = Some [],
     pol_Template = \<lparr>pt_Enabled = None, pt_Threshold = Some ''70%'', pt_InodesThreshold = None,
       pt_Increase = None, pt_MaxSize = None, pt_MinScaleUp = None, pt_Cooldown = None\<rparr>,
     pol_MatchedPVCs = 0, pol_LastUpdated = None\<rparr>"

definition sample_policy_server :: ref_server where
  "sample_policy_server = sample_server\<lparr>rs_policies := [sample_policy]\<rparr>"

definition sample_reconciler :: "(int, ref_selector, ref_server) Reconciler" where
  "sample_reconciler = \<lparr>r_Client = ref_kube, r_Q = ref_quantity, r_oob = amd64_oob, r_zone = 0,
     r_GlobalConfig = sample_global, r_WatchInterval = 300 * second, r_DryRun = False, r_MaxParallel = 4\<rparr>"

definition sample_state :: "(int, ref_server) rstate" where
  "sample_state = \<lparr>st_server = sample_server, st_cache = NewStorageClassCache, st_metrics = [], st_events = []\<rparr>"

definition sample_usage :: VolumeMetrics where
  "sample_usage = zero_metrics\<lparr>vm_CapacityBytes := 100, vm_UsagePercent := FFin 90\<rparr>"

definition sample_cache :: MetricsCache where
  "sample_cache = [''apps/db'' \<mapsto> sample_usage]"

section \<open>Evaluation\<close>

lemma sample_values [simp]:
  "qty_value ref_quantity (gi 10) = 10737418240" "qty_value ref_quantity (gi 1) = 1073741824"
  "ref_amount (gi n) = of_int (n * 1073741824)"
  by (simp_all add: ref_quantity_def ref_value_def gi_def nano_def saturate64_def min_int64_def
      max_int64_def ref_amount_def)

lemma sample_capacity [simp]:
  "pvc_capacity_storage ref_quantity sample_pvc = gi 10"
  "pvc_request_storage ref_quantity sample_pvc = gi 10"
  "pvc_request_storage ref_quantity small_pvc = gi 4"
  by (simp_all add: pvc_capacity_storage_def pvc_request_storage_def resource_of_def sample_pvc_def small_pvc_def)

lemma sample_increase: "increase_of oob ref_quantity ''10%'' (gi 10) = Inr 1073741824"
proof -
  have "TrimSpace ''10%'' = ''10%''" by code_simp
  moreover have "HasSuffix ''10%'' ''%''" "TrimSuffix ''10%'' ''%'' = ''10''"
    by (simp_all add: HasSuffix_def TrimSuffix_def)
  moreover have "ParseFloat ''10'' = Inr (FFin (of_int 10))"
    using to_f64_small_int [of 10]
    by (subst ParseFloat_digits) (auto simp: is_digit_def digit_val_def)
  ultimately show ?thesis
    using percent_increase_exact [of "''10%''" 10 ref_quantity "gi 10" oob] by simp
qed

lemma sample_new_size:
  "CalculateNewSize oob ref_quantity (Some sample_config) (gi 10) = Inr (gi 11)"
  using sample_increase [of oob]
  by (simp add: CalculateNewSize_def sample_config_def Let_def wrap64_id in_int64_def min_int64_def
      max_int64_def round_to_gib_def gibBoundary_def go_div_nonneg ref_quantity_def gi_def
      ref_value_def nano_def saturate64_def)

lemma sample_parse:
  "ParsePVCAnnotations ref_quantity (Some sample_pvc) (Some sample_global) = Inr sample_config"
  "ParsePVCAnnotations ref_quantity (Some small_pvc) (Some sample_global) = Inr sample_config"
proof -
  have "ToLower ''true'' = ''true''" by code_simp
  then show "ParsePVCAnnotations ref_quantity (Some sample_pvc) (Some sample_global) = Inr sample_config"
    "ParsePVCAnnotations ref_quantity (Some small_pvc) (Some sample_global) = Inr sample_config"
    unfolding parse_annotations_Inr
    by (simp_all add: sample_pvc_def small_pvc_def sample_global_def sample_config_def annotation_names AnnotationGroup_def)
qed

lemma sample_resolve:
  "ResolvePVCConfig ref_quantity ref_kube sample_pvc sample_global s = Inr sample_config"
  "ResolvePVCConfig ref_quantity ref_kube small_pvc sample_global s = Inr sample_config"
  using sample_parse by (auto intro: resolve_annotations)

lemma sample_expandable: "expandable_now ref_kube sample_server sample_pvc"
  by (simp add: expandable_now_def class_answer_def ref_kube_def sample_server_def sample_pvc_def
      found_def class_expandable_def)

lemma sample_may_expand: "may_expand sample_reconciler now sample_pvc sample_cache True sample_config"
  by (simp add: may_expand_def IsPVCEligible_def IsPvcResizing_def IsInCooldown_def sample_pvc_def
      sample_config_def sample_cache_def mc_Get_def keyFromNamespacedName_def pvc_key_def
      storage_reached_def sample_usage_def f_le_def)

lemma sample_max: "\<not> ExceedsMaxSize ref_quantity (Some sample_config) q"
  by (simp add: ExceedsMaxSize_def sample_config_def ref_quantity_def)

lemma sample_target: "cycle_target sample_reconciler now sample_pvc sample_cache sample_server = Some (gi 11)"
  using sample_resolve(1) [of sample_server] sample_may_expand [of now] sample_expandable
    sample_new_size [of amd64_oob] sample_max [of "gi 11"]
  by (simp add: cycle_target_def expansion_target_def target_size_def sample_reconciler_def)

lemma sample_state_ok: "cache_ok sample_reconciler sample_state"
  by (simp add: sample_state_def NewStorageClassCache_def scc.coherent_def cache_Get_def)

lemma sample_view [simp]:
  "ref_view sample_server (pvc_key sample_pvc) = Some sample_pvc"
  "ref_view sample_server (pvc_key small_pvc) = Some small_pvc"
  by (simp_all add: ref_view_def sample_server_def small_pvc_def sample_pvc_def pvc_key_def)

lemma sample_keys: "pvc_key small_pvc \<noteq> pvc_key sample_pvc"
  by (simp add: small_pvc_def sample_pvc_def pvc_key_def)

lemma sample_listed:
  "kube_list_pvcs ref_kube sample_server = Inr [sample_pvc, small_pvc]"
  "kube_list_pvcs_in ref_kube ''apps'' sample_server = Inr [sample_pvc, small_pvc]"
  using sample_keys by (simp_all add: ref_kube_def sample_server_def)
    (simp add: sample_pvc_def small_pvc_def)

lemma sample_requests: "pvc_requests sample_pvc \<noteq> None" "pvc_requests small_pvc \<noteq> None"
  by (simp_all add: sample_pvc_def small_pvc_def)

section \<open>Runs\<close>

text \<open>From any state over the sample server whose cache is coherent, the claim is expanded.\<close>

lemma sample_run_from:
  assumes srv: "st_server st = sample_server" and ok: "cache_ok sample_reconciler st"
  obtains st' where "reconcilePVC sample_reconciler now1 now2 sample_pvc sample_cache st = Inr st'"
    and "ref_view (st_server st') (pvc_key sample_pvc) = Some (expansion_object sample_reconciler now2 sample_pvc (gi 11))"
proof -
  obtain e st1 where e: "IsStorageClassExpandable sample_reconciler sample_pvc st = (e, st1)"
    by (cases "IsStorageClassExpandable sample_reconciler sample_pvc st")
  have K: "r_Client sample_reconciler = ref_kube" by (simp add: sample_reconciler_def)
  obtain st' where run: "reconcilePVC sample_reconciler now1 now2 sample_pvc sample_cache st = Inr st'"
    using reconcile_panic [OF e, of now1 now2 sample_cache]
    by (cases "reconcilePVC sample_reconciler now1 now2 sample_pvc sample_cache st")
      (auto simp: sample_pvc_def)
  have "e" using expandable_transparent(1) [OF ok e] sample_expandable srv K by simp
  then have "expansion_target sample_reconciler now1 sample_pvc sample_cache e sample_server = Some (gi 11)"
    using sample_target [of now1] sample_expandable K by (simp add: cycle_target_def)
  with reconcile_server [OF e run] srv K
  have "st_server st' = snd (ref_update_pvc (expansion_object sample_reconciler now2 sample_pvc (gi 11)) sample_server)"
    by (simp add: ref_kube_def)
  moreover have "fst (ref_update_pvc (expansion_object sample_reconciler now2 sample_pvc (gi 11)) sample_server) = None"
    by (simp add: ref_update_pvc_def ref_view_def sample_server_def)
  ultimately have "ref_view (st_server st') (pvc_key sample_pvc) =
      Some (expansion_object sample_reconciler now2 sample_pvc (gi 11))"
    using ref_update_ok [of "expansion_object sample_reconciler now2 sample_pvc (gi 11)" sample_server]
    by (simp add: prod_eq_iff)
  with run show thesis by (rule that)
qed

lemma sample_run:
  obtains st' where "reconcilePVC sample_reconciler now1 now2 sample_pvc sample_cache sample_state = Inr st'"
    and "ref_view (st_server st') (pvc_key sample_pvc) = Some (expansion_object sample_reconciler now2 sample_pvc (gi 11))"
  using sample_run_from [OF _ sample_state_ok] by (auto simp: sample_state_def)

lemma sample_grows: "expansion_object sample_reconciler now sample_pvc (gi 11) \<noteq> sample_pvc"
proof
  assume eq: "expansion_object sample_reconciler now sample_pvc (gi 11) = sample_pvc"
  have "map_get (pvc_requests (expansion_object sample_reconciler now sample_pvc (gi 11))) ResourceStorage = Some (gi 11)"
    by (simp add: expansion_object_def)
  moreover have "map_get (pvc_requests sample_pvc) ResourceStorage = Some (gi 10)"
    by (simp add: sample_pvc_def)
  ultimately have "gi 11 = gi 10" unfolding eq by simp
  then show False by (simp add: gi_def nano_def)
qed

text \<open>A cycle over the sample cluster, its claims in the order of the list at time 0.\<close>

definition sample_input :: "(int, ref_server) cycle_input" where
  "sample_input = \<lparr>ci_others = (\<lambda>s. s), ci_fetched = Inr sample_cache, ci_sched = map (\<lambda>p. (p, 0, 0)),
     ci_duration = FFin 1, ci_finished = FFin 2\<rparr>"

lemma sample_managed: "managed_pvcs sample_reconciler sample_server [sample_pvc, small_pvc] = [sample_pvc, small_pvc]"
  using sample_resolve by (simp add: managed_pvcs_def sample_reconciler_def)

lemma sample_cycle:
  assumes "st_server st = sample_server"
  obtains st' where "run_cycle sample_reconciler sample_input st = Inr st'"
    and "ref_view (st_server st') (pvc_key sample_pvc) = Some (expansion_object sample_reconciler 0 sample_pvc (gi 11))"
proof -
  have K: "r_Client sample_reconciler = ref_kube" by (simp add: sample_reconciler_def)
  let ?st0 = "cycle_start sample_reconciler [sample_pvc, small_pvc] st"
  have "cache_ok sample_reconciler ?st0" unfolding cycle_start_simps by (rule scc.coherent_clear)
  then obtain st1 where r1: "reconcilePVC sample_reconciler 0 0 sample_pvc sample_cache ?st0 = Inr st1"
    and v1: "ref_view (st_server st1) (pvc_key sample_pvc) = Some (expansion_object sample_reconciler 0 sample_pvc (gi 11))"
    and ok: "cache_ok sample_reconciler st1"
    using sample_run_from [of ?st0 0 0] assms kube_store.step_effect(1) [OF ref_api.kube_store_axioms K] by (metis cycle_start_simps(1))
  have "reconcilePVC sample_reconciler 0 0 small_pvc sample_cache st1 \<noteq> Inl panic" for panic
    using reconcile_panic [of sample_reconciler small_pvc st1] sample_requests by (metis surj_pair)
  then obtain st2 where r2: "reconcilePVC sample_reconciler 0 0 small_pvc sample_cache st1 = Inr st2"
    by (cases "reconcilePVC sample_reconciler 0 0 small_pvc sample_cache st1") auto
  have v2: "ref_view (st_server st2) (pvc_key sample_pvc) = ref_view (st_server st1) (pvc_key sample_pvc)"
    using kube_store.step_effect(4) [OF ref_api.kube_store_axioms K ok r2] sample_keys by metis
  have same: "st\<lparr>st_server := ci_others sample_input (st_server st)\<rparr> = st" by (simp add: sample_input_def)
  have "run_cycle sample_reconciler sample_input st = Inr (record_metrics (finish_trace (FFin 1) (FFin 2)) st2)"
    using reconcileAll_runs [of sample_reconciler st "[sample_pvc, small_pvc]"] assms sample_listed(1) r1 r2
    unfolding run_cycle_def same by (simp add: sample_input_def K sample_managed)
  then show thesis by (rule that) (simp add: v1 v2)
qed

end
