(* ===== verification/Sanitize.thy ===== *)
theory Sanitize
  imports Prelude
begin

text \<open>
  pkg/utils/sanitize.go. A string is its bytes; ranging over it decodes UTF-8 the way Go does,
  and \<open>WriteRune\<close> encodes. \<open>unicode.IsPrint\<close> on a rune and the package \<open>net/url\<close> are parameters.
\<close>

section \<open>UTF-8\<close>

abbreviation byte :: "char \<Rightarrow> int" where "byte c \<equiv> of_char c"

definition RuneError :: int where "RuneError = 65533"

definition tail_byte :: "char \<Rightarrow> bool" where "tail_byte c \<longleftrightarrow> 128 \<le> byte c \<and> byte c \<le> 191"

text \<open>The range the second byte must be in, by the first: 1, 0 where no sequence starts.\<close>

definition second_range :: "int \<Rightarrow> int \<times> int" where
  "second_range b = (if b = 224 then (160, 191) else if b = 237 then (128, 159)
     else if b = 240 then (144, 191) else if b = 244 then (128, 143) else (128, 191))"

definition second_ok :: "char \<Rightarrow> char \<Rightarrow> bool" where
  "second_ok a b \<longleftrightarrow> fst (second_range (byte a)) \<le> byte b \<and> byte b \<le> snd (second_range (byte a))"

text \<open>The first rune of a string and what is left.\<close>

fun decode_rune :: "string \<Rightarrow> int \<times> string" where
  "decode_rune [] = (RuneError, [])"
| "decode_rune (a # s) =
     (if byte a < 128 then (byte a, s)
      else if 194 \<le> byte a \<and> byte a \<le> 223 then
        (case s of b # t \<Rightarrow>
           if second_ok a b then ((byte a - 192) * 64 + (byte b - 128), t) else (RuneError, s)
         | _ \<Rightarrow> (RuneError, s))
      else if 224 \<le> byte a \<and> byte a \<le> 239 then
        (case s of b # c # t \<Rightarrow>
           if second_ok a b \<and> tail_byte c
           then ((byte a - 224) * 4096 + (byte b - 128) * 64 + (byte c - 128), t) else (RuneError, s)
         | _ \<Rightarrow> (RuneError, s))
      else if 240 \<le> byte a \<and> byte a \<le> 244 then
        (case s of b # c # d # t \<Rightarrow>
           if second_ok a b \<and> tail_byte c \<and> tail_byte d
           then ((byte a - 240) * 262144 + (byte b - 128) * 4096 + (byte c - 128) * 64 + (byte d - 128), t)
           else (RuneError, s)
         | _ \<Rightarrow> (RuneError, s))
      else (RuneError, s))"

lemma decode_rune_shorter: "s \<noteq> [] \<Longrightarrow> length (snd (decode_rune s)) < length s"
  by (cases s) (auto split: list.splits)

function runes :: "string \<Rightarrow> int list" where
  "runes s = (if s = [] then [] else fst (decode_rune s) # runes (snd (decode_rune s)))"
  by pat_completeness auto
termination
  by (relation "measure length") (auto intro: decode_rune_shorter)

declare runes.simps [simp del]

definition encode_rune :: "int \<Rightarrow> string" where
  "encode_rune r =
     (let r = (if r < 0 \<or> 1114111 < r \<or> 55296 \<le> r \<and> r \<le> 57343 then RuneError else r) in
      if r < 128 then [char_of r]
      else if r < 2048 then [char_of (192 + r div 64), char_of (128 + r mod 64)]
      else if r < 65536 then
        [char_of (224 + r div 4096), char_of (128 + r div 64 mod 64), char_of (128 + r mod 64)]
      else
        [char_of (240 + r div 262144), char_of (128 + r div 4096 mod 64),
         char_of (128 + r div 64 mod 64), char_of (128 + r mod 64)])"

section \<open>The package\<close>

definition keep_rune :: "(int \<Rightarrow> bool) \<Rightarrow> int \<Rightarrow> bool" where
  "keep_rune IsPrint r \<longleftrightarrow> IsPrint r \<and> r \<noteq> 10 \<and> r \<noteq> 13 \<and> r \<noteq> 27"

definition SanitizeForLogging :: "(int \<Rightarrow> bool) \<Rightarrow> string \<Rightarrow> string" where
  "SanitizeForLogging IsPrint input = concat (map encode_rune (filter (keep_rune IsPrint) (runes input)))"

text \<open>\<open>net/url\<close>: parsing, and printing a URL after its user and query have been dropped.\<close>

record 'u url_ops =
  url_Parse :: "string \<Rightarrow> string + 'u"
  url_drop_user :: "'u \<Rightarrow> 'u"
  url_drop_query :: "'u \<Rightarrow> 'u"
  url_String :: "'u \<Rightarrow> string"

definition SanitizeURL :: "(int \<Rightarrow> bool) \<Rightarrow> 'u url_ops \<Rightarrow> string \<Rightarrow> string" where
  "SanitizeURL IsPrint U rawURL =
     (if rawURL = '''' then ''''
      else case url_Parse U rawURL of
        Inl err \<Rightarrow> SanitizeForLogging IsPrint rawURL
      | Inr parsedURL \<Rightarrow> url_String U (url_drop_query U (url_drop_user U parsedURL)))"

text \<open>An \<open>error\<close> is nil or has a message.\<close>

definition SanitizeError :: "(int \<Rightarrow> bool) \<Rightarrow> string option \<Rightarrow> string" where
  "SanitizeError IsPrint err = (case err of None \<Rightarrow> '''' | Some msg \<Rightarrow> SanitizeForLogging IsPrint msg)"

section \<open>Correctness\<close>

lemma byte_char: "0 \<le> r \<Longrightarrow> r < 256 \<Longrightarrow> byte (char_of r) = r"
  by simp

lemma byte_range: "0 \<le> byte c" "byte c \<le> 255"
proof -
  have "byte c = int (of_char c :: nat)" by (simp add: of_nat_of_char)
  moreover have "(of_char c :: nat) < 256" by simp
  ultimately show "0 \<le> byte c" "byte c \<le> 255" by linarith+
qed

definition valid_rune :: "int \<Rightarrow> bool" where
  "valid_rune r \<longleftrightarrow> 0 \<le> r \<and> r \<le> 1114111 \<and> \<not> (55296 \<le> r \<and> r \<le> 57343)"

lemma decode_valid: "valid_rune (fst (decode_rune s))"
proof (cases s)
  case Nil
  then show ?thesis by (simp add: valid_rune_def RuneError_def)
next
  case (Cons a t)
  show ?thesis
    using byte_range [of a] unfolding Cons
    by (auto simp: valid_rune_def RuneError_def second_ok_def second_range_def tail_byte_def
        split: list.splits if_splits)
qed

lemma encode_bytes:
  assumes "c \<in> set (encode_rune r)" and "byte c < 128"
  shows "byte c = r \<and> encode_rune r = [c]"
  using assms by (auto simp: encode_rune_def Let_def RuneError_def split: if_splits)

lemma char_of_byte: "0 \<le> n \<Longrightarrow> n < 256 \<Longrightarrow> of_char (char_of (n :: int) :: char) = n"
  by (rule byte_char)

lemma six_bits: "0 \<le> x mod 64" "x mod 64 < (64 :: int)"
  by simp_all

lemma base64_split:
  fixes r :: int
  shows "r = r div 64 * 64 + r mod 64"
    and "r div 64 = r div 4096 * 64 + r div 64 mod 64"
    and "r div 4096 = r div 262144 * 64 + r div 4096 mod 64"
proof -
  have "r div 4096 = r div 64 div 64" "r div 262144 = r div 4096 div 64"
    by (simp_all add: zdiv_zmult2_eq [symmetric])
  then show "r = r div 64 * 64 + r mod 64" "r div 64 = r div 4096 * 64 + r div 64 mod 64"
    "r div 4096 = r div 262144 * 64 + r div 4096 mod 64"
    by (simp_all only: div_mult_mod_eq)
qed

lemma decode_encode:
  assumes "valid_rune r"
  shows "decode_rune (encode_rune r @ s) = (r, s)"
proof -
  have r: "0 \<le> r" "r \<le> 1114111" "\<not> (55296 \<le> r \<and> r \<le> 57343)"
    using assms by (auto simp: valid_rune_def)
  consider "r < 128" | "128 \<le> r" "r < 2048" | "2048 \<le> r" "r < 65536" | "65536 \<le> r" by linarith
  then show ?thesis
  proof cases
    case 1
    with r show ?thesis by (simp add: encode_rune_def)
  next
    case 2
    then have "2 \<le> r div 64" "r div 64 \<le> 31" by linarith+
    then have a: "byte (char_of (192 + r div 64)) = 192 + r div 64"
      and b: "byte (char_of (128 + r mod 64)) = 128 + r mod 64"
      by (simp_all add: char_of_byte del: of_char_of)
    have "second_ok (char_of (192 + r div 64)) (char_of (128 + r mod 64))"
      using six_bits [of r] \<open>r div 64 \<le> 31\<close> unfolding second_ok_def second_range_def a b by simp
    with 2 r show ?thesis
      using \<open>2 \<le> r div 64\<close> \<open>r div 64 \<le> 31\<close> a b
      by (simp add: encode_rune_def del: of_char_of)
  next
    case 3
    define x where "x = r div 4096"
    define y where "y = r div 64 mod 64"
    define z where "z = r mod 64"
    have v: "x * 4096 + y * 64 + z = r"
      using base64_split(1) [of r] base64_split(2) [of r] unfolding x_def y_def z_def by linarith
    have yz: "0 \<le> y" "y < 64" "0 \<le> z" "z < 64" unfolding y_def z_def by simp_all
    then have x: "0 \<le> x" "x \<le> 15" using v 3 by linarith+
    have b: "byte (char_of (224 + x)) = 224 + x" "byte (char_of (128 + y)) = 128 + y"
      "byte (char_of (128 + z)) = 128 + z"
      using x yz by (simp_all add: char_of_byte del: of_char_of)
    have enc: "encode_rune r = [char_of (224 + x), char_of (128 + y), char_of (128 + z)]"
      using 3 r by (auto simp: encode_rune_def x_def y_def z_def)
    have "x = 0 \<Longrightarrow> 32 \<le> y" using v yz 3 by linarith
    moreover have "x = 13 \<Longrightarrow> y \<le> 31" using v yz r 3 by linarith
    ultimately have "second_ok (char_of (224 + x)) (char_of (128 + y))"
      using x yz unfolding second_ok_def second_range_def b by (auto split: if_splits)
    moreover have "tail_byte (char_of (128 + z))" using yz unfolding tail_byte_def b by simp
    ultimately show ?thesis
      using x yz v unfolding enc by (simp add: b del: of_char_of)
  next
    case 4
    define w where "w = r div 262144"
    define x where "x = r div 4096 mod 64"
    define y where "y = r div 64 mod 64"
    define z where "z = r mod 64"
    have v: "w * 262144 + x * 4096 + y * 64 + z = r"
      using base64_split [of r] unfolding w_def x_def y_def z_def by linarith
    have yz: "0 \<le> x" "x < 64" "0 \<le> y" "y < 64" "0 \<le> z" "z < 64"
      unfolding x_def y_def z_def by simp_all
    then have w: "0 \<le> w" "w \<le> 4" using v r 4 by linarith+
    have b: "byte (char_of (240 + w)) = 240 + w" "byte (char_of (128 + x)) = 128 + x"
      "byte (char_of (128 + y)) = 128 + y" "byte (char_of (128 + z)) = 128 + z"
      using w yz by (simp_all add: char_of_byte del: of_char_of)
    have enc: "encode_rune r = [char_of (240 + w), char_of (128 + x), char_of (128 + y), char_of (128 + z)]"
      using 4 r by (auto simp: encode_rune_def w_def x_def y_def z_def)
    have "w = 0 \<Longrightarrow> 16 \<le> x" using v yz 4 by linarith
    moreover have "w = 4 \<Longrightarrow> x \<le> 15" using v yz r by linarith
    ultimately have "second_ok (char_of (240 + w)) (char_of (128 + x))"
      using w yz unfolding second_ok_def second_range_def b by (auto split: if_splits)
    moreover have "tail_byte (char_of (128 + y))" "tail_byte (char_of (128 + z))"
      using yz unfolding tail_byte_def b by simp_all
    ultimately show ?thesis
      using w yz v unfolding enc by (simp add: b del: of_char_of)
  qed
qed

lemma encode_nonempty: "encode_rune r \<noteq> []"
  by (simp add: encode_rune_def Let_def)

lemma runes_Nil [simp]: "runes [] = []"
  by (simp add: runes.simps)

lemma runes_encode: "valid_rune r \<Longrightarrow> runes (encode_rune r @ s) = r # runes s"
  by (subst runes.simps) (simp add: encode_nonempty decode_encode)

lemma runes_valid: "r \<in> set (runes s) \<Longrightarrow> valid_rune r"
proof (induction s rule: runes.induct)
  case (1 s)
  then show ?case using decode_valid by (subst (asm) (2) runes.simps) (auto split: if_splits)
qed

lemma runes_concat: "\<forall>r \<in> set rs. valid_rune r \<Longrightarrow> runes (concat (map encode_rune rs)) = rs"
  by (induction rs) (auto simp: runes_encode)

lemma sanitize_runes: "runes (SanitizeForLogging IsPrint s) = filter (keep_rune IsPrint) (runes s)"
  unfolding SanitizeForLogging_def by (rule runes_concat) (auto dest: runes_valid)

lemma sanitize_bytes:
  assumes "c \<in> set (SanitizeForLogging IsPrint s)" and "byte c < 128"
  shows "keep_rune IsPrint (byte c)"
  using assms by (auto simp: SanitizeForLogging_def dest: encode_bytes)

end
