(* ===== verification/Startup.thy ===== *)
theory Startup
  imports AnnotationFacts Sanitize
begin

text \<open>
  What the process decides before it starts the controllers: the global configuration (cmd/main.go)
  and the metrics collector with its custom URL (pkg/kubelet/cache.go). The flags are arguments.
\<close>

section \<open>Global configuration\<close>

text \<open>An empty flag leaves the zero quantity; one that does not parse ends the process.\<close>

definition flag_quantity :: "'q quantity_ops \<Rightarrow> string \<Rightarrow> 'q option" where
  "flag_quantity Q s = (if s \<noteq> '''' then qty_parse Q s else Some (qty_zero Q))"

definition startup_config ::
  "'q quantity_ops \<Rightarrow> float64 \<Rightarrow> float64 \<Rightarrow> string \<Rightarrow> duration \<Rightarrow> string \<Rightarrow> string \<Rightarrow> 'q GlobalConfig option" where
  "startup_config Q threshold inodesThreshold increase cooldown minScaleUp maxSize =
     (case flag_quantity Q minScaleUp of None \<Rightarrow> None | Some minScaleUpQty \<Rightarrow>
      case flag_quantity Q maxSize of None \<Rightarrow> None | Some maxSizeQty \<Rightarrow>
      Some (NewGlobalConfig Q threshold inodesThreshold increase cooldown minScaleUpQty maxSizeQty))"

section \<open>The metrics collector\<close>

record MetricsCollector =
  coll_kubeletURL :: string
  coll_httpTimeout :: duration

text \<open>The parts of a parsed URL the check looks at.\<close>

record 'u url_parts =
  part_Parse :: "string \<Rightarrow> string + 'u"
  part_Scheme :: "'u \<Rightarrow> string"
  part_Hostname :: "'u \<Rightarrow> string"

datatype url_error = ParseFailed string | SchemeNotAllowed | NoHost | BlockedHost string

definition blocked_hosts :: "string list" where
  "blocked_hosts = [''169.254.169.254'', ''metadata.google.internal'', ''localhost'']"

definition validateKubeletURL :: "'u url_parts \<Rightarrow> string \<Rightarrow> url_error option" where
  "validateKubeletURL U kubeletURL =
     (case part_Parse U kubeletURL of
        Inl err \<Rightarrow> Some (ParseFailed err)
      | Inr parsed \<Rightarrow>
          if part_Scheme U parsed \<noteq> ''http'' \<and> part_Scheme U parsed \<noteq> ''https'' then Some SchemeNotAllowed
          else let host = part_Hostname U parsed in
            if host = '''' then Some NoHost
            else if list_ex (Contains (ToLower host)) blocked_hosts then Some (BlockedHost host)
            else None)"

definition NewMetricsCollector :: "'u url_parts \<Rightarrow> string \<Rightarrow> url_error + MetricsCollector" where
  "NewMetricsCollector U kubeletURL =
     (case (if kubeletURL \<noteq> '''' then validateKubeletURL U kubeletURL else None) of
        Some err \<Rightarrow> Inl err
      | None \<Rightarrow> Inr \<lparr>coll_kubeletURL = kubeletURL, coll_httpTimeout = 30 * second\<rparr>)"

section \<open>Correctness\<close>

lemma startup_config_Some:
  "startup_config Q t i inc cd mn mx = Some g \<longleftrightarrow>
    (\<exists>a b. flag_quantity Q mn = Some a \<and> flag_quantity Q mx = Some b \<and> g = NewGlobalConfig Q t i inc cd a b)"
  by (auto simp: startup_config_def split: option.splits)

text \<open>The minimum step a process starts with is never zero, so a new size is never the old one.\<close>

context quantity_api
begin

lemma default_minimum: "\<not> qty_is_zero Q (qty_binary Q DefaultMinScaleUp)"
  by (simp add: is_zero binary_amount DefaultMinScaleUp_def DefaultMinScaleUpGiB_def in_int64_def
      min_int64_def max_int64_def)

end

lemma validate_ok:
  "validateKubeletURL U s = None \<longleftrightarrow>
    (\<exists>u. part_Parse U s = Inr u \<and> (part_Scheme U u = ''http'' \<or> part_Scheme U u = ''https'') \<and>
      part_Hostname U u \<noteq> '''' \<and> list_all (\<lambda>b. \<not> Contains (ToLower (part_Hostname U u)) b) blocked_hosts)"
  by (auto simp: validateKubeletURL_def Let_def list_ex_iff list_all_iff split: sum.splits)

lemma startup_config_usable:
  assumes "quantity_api Q amount" and "startup_config Q t i inc cd mn mx = Some g"
  shows "\<not> qty_is_zero Q (gc_MinScaleUp g) \<and> 0 < gc_Cooldown g \<and> \<not> f_le (gc_Threshold g) (FFin 0) \<and>
    \<not> f_le (gc_InodesThreshold g) (FFin 0) \<and> valid_increase Q (TrimSpace (gc_Increase g))"
proof -
  obtain a b where g: "g = NewGlobalConfig Q t i inc cd a b" using assms(2) by (auto simp: startup_config_Some)
  have "\<not> qty_is_zero Q (gc_MinScaleUp g)"
    using quantity_api.default_minimum [OF assms(1)] by (simp add: g NewGlobalConfig_def)
  moreover have "0 < gc_Cooldown g" by (simp add: g NewGlobalConfig_def DefaultCooldown_def minute_def)
  moreover have "\<not> f_le (gc_Threshold g) (FFin 0)"
    by (simp add: g NewGlobalConfig_def DefaultThreshold_def f_le_def f_eq_def)
  moreover have "\<not> f_le (gc_InodesThreshold g) (FFin 0)"
    by (simp add: g NewGlobalConfig_def DefaultInodesThreshold_def f_le_def f_eq_def)
  ultimately show ?thesis using NewGlobalConfig_increase by (simp add: g)
qed

text \<open>A custom kubelet URL parses, is http or https, has a host, and the host contains none of the
  blocked names in any case.\<close>

lemma collector_url:
  assumes "NewMetricsCollector U s = Inr mc"
  shows "coll_kubeletURL mc = '''' \<or>
    (\<exists>u. part_Parse U s = Inr u \<and> (part_Scheme U u = ''http'' \<or> part_Scheme U u = ''https'') \<and>
      part_Hostname U u \<noteq> '''' \<and>
      list_all (\<lambda>b. \<nexists>pre post. ToLower (part_Hostname U u) = pre @ b @ post) blocked_hosts)"
proof -
  have "s = '''' \<or> validateKubeletURL U s = None" and "coll_kubeletURL mc = s"
    using assms by (auto simp: NewMetricsCollector_def split: if_splits option.splits)
  then show ?thesis unfolding validate_ok Contains_iff by auto
qed

end
