(* ===== verification/ProcessStart.thy ===== *)
theory ProcessStart
  imports Startup StartLoop
begin

text \<open>
  \<open>run\<close> of cmd/main.go: the calls that set the process up, in their order, each of which ends the
  process when it fails. What the manager and the client libraries answer is a parameter
  (\<open>pe_fails\<close>), as are the values of the flags; log output is left out.
\<close>

record run_flags =
  fl_dry_run :: bool
  fl_metrics_bind_address :: string
  fl_health_probe_bind_address :: string
  fl_leader_elect :: bool
  fl_default_min_scale_up :: string
  fl_default_max_size :: string
  fl_default_threshold :: float64
  fl_default_inodes_threshold :: float64
  fl_default_increase :: string
  fl_default_cooldown :: duration
  fl_kubelet_url :: string
  fl_watch_interval :: duration
  fl_max_parallel :: int
  fl_enable_webhook :: bool

text \<open>The values of the flags that are given neither on the command line nor in the environment.\<close>

definition default_flags :: run_flags where
  "default_flags = \<lparr>fl_dry_run = False, fl_metrics_bind_address = '':8080'',
     fl_health_probe_bind_address = '':8081'', fl_leader_elect = False, fl_default_min_scale_up = '''',
     fl_default_max_size = '''', fl_default_threshold = FFin 0, fl_default_inodes_threshold = FFin 0,
     fl_default_increase = '''', fl_default_cooldown = 0, fl_kubelet_url = '''',
     fl_watch_interval = 5 * minute, fl_max_parallel = 4, fl_enable_webhook = False\<rparr>"

datatype log_level = DebugLevel | InfoLevel | WarnLevel | ErrorLevel

definition log_level_of :: "string \<Rightarrow> log_level" where
  "log_level_of logLevel =
     (if logLevel = ''debug'' then DebugLevel
      else if logLevel = ''info'' then InfoLevel
      else if logLevel = ''warn'' then WarnLevel
      else if logLevel = ''error'' then ErrorLevel
      else InfoLevel)"

record manager_options =
  mo_MetricsBindAddress :: string
  mo_HealthProbeBindAddress :: string
  mo_LeaderElection :: bool
  mo_LeaderElectionID :: string

datatype ('q, 'sel, 's) setup_call =
    GetConfig
  | NewManager manager_options
  | NewClientset
  | AddRunnable MetricsCollector "('q, 'sel, 's) Reconciler"
  | SetupPolicyController
  | SetupGroupController
  | SetupWebhook
  | AddHealthzCheck
  | AddReadyzCheck
  | StartManager

datatype ('q, 'sel, 's) exit_reason =
    CallFailed "('q, 'sel, 's) setup_call" string
  | InvalidSizeFlag
  | CollectorFailed url_error
  | BindFailed string
  | CommandFailed string

record ('q, 'sel, 's, 'u) process_env =
  pe_Q :: "'q quantity_ops"
  pe_oob :: "float64 \<Rightarrow> int"
  pe_zone :: int
  pe_Client :: "('q, 'sel, 's) kube"
  pe_U :: "'u url_parts"
  pe_IsPrint :: "int \<Rightarrow> bool"
  pe_fails :: "('q, 'sel, 's) setup_call \<Rightarrow> string option"

type_synonym ('q, 'sel, 's) process_run = "('q, 'sel, 's) setup_call list \<times> ('q, 'sel, 's) exit_reason option"

definition invoke ::
  "('q, 'sel, 's, 'u) process_env \<Rightarrow> ('q, 'sel, 's) setup_call \<Rightarrow> ('q, 'sel, 's) process_run \<Rightarrow> ('q, 'sel, 's) process_run" where
  "invoke E c continue =
     (case pe_fails E c of
        Some err \<Rightarrow> ([c], Some (CallFailed c err))
      | None \<Rightarrow> apfst (Cons c) continue)"

definition manager_options_of :: "(int \<Rightarrow> bool) \<Rightarrow> run_flags \<Rightarrow> manager_options" where
  "manager_options_of IsPrint fl =
     \<lparr>mo_MetricsBindAddress = SanitizeForLogging IsPrint (fl_metrics_bind_address fl),
      mo_HealthProbeBindAddress = SanitizeForLogging IsPrint (fl_health_probe_bind_address fl),
      mo_LeaderElection = fl_leader_elect fl,
      mo_LeaderElectionID = ''pvc-chonker-leader-election''\<rparr>"

definition pvcController ::
  "('q, 'sel, 's, 'u) process_env \<Rightarrow> run_flags \<Rightarrow> 'q GlobalConfig \<Rightarrow> ('q, 'sel, 's) Reconciler" where
  "pvcController E fl globalConfig =
     \<lparr>r_Client = pe_Client E, r_Q = pe_Q E, r_oob = pe_oob E, r_zone = pe_zone E,
      r_GlobalConfig = globalConfig, r_WatchInterval = fl_watch_interval fl,
      r_DryRun = fl_dry_run fl, r_MaxParallel = fl_max_parallel fl\<rparr>"

definition run_process :: "('q, 'sel, 's, 'u) process_env \<Rightarrow> run_flags \<Rightarrow> ('q, 'sel, 's) process_run" where
  "run_process E fl =
     invoke E GetConfig (
     invoke E (NewManager (manager_options_of (pe_IsPrint E) fl)) (
     case startup_config (pe_Q E) (fl_default_threshold fl) (fl_default_inodes_threshold fl)
         (fl_default_increase fl) (fl_default_cooldown fl) (fl_default_min_scale_up fl) (fl_default_max_size fl) of
       None \<Rightarrow> ([], Some InvalidSizeFlag)
     | Some globalConfig \<Rightarrow>
     (case NewMetricsCollector (pe_U E) (fl_kubelet_url fl) of
       Inl err \<Rightarrow> ([], Some (CollectorFailed err))
     | Inr metricsCollector \<Rightarrow>
     invoke E NewClientset (
     invoke E (AddRunnable metricsCollector (pvcController E fl globalConfig)) (
     invoke E SetupPolicyController (
     invoke E SetupGroupController (
     (if fl_enable_webhook fl then invoke E SetupWebhook else id) (
     invoke E AddHealthzCheck (
     invoke E AddReadyzCheck (
     invoke E StartManager ([], None)))))))))))"

section \<open>Runs that reach the manager\<close>

lemma invoke_fst: "c' \<in> set (fst (invoke E c k)) \<longleftrightarrow> c' = c \<or> pe_fails E c = None \<and> c' \<in> set (fst k)"
  by (auto simp: invoke_def split: option.split)

lemma invoke_ok: "pe_fails E c = None \<Longrightarrow> invoke E c k = apfst (Cons c) k"
  by (simp add: invoke_def)

text \<open>All the calls of a run that starts the manager.\<close>

definition setup_calls ::
  "('q, 'sel, 's, 'u) process_env \<Rightarrow> run_flags \<Rightarrow> 'q GlobalConfig \<Rightarrow> MetricsCollector \<Rightarrow> ('q, 'sel, 's) setup_call list" where
  "setup_calls E fl g mc =
     [GetConfig, NewManager (manager_options_of (pe_IsPrint E) fl), NewClientset,
      AddRunnable mc (pvcController E fl g), SetupPolicyController, SetupGroupController] @
     (if fl_enable_webhook fl then [SetupWebhook] else []) @ [AddHealthzCheck, AddReadyzCheck]"

lemma run_process_started:
  assumes "StartManager \<in> set (fst (run_process E fl))"
  obtains g mc where "startup_config (pe_Q E) (fl_default_threshold fl) (fl_default_inodes_threshold fl)
      (fl_default_increase fl) (fl_default_cooldown fl) (fl_default_min_scale_up fl) (fl_default_max_size fl) = Some g"
    and "NewMetricsCollector (pe_U E) (fl_kubelet_url fl) = Inr mc"
    and "fst (run_process E fl) = setup_calls E fl g mc @ [StartManager]"
    and "\<forall>c \<in> set (setup_calls E fl g mc). pe_fails E c = None"
proof -
  obtain g where g: "startup_config (pe_Q E) (fl_default_threshold fl) (fl_default_inodes_threshold fl)
      (fl_default_increase fl) (fl_default_cooldown fl) (fl_default_min_scale_up fl) (fl_default_max_size fl) = Some g"
    using assms by (auto simp: run_process_def invoke_fst split: option.splits)
  obtain mc where mc: "NewMetricsCollector (pe_U E) (fl_kubelet_url fl) = Inr mc"
    using assms by (auto simp: run_process_def invoke_fst g split: sum.splits)
  have ok: "\<forall>c \<in> set (setup_calls E fl g mc). pe_fails E c = None"
    using assms by (auto simp: run_process_def invoke_fst g mc setup_calls_def split: if_splits)
  then have "fst (run_process E fl) = setup_calls E fl g mc @ [StartManager]"
    by (simp add: run_process_def g mc setup_calls_def invoke_ok) (simp add: invoke_def split: option.split)
  with g mc ok show thesis by (intro that)
qed

lemma run_process_exit:
  "StartManager \<notin> set (fst (run_process E fl)) \<Longrightarrow> snd (run_process E fl) \<noteq> None"
  by (auto simp: run_process_def invoke_def split: option.splits sum.splits if_splits)

end
