(* ===== verification/CommandLine.thy ===== *)
theory CommandLine
  imports ProcessStart
begin

text \<open>
  \<open>main\<close> of cmd/main.go: the flags it declares, the keys under which \<open>run\<close> reads them, and the two
  ways to end before \<open>run\<close>. The command line, the environment and the precedence between them are the
  libraries' (cobra and viper): what they answer for a key is the record \<open>viper\<close>.
\<close>

section \<open>Settings\<close>

record viper =
  GetString :: "string \<Rightarrow> string"
  GetBool :: "string \<Rightarrow> bool"
  GetFloat64 :: "string \<Rightarrow> float64"
  GetDuration :: "string \<Rightarrow> duration"
  GetInt :: "string \<Rightarrow> int"

datatype flag_value =
    FlagString string
  | FlagBool bool
  | FlagFloat64 float64
  | FlagDuration duration
  | FlagInt int

text \<open>The declared flags with their defaults, in the order of the source.\<close>

definition declared_flags :: "(string \<times> flag_value) list" where
  "declared_flags =
     [(''metrics-bind-address'', FlagString '':8080''),
      (''health-probe-bind-address'', FlagString '':8081''),
      (''leader-elect'', FlagBool False),
      (''kubelet-url'', FlagString ''''),
      (''watch-interval'', FlagDuration (5 * minute)),
      (''default-threshold'', FlagFloat64 (FFin 0)),
      (''default-inodes-threshold'', FlagFloat64 (FFin 0)),
      (''default-increase'', FlagString ''''),
      (''default-cooldown'', FlagDuration 0),
      (''default-min-scale-up'', FlagString ''''),
      (''default-max-size'', FlagString ''''),
      (''dry-run'', FlagBool False),
      (''log-format'', FlagString ''json''),
      (''log-level'', FlagString ''info''),
      (''max-parallel'', FlagInt 4),
      (''webhook-port'', FlagString ''9443''),
      (''webhook-cert-dir'', FlagString ''/tmp/k8s-webhook-server/serving-certs''),
      (''enable-webhook'', FlagBool False)]"

definition read_flags :: "viper \<Rightarrow> run_flags" where
  "read_flags V =
     \<lparr>fl_dry_run = GetBool V ''dry-run'',
      fl_metrics_bind_address = GetString V ''metrics-bind-address'',
      fl_health_probe_bind_address = GetString V ''health-probe-bind-address'',
      fl_leader_elect = GetBool V ''leader-elect'',
      fl_default_min_scale_up = GetString V ''default-min-scale-up'',
      fl_default_max_size = GetString V ''default-max-size'',
      fl_default_threshold = GetFloat64 V ''default-threshold'',
      fl_default_inodes_threshold = GetFloat64 V ''default-inodes-threshold'',
      fl_default_increase = GetString V ''default-increase'',
      fl_default_cooldown = GetDuration V ''default-cooldown'',
      fl_kubelet_url = GetString V ''kubelet-url'',
      fl_watch_interval = GetDuration V ''watch-interval'',
      fl_max_parallel = GetInt V ''max-parallel'',
      fl_enable_webhook = GetBool V ''enable-webhook''\<rparr>"

text \<open>The options of the logger.\<close>

record zap_options =
  zap_Development :: bool
  zap_Level :: log_level

definition zap_options_of :: "viper \<Rightarrow> zap_options" where
  "zap_options_of V = \<lparr>zap_Development = (GetString V ''log-format'' = ''console''),
     zap_Level = log_level_of (GetString V ''log-level'')\<rparr>"

section \<open>The process\<close>

text \<open>
  \<open>bound\<close> and \<open>parsed\<close> are the errors of binding the flags and of parsing the command line. When the
  command line parses, executing the command is \<open>run\<close>.
\<close>

definition main_process ::
  "('q, 'sel, 's, 'u) process_env \<Rightarrow> string option \<Rightarrow> string option \<Rightarrow> viper \<Rightarrow> ('q, 'sel, 's) process_run" where
  "main_process E bound parsed V =
     (case bound of
        Some err \<Rightarrow> ([], Some (BindFailed err))
      | None \<Rightarrow>
          (case parsed of
             Some err \<Rightarrow> ([], Some (CommandFailed err))
           | None \<Rightarrow> run_process E (read_flags V)))"

section \<open>Every key is a declared flag of its type\<close>

fun answers :: "viper \<Rightarrow> string \<times> flag_value \<Rightarrow> bool" where
  "answers V (k, FlagString s) = (GetString V k = s)"
| "answers V (k, FlagBool b) = (GetBool V k = b)"
| "answers V (k, FlagFloat64 x) = (GetFloat64 V k = x)"
| "answers V (k, FlagDuration d) = (GetDuration V k = d)"
| "answers V (k, FlagInt i) = (GetInt V k = i)"

text \<open>A library that answers every declared flag with its default gives the settings of \<open>default_flags\<close>.\<close>

lemma read_defaults:
  "list_all (answers V) declared_flags \<Longrightarrow>
    read_flags V = default_flags \<and> zap_options_of V = \<lparr>zap_Development = False, zap_Level = InfoLevel\<rparr>"
  by (simp add: declared_flags_def read_flags_def default_flags_def zap_options_of_def log_level_of_def)

text \<open>The two flags of the webhook server are declared and never read.\<close>

lemma webhook_flags_unread:
  "read_flags (V\<lparr>GetString := (GetString V)(''webhook-port'' := port, ''webhook-cert-dir'' := dir)\<rparr>) = read_flags V"
  by (simp add: read_flags_def)

lemma main_process_started:
  assumes "StartManager \<in> set (fst (main_process E bound parsed V))"
  shows "bound = None \<and> parsed = None \<and> main_process E bound parsed V = run_process E (read_flags V)"
  using assms by (auto simp: main_process_def split: option.splits)

lemma main_process_exit:
  "StartManager \<notin> set (fst (main_process E bound parsed V)) \<Longrightarrow> snd (main_process E bound parsed V) \<noteq> None"
  using run_process_exit by (auto simp: main_process_def split: option.splits)

text \<open>A library over a table of values; a key that is not there has the zero value of the type asked for.\<close>

definition viper_of :: "(string \<times> flag_value) list \<Rightarrow> viper" where
  "viper_of fs =
     \<lparr>GetString = (\<lambda>k. case map_of fs k of Some (FlagString s) \<Rightarrow> s | _ \<Rightarrow> ''''),
      GetBool = (\<lambda>k. case map_of fs k of Some (FlagBool b) \<Rightarrow> b | _ \<Rightarrow> False),
      GetFloat64 = (\<lambda>k. case map_of fs k of Some (FlagFloat64 x) \<Rightarrow> x | _ \<Rightarrow> FFin 0),
      GetDuration = (\<lambda>k. case map_of fs k of Some (FlagDuration d) \<Rightarrow> d | _ \<Rightarrow> 0),
      GetInt = (\<lambda>k. case map_of fs k of Some (FlagInt i) \<Rightarrow> i | _ \<Rightarrow> 0)\<rparr>"

lemma viper_of_declared: "list_all (answers (viper_of declared_flags)) declared_flags"
  by (simp add: declared_flags_def viper_of_def)

end
