(* ===== verification/RunProperties.thy ===== *)
theory RunProperties
  imports Samples CommandLine
begin

text \<open>
  The properties of the start of the process (cmd/main.go), of the expansion controller across
  the cycles of a run (\<open>Start\<close>), and of the timestamps its cooldown rests on.
\<close>

section \<open>Start-up\<close>

lemma run_process_checked:
  assumes "quantity_api (pe_Q E) amount"
  shows "if StartManager \<in> set (fst (run_process E fl))
    then \<exists>mc R calls. fst (run_process E fl) = calls @ [StartManager] \<and>
      (\<forall>c \<in> set calls. pe_fails E c = None) \<and>
      {GetConfig, NewClientset, SetupPolicyController, SetupGroupController, AddHealthzCheck, AddReadyzCheck} \<subseteq> set calls \<and>
      (SetupWebhook \<in> set calls \<longleftrightarrow> fl_enable_webhook fl) \<and>
      {(m, r). AddRunnable m r \<in> set calls} = {(mc, R)} \<and>
      r_WatchInterval R = fl_watch_interval fl \<and> r_DryRun R = fl_dry_run fl \<and> r_MaxParallel R = fl_max_parallel fl \<and>
      \<not> qty_is_zero (r_Q R) (gc_MinScaleUp (r_GlobalConfig R)) \<and> 0 < gc_Cooldown (r_GlobalConfig R) \<and>
      \<not> f_le (gc_Threshold (r_GlobalConfig R)) (FFin 0) \<and> \<not> f_le (gc_InodesThreshold (r_GlobalConfig R)) (FFin 0) \<and>
      (\<forall>c cur. \<exists>n. CalculateNewSize (r_oob R) (r_Q R) (Some (c\<lparr>pc_Increase := gc_Increase (r_GlobalConfig R)\<rparr>)) cur = Inr n) \<and>
      (coll_kubeletURL mc = '''' \<or> (\<exists>u. part_Parse (pe_U E) (fl_kubelet_url fl) = Inr u \<and>
        (part_Scheme (pe_U E) u = ''http'' \<or> part_Scheme (pe_U E) u = ''https'') \<and>
        part_Hostname (pe_U E) u \<noteq> '''' \<and>
        list_all (\<lambda>b. \<nexists>pre post. ToLower (part_Hostname (pe_U E) u) = pre @ b @ post) blocked_hosts))
    else snd (run_process E fl) \<noteq> None"
proof (cases "StartManager \<in> set (fst (run_process E fl))")
  case True
  then obtain g mc where g: "startup_config (pe_Q E) (fl_default_threshold fl) (fl_default_inodes_threshold fl)
      (fl_default_increase fl) (fl_default_cooldown fl) (fl_default_min_scale_up fl) (fl_default_max_size fl) = Some g"
    and mc: "NewMetricsCollector (pe_U E) (fl_kubelet_url fl) = Inr mc"
    and calls: "fst (run_process E fl) = setup_calls E fl g mc @ [StartManager]"
    and ok: "\<forall>c \<in> set (setup_calls E fl g mc). pe_fails E c = None"
    by (rule run_process_started)
  have "\<not> qty_is_zero (pe_Q E) (gc_MinScaleUp g)" and "0 < gc_Cooldown g" and "\<not> f_le (gc_Threshold g) (FFin 0)"
    and "\<not> f_le (gc_InodesThreshold g) (FFin 0)" and inc: "valid_increase (pe_Q E) (TrimSpace (gc_Increase g))"
    using startup_config_usable [OF assms g] by simp_all
  moreover have "\<exists>n. CalculateNewSize oob (pe_Q E) (Some (c\<lparr>pc_Increase := gc_Increase g\<rparr>)) cur = Inr n" for oob c cur
  proof -
    have "\<exists>n. increase_of oob (pe_Q E) (gc_Increase g) cur = Inr n" unfolding increase_of_total by (rule inc)
    then show ?thesis by (auto simp: CalculateNewSize_Inr)
  qed
  moreover have "{(m, r). AddRunnable m r \<in> set (setup_calls E fl g mc)} = {(mc, pvcController E fl g)}"
    by (auto simp: setup_calls_def)
  moreover have "{GetConfig, NewClientset, SetupPolicyController, SetupGroupController, AddHealthzCheck, AddReadyzCheck}
      \<subseteq> set (setup_calls E fl g mc)" "SetupWebhook \<in> set (setup_calls E fl g mc) \<longleftrightarrow> fl_enable_webhook fl"
    by (simp_all add: setup_calls_def)
  ultimately show ?thesis
    using True calls ok collector_url [OF mc]
    by (simp only: if_True simp_thms) (intro exI [of _ mc] exI [of _ "pvcController E fl g"]
        exI [of _ "setup_calls E fl g mc"], simp add: pvcController_def)
next
  case False
  then show ?thesis using run_process_exit by simp
qed

text \<open>C24. A process that starts its manager has made every other call before, each of them with
  success; it runs one controller, with the interval, dry run and parallelism of the settings and a
  usable global configuration, whose minimum step is not zero, whose thresholds are not 0 or less,
  and whose increase never makes the computation of a new size fail; its kubelet URL is empty or an
  http(s) one whose host contains no blocked name; and the webhook is set up exactly when it is
  enabled. A process that does not start its manager exits with an error. Every setting is read from
  a declared flag of its type, so that without arguments the settings are the defaults, and the
  flags of the webhook server have no effect.\<close>

theorem process_start_checked:
  assumes "quantity_api (pe_Q E) amount"
  shows "(if StartManager \<in> set (fst (main_process E bound parsed V))
    then bound = None \<and> parsed = None \<and> (\<exists>mc R calls. fst (main_process E bound parsed V) = calls @ [StartManager] \<and>
      (\<forall>c \<in> set calls. pe_fails E c = None) \<and>
      {GetConfig, NewClientset, SetupPolicyController, SetupGroupController, AddHealthzCheck, AddReadyzCheck} \<subseteq> set calls \<and>
      (SetupWebhook \<in> set calls \<longleftrightarrow> GetBool V ''enable-webhook'') \<and>
      {(m, r). AddRunnable m r \<in> set calls} = {(mc, R)} \<and>
      r_WatchInterval R = GetDuration V ''watch-interval'' \<and> r_DryRun R = GetBool V ''dry-run'' \<and>
      r_MaxParallel R = GetInt V ''max-parallel'' \<and>
      \<not> qty_is_zero (r_Q R) (gc_MinScaleUp (r_GlobalConfig R)) \<and> 0 < gc_Cooldown (r_GlobalConfig R) \<and>
      \<not> f_le (gc_Threshold (r_GlobalConfig R)) (FFin 0) \<and> \<not> f_le (gc_InodesThreshold (r_GlobalConfig R)) (FFin 0) \<and>
      (\<forall>c cur. \<exists>n. CalculateNewSize (r_oob R) (r_Q R) (Some (c\<lparr>pc_Increase := gc_Increase (r_GlobalConfig R)\<rparr>)) cur = Inr n) \<and>
      (coll_kubeletURL mc = '''' \<or> (\<exists>u. part_Parse (pe_U E) (GetString V ''kubelet-url'') = Inr u \<and>
        (part_Scheme (pe_U E) u = ''http'' \<or> part_Scheme (pe_U E) u = ''https'') \<and>
        part_Hostname (pe_U E) u \<noteq> '''' \<and>
        list_all (\<lambda>b. \<nexists>pre post. ToLower (part_Hostname (pe_U E) u) = pre @ b @ post) blocked_hosts)))
    else snd (main_process E bound parsed V) \<noteq> None) \<and>
   (list_all (answers V) declared_flags \<longrightarrow> read_flags V = default_flags) \<and>
   main_process E bound parsed (V\<lparr>GetString := (GetString V)(''webhook-port'' := port, ''webhook-cert-dir'' := dir)\<rparr>) =
     main_process E bound parsed V"
proof (intro conjI impI)
  show "main_process E bound parsed (V\<lparr>GetString := (GetString V)(''webhook-port'' := port, ''webhook-cert-dir'' := dir)\<rparr>) =
      main_process E bound parsed V"
    by (simp only: main_process_def webhook_flags_unread)
  show "read_flags V = default_flags" if "list_all (answers V) declared_flags"
    using read_defaults [OF that] by simp
next
  have settings: "fl_enable_webhook (read_flags V) = GetBool V ''enable-webhook''" "fl_dry_run (read_flags V) = GetBool V ''dry-run''"
    "fl_watch_interval (read_flags V) = GetDuration V ''watch-interval''" "fl_max_parallel (read_flags V) = GetInt V ''max-parallel''"
    "fl_kubelet_url (read_flags V) = GetString V ''kubelet-url''" by (simp_all add: read_flags_def)
  note run = run_process_checked [OF assms, of "read_flags V", unfolded settings]
  let ?started = "StartManager \<in> set (fst (main_process E bound parsed V))"
  show "if StartManager \<in> set (fst (main_process E bound parsed V))
    then bound = None \<and> parsed = None \<and> (\<exists>mc R calls. fst (main_process E bound parsed V) = calls @ [StartManager] \<and>
      (\<forall>c \<in> set calls. pe_fails E c = None) \<and>
      {GetConfig, NewClientset, SetupPolicyController, SetupGroupController, AddHealthzCheck, AddReadyzCheck} \<subseteq> set calls \<and>
      (SetupWebhook \<in> set calls \<longleftrightarrow> GetBool V ''enable-webhook'') \<and>
      {(m, r). AddRunnable m r \<in> set calls} = {(mc, R)} \<and>
      r_WatchInterval R = GetDuration V ''watch-interval'' \<and> r_DryRun R = GetBool V ''dry-run'' \<and>
      r_MaxParallel R = GetInt V ''max-parallel'' \<and>
      \<not> qty_is_zero (r_Q R) (gc_MinScaleUp (r_GlobalConfig R)) \<and> 0 < gc_Cooldown (r_GlobalConfig R) \<and>
      \<not> f_le (gc_Threshold (r_GlobalConfig R)) (FFin 0) \<and> \<not> f_le (gc_InodesThreshold (r_GlobalConfig R)) (FFin 0) \<and>
      (\<forall>c cur. \<exists>n. CalculateNewSize (r_oob R) (r_Q R) (Some (c\<lparr>pc_Increase := gc_Increase (r_GlobalConfig R)\<rparr>)) cur = Inr n) \<and>
      (coll_kubeletURL mc = '''' \<or> (\<exists>u. part_Parse (pe_U E) (GetString V ''kubelet-url'') = Inr u \<and>
        (part_Scheme (pe_U E) u = ''http'' \<or> part_Scheme (pe_U E) u = ''https'') \<and>
        part_Hostname (pe_U E) u \<noteq> '''' \<and>
        list_all (\<lambda>b. \<nexists>pre post. ToLower (part_Hostname (pe_U E) u) = pre @ b @ post) blocked_hosts)))
    else snd (main_process E bound parsed V) \<noteq> None"
  proof (cases ?started)
    case True
    have none: "bound = None" "parsed = None" using main_process_started [OF True] by blast+
    have eq: "main_process E None None V = run_process E (read_flags V)" by (simp add: main_process_def)
    show ?thesis using True run unfolding none eq by (simp only: if_True simp_thms)
  next
    case False
    then show ?thesis using main_process_exit by (simp only: if_False simp_thms)
  qed
qed

definition sample_env :: "(int, ref_selector, ref_server, unit) process_env" where
  "sample_env = \<lparr>pe_Q = ref_quantity, pe_oob = amd64_oob, pe_zone = 0, pe_Client = ref_kube,
     pe_U = \<lparr>part_Parse = (\<lambda>s. Inr ()), part_Scheme = (\<lambda>u. ''http''), part_Hostname = (\<lambda>u. ''mock-service'')\<rparr>,
     pe_IsPrint = (\<lambda>r. 32 \<le> r), pe_fails = (\<lambda>c. None)\<rparr>"

theorem process_start_checked_witness:
  "SetupWebhook \<in> set (fst (main_process sample_env None None (viper_of ([(''enable-webhook'', FlagBool True),
    (''kubelet-url'', FlagString ''http://mock-service:8080'')] @ declared_flags))))"
proof -
  let ?V = "viper_of ([(''enable-webhook'', FlagBool True),
    (''kubelet-url'', FlagString ''http://mock-service:8080'')] @ declared_flags)"
  have V: "GetBool ?V ''enable-webhook''" and fl: "read_flags ?V =
      default_flags\<lparr>fl_enable_webhook := True, fl_kubelet_url := ''http://mock-service:8080''\<rparr>" (is "_ = ?fl")
    by (simp_all add: viper_of_def declared_flags_def read_flags_def default_flags_def)
  have "NewMetricsCollector (pe_U sample_env) (fl_kubelet_url ?fl) =
      Inr \<lparr>coll_kubeletURL = fl_kubelet_url ?fl, coll_httpTimeout = 30 * second\<rparr>" by code_simp
  then have "StartManager \<in> set (fst (main_process sample_env None None ?V))"
    unfolding main_process_def option.case fl
    by (simp add: run_process_def invoke_def startup_config_def flag_quantity_def sample_env_def default_flags_def)
  moreover have "quantity_api (pe_Q sample_env) ref_amount"
    using ref_qty.quantity_api_axioms by (simp add: sample_env_def)
  ultimately obtain calls where "fst (main_process sample_env None None ?V) = calls @ [StartManager]"
    and "SetupWebhook \<in> set calls \<longleftrightarrow> GetBool ?V ''enable-webhook''"
    using process_start_checked [of sample_env ref_amount None None ?V] by (simp only: if_True simp_thms) blast
  then show ?thesis using V by simp
qed

section \<open>Accounting\<close>

text \<open>C22. Accounting: from the start of the process, for every claim and after any number of cycles,
  whatever other clients do in between, the times its threshold was reached are the successful
  expansions plus the failed ones.\<close>

theorem thresholds_accounted:
  assumes "st_metrics st = []" and "Start R first ticks st = Inr (R', st')"
  shows "counter_value ThresholdReachedTotal [name, ns] (st_metrics st') =
    counter_value SuccessResizeTotal [name, ns] (st_metrics st') +
    counter_value FailedResizeTotal [name, ns, ''expansion_failed''] (st_metrics st')"
proof -
  have "balanced name ns (st_metrics st')"
    using tick_loop_invariant [of R' "first # ticks" "st\<lparr>st_cache := NewStorageClassCache\<rparr>" st'
        "\<lambda>st. balanced name ns (st_metrics st)"] assms run_cycle_balanced
    by (force simp: Start_Inr balanced_def)
  then show ?thesis by (simp add: balanced_def)
qed


lemma sample_requests_set: "requests_set ref_view sample_server"
  using sample_requests by (auto simp: requests_set_def ref_view_def sample_server_def split: if_splits)

lemma sample_ticks:
  assumes "requests_set ref_view (st_server st)" and "r_Client R = ref_kube" and "set ticks \<subseteq> {sample_input}"
  obtains st' where "tick_loop R ticks st = Inr st'" and "requests_set ref_view (st_server st')"
  using kube_store.tick_loop_completes [OF ref_api.kube_store_axioms assms(2) _ _ assms(1), of ticks] assms(3)
  by (fastforce simp: sample_input_def comp_def)

lemma sample_start: "\<exists>R' st'. Start sample_reconciler sample_input [sample_input] sample_state = Inr (R', st')"
  using sample_ticks [of "sample_state\<lparr>st_cache := NewStorageClassCache\<rparr>"
      "sample_reconciler\<lparr>r_MaxParallel := start_max_parallel (r_MaxParallel sample_reconciler)\<rparr>" "[sample_input, sample_input]"]
    sample_requests_set
  unfolding Start_Inr by (auto simp: sample_state_def sample_reconciler_def second_def simp del: tick_loop.simps)

theorem thresholds_accounted_witness:
  "\<exists>R' st'. Start sample_reconciler sample_input [sample_input] sample_state = Inr (R', st') \<and>
    counter_value ThresholdReachedTotal [''db'', ''apps''] (st_metrics st') =
    counter_value SuccessResizeTotal [''db'', ''apps''] (st_metrics st') +
    counter_value FailedResizeTotal [''db'', ''apps'', ''expansion_failed''] (st_metrics st')"
proof -
  obtain R' st' where "Start sample_reconciler sample_input [sample_input] sample_state = Inr (R', st')"
    using sample_start by blast
  moreover have "st_metrics sample_state = []" by (simp add: sample_state_def)
  ultimately show ?thesis using thresholds_accounted by blast
qed

text \<open>C33. No metric call can panic: every call of a run gives as many label values as its instrument
  declares, on an instrument of its kind, and never lowers a counter (the measured durations not
  being negative); and the names of the registered series are distinct.\<close>

theorem metric_calls_accepted:
  assumes "st_metrics st = []" and "Start R first ticks st = Inr (R', st')"
    and "\<forall>i \<in> set (first # ticks). \<not> f_less (ci_duration i) (FFin 0)"
  shows "list_all op_ok (st_metrics st') \<and> distinct (map series_name registered) \<and> i \<in> set registered"
proof -
  have "metrics_ok s'" if "i \<in> set (first # ticks)" "metrics_ok s" "run_cycle R' i s = Inr s'" for i s s'
    using that assms(3) cycle_ok unfolding run_cycle_def by fastforce
  then have "metrics_ok st'"
    using tick_loop_invariant [of R' "first # ticks" "st\<lparr>st_cache := NewStorageClassCache\<rparr>" st' metrics_ok] assms
    by (force simp: Start_Inr simp del: tick_loop.simps)
  then show ?thesis using registered_all registered_distinct by blast
qed

theorem metric_calls_accepted_witness:
  "\<exists>R' st'. Start sample_reconciler sample_input [sample_input] sample_state = Inr (R', st') \<and>
    list_all op_ok (st_metrics st')"
proof -
  obtain R' st' where "Start sample_reconciler sample_input [sample_input] sample_state = Inr (R', st')"
    using sample_start by blast
  moreover have "st_metrics sample_state = []" by (simp add: sample_state_def)
  moreover have "\<forall>i \<in> set [sample_input, sample_input]. \<not> f_less (ci_duration i) (FFin 0)"
    by (simp add: sample_input_def)
  ultimately show ?thesis using metric_calls_accepted by blast
qed

text \<open>C11. Liveness: a run over claims that all have a requests map, whatever the scrapes and the
  schedules, carries out every cycle and no goroutine panics, exactly when the watch interval is
  positive; with any other interval the process panics before its first cycle.\<close>

theorem run_never_panics:
  assumes "kube_store (r_Client R) view"
    and "\<forall>i \<in> set (first # ticks). \<forall>ps. mset (map fst (ci_sched i ps)) = mset ps"
    and "\<forall>i \<in> set (first # ticks). \<forall>s. requests_set view s \<longrightarrow> requests_set view (ci_others i s)"
    and "requests_set view (st_server st)"
  shows "if 0 < r_WatchInterval R
    then \<exists>st'. Start R first ticks st = Inr (R\<lparr>r_MaxParallel := start_max_parallel (r_MaxParallel R)\<rparr>, st')
    else Start R first ticks st = Inl NonPositiveInterval"
proof (cases "0 < r_WatchInterval R")
  case True
  then show ?thesis
    using kube_store.tick_loop_completes [OF assms(1), of "R\<lparr>r_MaxParallel := start_max_parallel (r_MaxParallel R)\<rparr>"
        "first # ticks" "st\<lparr>st_cache := NewStorageClassCache\<rparr>"] assms(2-4)
    unfolding Start_Inr by (auto simp del: tick_loop.simps)
qed (simp add: Start_def NewTicker_def Let_def)

theorem run_never_panics_witness:
  "\<exists>R' st'. Start sample_reconciler sample_input [sample_input] sample_state = Inr (R', st') \<and> r_MaxParallel R' = 4"
proof -
  have "kube_store (r_Client sample_reconciler) ref_view"
    using ref_api.kube_store_axioms by (simp add: sample_reconciler_def)
  from run_never_panics [OF this, of sample_input "[sample_input]" sample_state] sample_requests_set
  show ?thesis
    by (auto simp: sample_input_def sample_state_def sample_reconciler_def comp_def start_max_parallel_def
        second_def)
qed

section \<open>The cooldown\<close>

text \<open>C23. The timestamp an expansion writes is read back as the time of the expansion, cut to the
  second, in every zone of whole minutes and for every local time from 1970 to 9999; all other
  settings of the claim are as they were.\<close>

theorem timestamp_round_trip:
  assumes "zone_ok zone" and "stamped zone now"
    and "ParsePVCAnnotations Q (Some p) (Some g) = Inr c"
  shows "ParsePVCAnnotations Q (Some (UpdateLastExpansion zone now p)) (Some g) =
    Inr (c\<lparr>pc_LastExpansion := Some (now div second * second)\<rparr>)"
  using assms(3) annotation_distinct parse_stamp [OF assms(1,2)]
  by (auto simp: ParsePVCAnnotations_def UpdateLastExpansion_def annotation_or_upd try_in_Inr stamp_def
      split: option.splits if_splits)

theorem timestamp_round_trip_witness:
  "ParsePVCAnnotations ref_quantity (Some (UpdateLastExpansion 19800 1700000000123456789 sample_pvc)) (Some sample_global)
    = Inr (sample_config\<lparr>pc_LastExpansion := Some 1700000000000000000\<rparr>)"
proof -
  have "zone_ok 19800" unfolding zone_ok_def by (intro exI [of _ 330]) simp
  moreover have "stamped 19800 1700000000123456789" by (simp add: stamped_def second_def)
  ultimately show ?thesis using timestamp_round_trip [OF _ _ sample_parse(1)] by (simp add: second_def)
qed



end
