(* ===== verification/ConfigProperties.thy ===== *)
theory ConfigProperties
  imports Samples
begin

text \<open>
  The properties of the configuration code (pkg/annotations): the new size, the syntax of
  percentages, where each setting of a claim comes from.
\<close>

section \<open>The new size\<close>

text \<open>C13. For an increase of a whole percentage \<open>p\<close>, the new size is in closed form the current
  size plus the larger of the percentage (rounded down) and the minimum step, rounded up to a
  whole GiB: the detour over float64 is exact while the sizes stay below 2^53.\<close>

theorem percent_new_size:
  assumes "pc_Increase c = fmt_nat p @ ''%''" and "0 \<le> p"
    and "qty_value Q cur = v" and "qty_value Q (pc_MinScaleUp c) = m"
    and "0 \<le> v" and "v < 9007199254740992" and "p < 9007199254740992" and "v * p < 9007199254740992"
    and "v + max (v * p div 100) m \<le> max_int64 - gibBoundary"
  shows "CalculateNewSize oob Q (Some c) cur =
    Inr (qty_binary Q ((v + max (v * p div 100) m + gibBoundary - 1) div gibBoundary * gibBoundary))"
proof -
  have trim: "TrimSpace (fmt_nat p @ ''%'') = fmt_nat p @ ''%''"
    using assms(2) by (intro digits_no_space fmt_nat_digits fmt_nat_nonempty)
  have "ParseFloat (fmt_nat p) = Inr (FFin (of_int p))"
    using ParseFloat_digits [OF fmt_nat_digits fmt_nat_nonempty, of p] assms(2,7)
    by (simp add: dec_val_fmt_nat to_f64_small_int)
  then have "increase_of oob Q (pc_Increase c) cur = Inr (v * p div 100)"
    using percent_increase_exact [of "pc_Increase c" p Q cur oob] assms trim by simp
  moreover have "0 \<le> v * p div 100" using assms(2,5) by (simp add: pos_imp_zdiv_nonneg_iff)
  then have "0 \<le> v + max (v * p div 100) m" using assms(5) by simp
  moreover from this have "in_int64 (v + max (v * p div 100) m)"
    using assms(9) gib_pos by (auto simp: in_int64_def min_int64_def)
  ultimately show ?thesis
    using round_to_gib_exact(1) [OF _ assms(9)] assms(3,4)
    by (simp add: CalculateNewSize_Inr scale_step_def wrap64_id)
qed

theorem percent_new_size_witness:
  "CalculateNewSize amd64_oob ref_quantity (Some (sample_config\<lparr>pc_Increase := fmt_nat 25 @ ''%''\<rparr>)) (gi 10)
    = Inr (qty_binary ref_quantity 13958643712)"
  using percent_new_size [of "sample_config\<lparr>pc_Increase := fmt_nat 25 @ ''%''\<rparr>" 25 ref_quantity "gi 10"
      10737418240 1073741824 amd64_oob]
  by (simp add: sample_config_def max_int64_def gibBoundary_def)

text \<open>C19. Whatever the increase, below the top of int64 the new size is a whole number of GiB, at
  least the current size plus the step (the increase or the minimum, whichever is larger), and
  less than a GiB above that.\<close>

theorem new_size_within_a_gib:
  assumes "quantity_api Q amount" and "CalculateNewSize oob Q (Some c) cur = Inr new"
    and "increase_of oob Q (pc_Increase c) cur = Inr inc"
    and "0 \<le> qty_value Q cur + scale_step Q c inc"
    and "qty_value Q cur + scale_step Q c inc \<le> max_int64 - gibBoundary"
  shows "gibBoundary dvd qty_value Q new \<and> qty_value Q cur + scale_step Q c inc \<le> qty_value Q new \<and>
    qty_value Q new < qty_value Q cur + scale_step Q c inc + gibBoundary"
  using quantity_api.new_size_bounds [OF assms] by blast

theorem new_size_within_a_gib_witness:
  "gibBoundary dvd qty_value ref_quantity (gi 11)"
  using new_size_within_a_gib [OF ref_qty.quantity_api_axioms sample_new_size [of amd64_oob], of 1073741824]
    sample_increase [of amd64_oob]
  by (simp add: sample_config_def scale_step_def max_int64_def gibBoundary_def)

text \<open>The sum and the rounding are int64 arithmetic with no overflow check: once the current
  size plus the step is within a GiB of 2^63, the "new size" is negative.\<close>

lemma new_size_overflow:
  assumes "quantity_api Q amount" and "CalculateNewSize oob Q (Some c) cur = Inr new"
    and "increase_of oob Q (pc_Increase c) cur = Inr inc"
    and "max_int64 - gibBoundary + 1 < qty_value Q cur + scale_step Q c inc"
    and "qty_value Q cur + scale_step Q c inc \<le> max_int64"
  shows "qty_value Q new < 0"
proof -
  let ?n = "qty_value Q cur + scale_step Q c inc"
  have "in_int64 ?n" using assms(4,5) by (simp add: in_int64_def min_int64_def max_int64_def gibBoundary_def)
  then have "new = qty_binary Q (round_to_gib ?n)"
    using assms(2,3) by (auto simp: CalculateNewSize_Inr wrap64_id)
  then show ?thesis
    using round_to_gib_overflow [OF assms(4,5)] quantity_api.value_binary [OF assms(1)] by simp
qed

section \<open>Percentages\<close>

text \<open>"NaN%" is accepted too, and a claim whose threshold is NaN never reaches it, however
  full its volume is.\<close>

lemma nan_threshold:
  "parsePercentage ''NaN%'' = Inr FNaN \<and> \<not> storage_reached (c\<lparr>pc_Threshold := FNaN\<rparr>) vm"
proof
  show "parsePercentage ''NaN%'' = Inr FNaN" by code_simp
  show "\<not> storage_reached (c\<lparr>pc_Threshold := FNaN\<rparr>) vm"
    by (simp add: storage_reached_def f_le_def f_eq_def)
qed

section \<open>Where the settings come from\<close>



text \<open>The cooldown of a policy has no effect: a claim that a policy manages resolves, right after
  an expansion as before it, to settings that do not put it in cooldown at any time, since a
  configuration built from a policy drops the time of the last expansion.\<close>

lemma policy_ignores_cooldown:
  assumes "map_get (pvc_annotations p) AnnotationEnabled = None" and "ResolvePVCConfig Q K p g s = Inr c"
  shows "ResolvePVCConfig Q K (UpdateLastExpansion zone now p) g s = Inr c \<and> \<not> IsInCooldown later (Some c)"
proof -
  have e: "map_get (pvc_annotations (UpdateLastExpansion zone now p)) AnnotationEnabled = None"
    using assms(1) annotation_distinct by (auto simp: UpdateLastExpansion_def map_get_def split: option.splits)
  have policy: "ResolvePVCConfig Q K q g s = (case kube_list_policies K (pvc_namespace q) s of
      Inl err \<Rightarrow> Inl (ListFailed err)
    | Inr policies \<Rightarrow> try_in (first_match K (pvc_labels q) policies) (\<lambda>pol. Inr (buildConfigFromPolicy pol g)))"
    if "map_get (pvc_annotations q) AnnotationEnabled = None" for q
    using that by (auto simp: ResolvePVCConfig_def explicitly_disabled_def ParsePVCAnnotations_def map_get_def
        split: option.splits)
  show ?thesis
    using assms(2) unfolding policy [OF assms(1)] policy [OF e]
    by (auto simp: UpdateLastExpansion_def try_in_Inr IsInCooldown_def buildConfigFromPolicy_def Let_def
        split: sum.splits)
qed

end
