(* ===== verification/ControllerProperties.thy ===== *)
theory ControllerProperties
  imports ConfigProperties MetricFacts
begin

text \<open>
  The properties of the expansion controller
  (internal/controller/persistentvolumeclaim_controller.go).
\<close>

section \<open>One claim\<close>

text \<open>C1. Refinement: with a coherent storage class cache, reconciling a claim does to the API
  server exactly what the cache-free contract says: nothing when there is no target, otherwise
  one update with the claim's expansion object of the target size.\<close>

theorem reconcile_refines:
  assumes "scc.coherent (class_answer (r_Client R) (st_server st)) (st_cache st)"
    and "reconcilePVC R now1 now2 p mc st = Inr st'"
  shows "st_server st' = (case cycle_target R now1 p mc (st_server st) of
      None \<Rightarrow> st_server st
    | Some n \<Rightarrow> snd (kube_update_pvc (r_Client R) (expansion_object R now2 p n) (st_server st)))"
proof -
  obtain e st1 where e: "IsStorageClassExpandable R p st = (e, st1)" by (cases "IsStorageClassExpandable R p st")
  from reconcile_server [OF e assms(2)] expandable_transparent(1) [OF assms(1) e]
  show ?thesis by (simp add: cycle_target_def)
qed

theorem reconcile_refines_witness:
  "\<exists>st'. reconcilePVC sample_reconciler 0 0 sample_pvc sample_cache sample_state = Inr st' \<and>
    st_server st' = snd (kube_update_pvc ref_kube (expansion_object sample_reconciler 0 sample_pvc (gi 11)) sample_server)"
proof -
  obtain st' where run: "reconcilePVC sample_reconciler 0 0 sample_pvc sample_cache sample_state = Inr st'"
    by (rule sample_run [of 0 0]) blast
  have "st_server sample_state = sample_server" "r_Client sample_reconciler = ref_kube"
    by (simp_all add: sample_state_def sample_reconciler_def)
  then show ?thesis
    using reconcile_refines [OF sample_state_ok run] run sample_target [of 0] by simp
qed

text \<open>C2. Safety: the server changes only for a claim that some configuration governs, that is
  bound and of file system mode, on an expandable class, not resizing, outside its cooldown, with
  metrics over a threshold, in a run that is not dry, and for a size within the maximum.\<close>

theorem writes_need_all_guards:
  assumes "reconcilePVC R now1 now2 p mc st = Inr st'" and "st_server st' \<noteq> st_server st"
  shows "\<exists>config vm n.
    ResolvePVCConfig (r_Q R) (r_Client R) p (r_GlobalConfig R) (st_server st) = Inr config \<and>
    IsPVCEligible p \<and> fst (IsStorageClassExpandable R p st) \<and> \<not> IsPvcResizing (Some p) \<and>
    \<not> IsInCooldown now1 (Some config) \<and> mc_Get mc (pvc_key p) = Some vm \<and>
    (f_le (pc_Threshold config) (vm_UsagePercent vm) \<or>
      0 < vm_InodesTotal vm \<and> f_le (pc_InodesThreshold config) (vm_InodesUsagePercent vm)) \<and>
    \<not> r_DryRun R \<and>
    CalculateNewSize (r_oob R) (r_Q R) (Some config) (pvc_capacity_storage (r_Q R) p) = Inr n \<and>
    \<not> ExceedsMaxSize (r_Q R) (Some config) n \<and>
    st_server st' = snd (kube_update_pvc (r_Client R) (expansion_object R now2 p n) (st_server st))"
proof -
  obtain e st1 where e: "IsStorageClassExpandable R p st = (e, st1)" by (cases "IsStorageClassExpandable R p st")
  obtain n where "expansion_target R now1 p mc e (st_server st) = Some n"
    and "st_server st' = snd (kube_update_pvc (r_Client R) (expansion_object R now2 p n) (st_server st))"
    using reconcile_server [OF e assms(1)] assms(2)
    by (cases "expansion_target R now1 p mc e (st_server st)") auto
  then show ?thesis
    using e by (auto simp: expansion_target_def may_expand_def target_size_def storage_reached_def
        inodes_reached_def split: sum.splits option.splits if_splits)
qed

theorem writes_need_all_guards_witness:
  "\<exists>config. ResolvePVCConfig ref_quantity ref_kube sample_pvc sample_global sample_server = Inr config \<and>
    IsPVCEligible sample_pvc \<and> \<not> IsInCooldown 0 (Some config)"
proof -
  obtain st' where run: "reconcilePVC sample_reconciler 0 0 sample_pvc sample_cache sample_state = Inr st'"
    and v: "ref_view (st_server st') (pvc_key sample_pvc) = Some (expansion_object sample_reconciler 0 sample_pvc (gi 11))"
    by (rule sample_run [of 0 0]) blast
  have "st_server st' \<noteq> st_server sample_state"
    using v sample_grows [of 0] by (auto simp: sample_state_def)
  from writes_need_all_guards [OF run this] show ?thesis
    by (auto simp: sample_state_def sample_reconciler_def)
qed



text \<open>C36. The one way a reconciliation can panic: there is a size to ask for and the claim has no
  requests map.\<close>

theorem panic_iff_no_requests:
  "reconcilePVC R now1 now2 p mc st = Inl panic \<longleftrightarrow>
    panic = NilMapWrite \<and> pvc_requests p = None \<and>
    expansion_target R now1 p mc (fst (IsStorageClassExpandable R p st)) (st_server st) \<noteq> None"
  by (cases "IsStorageClassExpandable R p st") (simp add: reconcile_panic)




section \<open>A cycle\<close>

text \<open>C14. A whole cycle, over any API server that keeps its contract and for every order of the
  goroutines: an object is as it was, or it is a stored claim that now is its expansion object
  for the size the server at the start of the cycle called for.\<close>

theorem cycle_only_expands:
  assumes "kube_store (r_Client R) view" and "\<And>ps. mset (map fst (sched ps)) = mset ps"
    and "reconcileAll R fetched sched dur fin st = Inr st'"
  shows "view (st_server st') k = view (st_server st) k \<or>
    (\<exists>mc p now1 now2 n ps. fetched = Inr mc \<and> pvc_key p = k \<and> view (st_server st) k = Some p \<and>
      (p, now1, now2) \<in> set (sched ps) \<and> cycle_target R now1 p mc (st_server st) = Some n \<and>
      view (st_server st') k = Some (expansion_object R now2 p n))"
  using kube_store.cycle_effect [OF assms(1) refl assms(2,3)] .

theorem cycle_only_expands_witness:
  "\<exists>st'. reconcileAll sample_reconciler (Inr sample_cache) (map (\<lambda>p. (p, 0, 0))) (FFin 1) (FFin 2)
      sample_state = Inr st' \<and>
    ref_view (st_server st') \<lparr>nn_namespace = ''apps'', nn_name = ''other''\<rparr> = None"
proof -
  have sched: "mset (map fst (map (\<lambda>p. (p, 0, 0)) ps)) = mset ps" for ps :: "int pvc list"
    by (simp add: comp_def)
  have R: "r_Client sample_reconciler = ref_kube" "st_server sample_state = sample_server"
    by (simp_all add: sample_reconciler_def sample_state_def)
  have "\<forall>p \<in> set pvcs. pvc_requests p \<noteq> None"
    if "kube_list_pvcs (r_Client sample_reconciler) (st_server sample_state) = Inr pvcs" for pvcs
    using that sample_requests by (auto simp: R sample_listed)
  then obtain st' where run: "reconcileAll sample_reconciler (Inr sample_cache) (map (\<lambda>p. (p, 0, 0)))
      (FFin 1) (FFin 2) sample_state = Inr st'"
    using cycle_completes [of "map (\<lambda>p. (p, 0, 0))" sample_reconciler sample_state, OF sched] by blast
  let ?k = "\<lparr>nn_namespace = ''apps'', nn_name = ''other''\<rparr>"
  have "ref_view sample_server ?k = None"
    by (simp add: ref_view_def sample_server_def sample_pvc_def small_pvc_def pvc_key_def)
  then show ?thesis
    using cycle_only_expands [OF ref_api.kube_store_axioms [folded R(1)] sched run, of ?k] run R by auto
qed

end
