(* ===== verification/Interleaving.thy ===== *)
theory Interleaving
  imports CycleFacts
begin

text \<open>
  The goroutines of a cycle at the grain of their accesses to shared state. \<open>reconcilePVC\<close> is cut
  into steps, each of which touches the API server or the storage class cache at most once, and
  the workers of a cycle take their steps in any order. The metric and event logs are only
  appended to.
\<close>

section \<open>One worker\<close>

text \<open>Where a worker is in \<open>reconcilePVC\<close>, with the variables it still needs.\<close>

datatype 'q worker_pc =
    Resolve
  | CacheLookup "'q PVCConfig" string
  | ReadClass "'q PVCConfig" string
  | StoreClass "'q PVCConfig" string storage_class
  | StoreFsType "'q PVCConfig" string storage_class
  | Decide "'q PVCConfig" bool
  | ReadFsType "'q PVCConfig" VolumeMetrics
  | Expand "'q PVCConfig" VolumeMetrics string
  | Returned

text \<open>The guards between \<open>IsStorageClassExpandable\<close> and the threshold check: no shared state but the log.\<close>

definition decide ::
  "('q, 'sel, 's) Reconciler \<Rightarrow> MetricsCache \<Rightarrow> 'q pvc \<Rightarrow> time \<Rightarrow> 'q PVCConfig \<Rightarrow> bool \<Rightarrow>
   ('q, 's) rstate \<Rightarrow> 'q worker_pc \<times> ('q, 's) rstate" where
  "decide R metricsCache p now config expandable st =
     (let Q = r_Q R; name = pvc_name p; ns = pvc_namespace p in
      if \<not> expandable then
        (Returned, record_metrics (RecordFailedResize name ns ''storage_class_not_expandable'') st)
      else if IsPvcResizing (Some p) then (Returned, record_metrics (RecordResizeInProgress name ns) st)
      else if IsInCooldown now (Some config) then
        (Returned, record_metrics (RecordCooldownSkipped name ns) st)
      else case mc_Get metricsCache (pvc_key p) of
        None \<Rightarrow> (Returned, record_metrics (RecordFailedResize name ns ''metrics_not_found'') st)
      | Some vm \<Rightarrow>
      let st = record_metrics
                 (UpdatePVCMetrics name ns (vm_UsagePercent vm) (qty_value Q (pvc_capacity_storage Q p))) st;
          st = record_metrics
                 (UpdatePVCInodesMetrics name ns (vm_InodesUsagePercent vm) (vm_InodesTotal vm)) st
      in
      if inodes_reached config vm then (ReadFsType config vm, st)
      else if storage_reached config vm then (Expand config vm '''', st)
      else (Returned, st))"

definition finish_expansion ::
  "('q, 'sel, 's) Reconciler \<Rightarrow> 'q pvc \<Rightarrow> time \<Rightarrow> 'q PVCConfig \<Rightarrow> VolumeMetrics \<Rightarrow> string \<Rightarrow>
   ('q, 's) rstate \<Rightarrow> ('q, 's) rstate go_run" where
  "finish_expansion R p now config vm fsType st =
     (let name = pvc_name p; ns = pvc_namespace p;
          st = record_metrics (RecordThresholdReached name ns) st in
      case ExpandPVC R now p config st of
        Inl panic \<Rightarrow> Inl panic
      | Inr (Some e, st) \<Rightarrow>
          Inr (emit_event (failure_event p e)
                (record_metrics (RecordFailedResize name ns ''expansion_failed'') st))
      | Inr (None, st) \<Rightarrow>
          Inr (emit_event (expansion_event (r_Q R) p config vm fsType)
                (record_metrics (RecordSuccessfulResize name ns) st)))"

fun worker_step ::
  "('q, 'sel, 's) Reconciler \<Rightarrow> MetricsCache \<Rightarrow> 'q pvc \<Rightarrow> time \<Rightarrow> time \<Rightarrow> 'q worker_pc \<Rightarrow>
   ('q, 's) rstate \<Rightarrow> ('q worker_pc \<times> ('q, 's) rstate) go_run" where
  "worker_step R mc p now1 now2 Resolve st =
     (case ResolvePVCConfig (r_Q R) (r_Client R) p (r_GlobalConfig R) (st_server st) of
        Inl _ \<Rightarrow> Inr (Returned, st)
      | Inr config \<Rightarrow>
          if \<not> IsPVCEligible p then Inr (Returned, st)
          else (case pvc_storage_class p of
             None \<Rightarrow> Inr (Decide config False, st)
           | Some scName \<Rightarrow> Inr (CacheLookup config scName, st)))"
| "worker_step R mc p now1 now2 (CacheLookup config scName) st =
     (case cache_Get (st_cache st) scName of
        Some expandable \<Rightarrow> Inr (Decide config expandable, st)
      | None \<Rightarrow> Inr (ReadClass config scName, st))"
| "worker_step R mc p now1 now2 (ReadClass config scName) st =
     (case kube_get_storage_class (r_Client R) scName (st_server st) of
        Inl _ \<Rightarrow> Inr (Decide config False,
          record_metrics (RecordKubernetesClientRequest ''get_storageclass'' ''failed'') st)
      | Inr sc \<Rightarrow> Inr (StoreClass config scName sc,
          record_metrics (RecordKubernetesClientRequest ''get_storageclass'' ''success'') st))"
| "worker_step R mc p now1 now2 (StoreClass config scName sc) st =
     Inr (StoreFsType config scName sc, st\<lparr>st_cache := cache_Set (st_cache st) scName (class_expandable sc)\<rparr>)"
| "worker_step R mc p now1 now2 (StoreFsType config scName sc) st =
     Inr (Decide config (class_expandable sc),
          st\<lparr>st_cache := cache_SetFsType (st_cache st) scName (class_fs_type sc)\<rparr>)"
| "worker_step R mc p now1 now2 (Decide config expandable) st = Inr (decide R mc p now1 config expandable st)"
| "worker_step R mc p now1 now2 (ReadFsType config vm) st =
     Inr (Expand config vm (getFilesystemType p st), st)"
| "worker_step R mc p now1 now2 (Expand config vm fsType) st =
     try_in (finish_expansion R p now2 config vm fsType st) (\<lambda>st. Inr (Returned, st))"
| "worker_step R mc p now1 now2 Returned st = Inr (Returned, st)"

text \<open>A worker that runs alone takes at most eight steps.\<close>

fun worker_steps ::
  "('q, 'sel, 's) Reconciler \<Rightarrow> MetricsCache \<Rightarrow> 'q pvc \<Rightarrow> time \<Rightarrow> time \<Rightarrow> nat \<Rightarrow> 'q worker_pc \<Rightarrow>
   ('q, 's) rstate \<Rightarrow> ('q worker_pc \<times> ('q, 's) rstate) go_run" where
  "worker_steps R mc p now1 now2 0 pc st = Inr (pc, st)"
| "worker_steps R mc p now1 now2 (Suc n) pc st =
     try_in (worker_step R mc p now1 now2 pc st) (\<lambda>(pc, st). worker_steps R mc p now1 now2 n pc st)"

text \<open>The steps still ahead of a worker, at most.\<close>

fun steps_left :: "'q worker_pc \<Rightarrow> nat" where
  "steps_left Resolve = 8"
| "steps_left (CacheLookup config scName) = 7"
| "steps_left (ReadClass config scName) = 6"
| "steps_left (StoreClass config scName sc) = 5"
| "steps_left (StoreFsType config scName sc) = 4"
| "steps_left (Decide config e) = 3"
| "steps_left (ReadFsType config vm) = 2"
| "steps_left (Expand config vm fsType) = 1"
| "steps_left Returned = 0"

section \<open>All workers of a cycle\<close>

record 'q worker =
  wk_pvc :: "'q pvc"
  wk_now1 :: time
  wk_now2 :: time
  wk_pc :: "'q worker_pc"

record ('q, 's) cycle_state =
  cy_workers :: "'q worker list"
  cy_shared :: "('q, 's) rstate"

definition spawn :: "'q pvc \<times> time \<times> time \<Rightarrow> 'q worker" where
  "spawn x = (case x of (p, now1, now2) \<Rightarrow> \<lparr>wk_pvc = p, wk_now1 = now1, wk_now2 = now2, wk_pc = Resolve\<rparr>)"

definition worker_job :: "'q worker \<Rightarrow> 'q pvc \<times> time \<times> time" where
  "worker_job w = (wk_pvc w, wk_now1 w, wk_now2 w)"

definition cycle_initial :: "('q pvc \<times> time \<times> time) list \<Rightarrow> ('q, 's) rstate \<Rightarrow> ('q, 's) cycle_state" where
  "cycle_initial jobs st = \<lparr>cy_workers = map spawn jobs, cy_shared = st\<rparr>"

text \<open>The step of worker \<open>i\<close>; None when there is no such worker, or it has returned, or it panics.\<close>

definition cycle_exec ::
  "('q, 'sel, 's) Reconciler \<Rightarrow> MetricsCache \<Rightarrow> nat \<Rightarrow> ('q, 's) cycle_state \<Rightarrow> ('q, 's) cycle_state option" where
  "cycle_exec R mc i s =
     (if i < length (cy_workers s) then
        let w = cy_workers s ! i in
        if wk_pc w = Returned then None
        else case worker_step R mc (wk_pvc w) (wk_now1 w) (wk_now2 w) (wk_pc w) (cy_shared s) of
          Inl panic \<Rightarrow> None
        | Inr (pc, st) \<Rightarrow> Some \<lparr>cy_workers = (cy_workers s)[i := w\<lparr>wk_pc := pc\<rparr>], cy_shared = st\<rparr>
      else None)"

inductive cycle_step ::
  "('q, 'sel, 's) Reconciler \<Rightarrow> MetricsCache \<Rightarrow> ('q, 's) cycle_state \<Rightarrow> ('q, 's) cycle_state \<Rightarrow> bool" for R mc where
  "i < length (cy_workers s) \<Longrightarrow> w = cy_workers s ! i \<Longrightarrow> wk_pc w \<noteq> Returned \<Longrightarrow>
   worker_step R mc (wk_pvc w) (wk_now1 w) (wk_now2 w) (wk_pc w) (cy_shared s) = Inr (pc, st) \<Longrightarrow>
   cycle_step R mc s \<lparr>cy_workers = (cy_workers s)[i := w\<lparr>wk_pc := pc\<rparr>], cy_shared = st\<rparr>"

inductive_cases cycle_stepE: "cycle_step R mc s s'"

inductive cycle_reach ::
  "('q, 'sel, 's) Reconciler \<Rightarrow> MetricsCache \<Rightarrow> ('q pvc \<times> time \<times> time) list \<Rightarrow> ('q, 's) rstate \<Rightarrow>
   ('q, 's) cycle_state \<Rightarrow> bool" for R mc jobs st where
  initial: "cycle_reach R mc jobs st (cycle_initial jobs st)"
| more: "cycle_reach R mc jobs st s \<Longrightarrow> cycle_step R mc s s' \<Longrightarrow> cycle_reach R mc jobs st s'"

text \<open>A schedule as the list of the workers that step.\<close>

fun cycle_execs ::
  "('q, 'sel, 's) Reconciler \<Rightarrow> MetricsCache \<Rightarrow> nat list \<Rightarrow> ('q, 's) cycle_state \<Rightarrow> ('q, 's) cycle_state option" where
  "cycle_execs R mc [] s = Some s"
| "cycle_execs R mc (i # is) s = (case cycle_exec R mc i s of None \<Rightarrow> None | Some s' \<Rightarrow> cycle_execs R mc is s')"

definition all_returned :: "('q, 's) cycle_state \<Rightarrow> bool" where
  "all_returned s \<longleftrightarrow> (\<forall>w \<in> set (cy_workers s). wk_pc w = Returned)"

section \<open>A worker alone is \<open>reconcilePVC\<close>\<close>

lemma cycle_exec_step: "cycle_exec R mc i s = Some s' \<Longrightarrow> cycle_step R mc s s'"
  by (auto simp: cycle_exec_def Let_def intro: cycle_step.intros split: if_splits sum.splits)

lemma cycle_execs_reach:
  "cycle_execs R mc is s = Some s' \<Longrightarrow> cycle_reach R mc jobs st s \<Longrightarrow> cycle_reach R mc jobs st s'"
proof (induction "is" arbitrary: s)
  case (Cons i "is")
  then obtain s1 where s1: "cycle_exec R mc i s = Some s1" "cycle_execs R mc is s1 = Some s'"
    by (auto split: option.splits)
  from Cons.prems(2) cycle_exec_step [OF s1(1)] have "cycle_reach R mc jobs st s1" by (rule cycle_reach.more)
  with Cons.IH s1(2) show ?case .
qed simp

lemma worker_steps_Returned: "worker_steps R mc p now1 now2 n Returned st = Inr (Returned, st)"
  by (induction n) simp_all

lemma returned_absorbs:
  "try_in (try_in x (\<lambda>st. Inr (Returned, st))) (\<lambda>(pc, st). worker_steps R mc p now1 now2 n pc st) =
    try_in x (\<lambda>st. Inr (Returned, st))"
  by (cases x) (simp_all add: worker_steps_Returned)

text \<open>From the guards on.\<close>

lemma decide_alone:
  "try_in (worker_step R mc p now1 now2 (Decide config e) st) (\<lambda>(pc, st).
     worker_steps R mc p now1 now2 (Suc (Suc n)) pc st) =
   (let Q = r_Q R; name = pvc_name p; ns = pvc_namespace p in
      if \<not> e then Inr (Returned, record_metrics (RecordFailedResize name ns ''storage_class_not_expandable'') st)
      else if IsPvcResizing (Some p) then Inr (Returned, record_metrics (RecordResizeInProgress name ns) st)
      else if IsInCooldown now1 (Some config) then Inr (Returned, record_metrics (RecordCooldownSkipped name ns) st)
      else case mc_Get mc (pvc_key p) of
        None \<Rightarrow> Inr (Returned, record_metrics (RecordFailedResize name ns ''metrics_not_found'') st)
      | Some vm \<Rightarrow>
        if storage_reached config vm \<or> inodes_reached config vm then
          try_in (finish_expansion R p now2 config vm
            (if inodes_reached config vm then getFilesystemType p st else '''') (observed Q p vm st)) (\<lambda>st. Inr (Returned, st))
        else Inr (Returned, observed Q p vm st))"
  by (simp add: decide_def Let_def worker_steps_Returned returned_absorbs flip: observed_def split: option.split)

lemma steps_left_decreases:
  "worker_step R mc p now1 now2 pc st = Inr (pc', st') \<Longrightarrow> pc \<noteq> Returned \<Longrightarrow> steps_left pc' < steps_left pc"
  by (cases pc) (auto simp: decide_def Let_def try_in_Inr split: sum.splits option.splits if_splits)

lemma reconcilePVC_finish:
  "try_in (reconcilePVC R now1 now2 p mc st) (\<lambda>st. Inr (Returned, st)) =
   (case ResolvePVCConfig (r_Q R) (r_Client R) p (r_GlobalConfig R) (st_server st) of
      Inl _ \<Rightarrow> Inr (Returned, st)
    | Inr config \<Rightarrow>
      if \<not> IsPVCEligible p then Inr (Returned, st) else
      case IsStorageClassExpandable R p st of (e, st) \<Rightarrow>
      try_in (worker_step R mc p now1 now2 (Decide config e) st)
        (\<lambda>(pc, st). worker_steps R mc p now1 now2 (Suc (Suc n)) pc st))"
  unfolding decide_alone
  by (auto simp: reconcilePVC_def finish_expansion_def Let_def simp flip: observed_def
      split: sum.split prod.split option.split)

text \<open>The cut into steps is faithful: eight of them are a reconciliation, panics included.\<close>

lemma worker_alone:
  "worker_steps R mc p now1 now2 8 Resolve st =
    try_in (reconcilePVC R now1 now2 p mc st) (\<lambda>st. Inr (Returned, st))"
  unfolding reconcilePVC_finish [where n = 0]
  by (simp add: numeral_eq_Suc worker_steps_Returned IsStorageClassExpandable_def Let_def
      del: worker_step.simps(6) split: sum.split option.split)
    (auto simp: decide_alone simp del: worker_step.simps(6))

end
