(* ===== verification/InterleavingFacts.thy ===== *)
theory InterleavingFacts
  imports Interleaving
begin

text \<open>
  Every interleaving of a cycle's workers is serialisable: the API server ends up as if the
  reconciliations had run one after the other, in the order in which they wrote. The workers
  share the storage class cache, whose answers on expandability are those of the API at every
  moment; its file system types may still be missing when they are read.
\<close>

section \<open>What a step preserves\<close>

text \<open>The parts of the server that a cycle reads and does not write.\<close>

definition same_world :: "('q, 'sel, 's) kube \<Rightarrow> 's \<Rightarrow> 's \<Rightarrow> bool" where
  "same_world K s0 s \<longleftrightarrow>
     (\<forall>n. kube_get_storage_class K n s = kube_get_storage_class K n s0) \<and>
     (\<forall>ns. kube_list_policies K ns s = kube_list_policies K ns s0)"

text \<open>Entries of the two tables, each on its own, are what the API answers.\<close>

definition cache_sound :: "(string \<Rightarrow> (bool \<times> string) option) \<Rightarrow> storage_class_cache \<Rightarrow> bool" where
  "cache_sound ans c \<longleftrightarrow>
     (\<forall>n e. cache_Get c n = Some e \<longrightarrow> (\<exists>f. ans n = Some (e, f))) \<and>
     (\<forall>n f. cache_GetFsType c n = Some f \<longrightarrow> (\<exists>e. ans n = Some (e, f)))"

lemma cache_sound_Set:
  "cache_sound ans c \<Longrightarrow> ans n = Some (e, f) \<Longrightarrow> cache_sound ans (cache_Set c n e)"
  "cache_sound ans c \<Longrightarrow> ans n = Some (e, f) \<Longrightarrow> cache_sound ans (cache_SetFsType c n f)"
  by (auto simp: cache_sound_def)

text \<open>What a reconciliation does to the server, from the server \<open>s0\<close> the cycle began with.\<close>

definition job_effect ::
  "('q, 'sel, 's) Reconciler \<Rightarrow> MetricsCache \<Rightarrow> 's \<Rightarrow> 'q pvc \<times> time \<times> time \<Rightarrow> 's \<Rightarrow> 's" where
  "job_effect R mc s0 job s = (case job of (p, now1, now2) \<Rightarrow>
     (case cycle_target R now1 p mc s0 of
        None \<Rightarrow> s
      | Some n \<Rightarrow> snd (kube_update_pvc (r_Client R) (expansion_object R now2 p n) s)))"

definition job_safe :: "('q, 'sel, 's) Reconciler \<Rightarrow> MetricsCache \<Rightarrow> 's \<Rightarrow> 'q pvc \<times> time \<times> time \<Rightarrow> bool" where
  "job_safe R mc s0 job \<longleftrightarrow> (case job of (p, now1, now2) \<Rightarrow>
     cycle_target R now1 p mc s0 \<noteq> None \<longrightarrow> pvc_requests p \<noteq> None)"

text \<open>What is known of the variables of a worker where it is.\<close>

definition resolved :: "('q, 'sel, 's) Reconciler \<Rightarrow> 's \<Rightarrow> 'q pvc \<Rightarrow> 'q PVCConfig \<Rightarrow> bool" where
  "resolved R s0 p config \<longleftrightarrow> ResolvePVCConfig (r_Q R) (r_Client R) p (r_GlobalConfig R) s0 = Inr config"

fun pc_ok :: "('q, 'sel, 's) Reconciler \<Rightarrow> MetricsCache \<Rightarrow> 's \<Rightarrow> 'q pvc \<Rightarrow> time \<Rightarrow> 'q worker_pc \<Rightarrow> bool" where
  "pc_ok R mc s0 p now (CacheLookup config n) \<longleftrightarrow>
     resolved R s0 p config \<and> IsPVCEligible p \<and> pvc_storage_class p = Some n"
| "pc_ok R mc s0 p now (ReadClass config n) \<longleftrightarrow>
     resolved R s0 p config \<and> IsPVCEligible p \<and> pvc_storage_class p = Some n"
| "pc_ok R mc s0 p now (StoreClass config n sc) \<longleftrightarrow>
     resolved R s0 p config \<and> IsPVCEligible p \<and> pvc_storage_class p = Some n \<and>
     kube_get_storage_class (r_Client R) n s0 = Inr sc"
| "pc_ok R mc s0 p now (StoreFsType config n sc) \<longleftrightarrow>
     resolved R s0 p config \<and> IsPVCEligible p \<and> pvc_storage_class p = Some n \<and>
     kube_get_storage_class (r_Client R) n s0 = Inr sc"
| "pc_ok R mc s0 p now (Decide config e) \<longleftrightarrow>
     resolved R s0 p config \<and> IsPVCEligible p \<and> e = expandable_now (r_Client R) s0 p"
| "pc_ok R mc s0 p now (ReadFsType config vm) \<longleftrightarrow>
     resolved R s0 p config \<and> may_expand R now p mc (expandable_now (r_Client R) s0 p) config"
| "pc_ok R mc s0 p now (Expand config vm fsType) \<longleftrightarrow>
     resolved R s0 p config \<and> may_expand R now p mc (expandable_now (r_Client R) s0 p) config \<and>
     fsType \<in> {'''', ''ext4'', fs_type_now (r_Client R) s0 p}"
| "pc_ok R mc s0 p now _ \<longleftrightarrow> True"

lemma same_world_answer: "same_world K s0 s \<Longrightarrow> class_answer K s = class_answer K s0"
  unfolding same_world_def by (intro class_answer_cong) blast

lemma same_world_resolve: "same_world K s0 s \<Longrightarrow> ResolvePVCConfig Q K p g s = ResolvePVCConfig Q K p g s0"
  unfolding same_world_def by (intro resolve_cong) blast

lemma same_world_target: "same_world (r_Client R) s0 s \<Longrightarrow> cycle_target R now p mc s = cycle_target R now p mc s0"
  unfolding cycle_target_def expansion_target_def expandable_now_def
  by (simp only: same_world_answer same_world_resolve)

lemma same_world_expandable: "same_world K s0 s \<Longrightarrow> expandable_now K s p = expandable_now K s0 p"
  unfolding expandable_now_def by (simp only: same_world_answer)

lemma cache_sound_fs_type:
  "cache_sound (class_answer K s0) (st_cache st) \<Longrightarrow> getFilesystemType p st \<in> {''ext4'', fs_type_now K s0 p}"
  by (cases "pvc_storage_class p")
    (fastforce simp: getFilesystemType_def fs_type_now_def cache_sound_def split: option.split)+

lemma target_resolved:
  assumes "resolved R s0 p config"
  shows "cycle_target R now p mc s0 =
    (if may_expand R now p mc (expandable_now (r_Client R) s0 p) config \<and> \<not> r_DryRun R
     then target_size R p config else None)"
  using assms by (simp add: cycle_target_def expansion_target_def resolved_def)

text \<open>The guards: where they let a worker go on, they hold.\<close>

lemma decide_cases:
  assumes "decide R mc p now config e st = (pc', st')" and "IsPVCEligible p"
  shows "st_server st' = st_server st \<and> st_cache st' = st_cache st \<and>
    (case pc' of
       ReadFsType c vm \<Rightarrow> c = config \<and> may_expand R now p mc e config
     | Expand c vm fs \<Rightarrow> c = config \<and> may_expand R now p mc e config \<and> fs = ''''
     | Returned \<Rightarrow> \<not> may_expand R now p mc e config
     | _ \<Rightarrow> False)"
  using assms by (auto simp: decide_def may_expand_def Let_def split: if_splits option.splits)

lemma finish_expansion_server:
  assumes "finish_expansion R p now config vm fs st = Inr st'"
  shows "st_cache st' = st_cache st \<and> st_server st' = (case (if r_DryRun R then None else target_size R p config) of
      None \<Rightarrow> st_server st
    | Some n \<Rightarrow> snd (kube_update_pvc (r_Client R) (expansion_object R now p n) (st_server st))) \<and>
    (\<not> r_DryRun R \<and> target_size R p config \<noteq> None \<longrightarrow> pvc_requests p \<noteq> None)"
proof -
  let ?st = "record_metrics (RecordThresholdReached (pvc_name p) (pvc_namespace p)) st"
  obtain r st3 where e: "ExpandPVC R now p config ?st = Inr (r, st3)"
    and st': "st_server st' = st_server st3" "st_cache st' = st_cache st3"
    using assms by (auto simp: finish_expansion_def Let_def split: sum.splits option.splits)
  have "ExpandPVC R now p config ?st \<noteq> Inl NilMapWrite" using e by simp
  then have "\<not> r_DryRun R \<and> target_size R p config \<noteq> None \<longrightarrow> pvc_requests p \<noteq> None"
    unfolding ExpandPVC_panic by auto
  with ExpandPVC_target [OF e, unfolded record_metrics_simps] ExpandPVC_frame [OF e] st' show ?thesis by simp
qed

context kube_store
begin

lemma job_effect_world:
  assumes "r_Client R = K"
  shows "same_world K s0 (job_effect R mc s1 job s) \<longleftrightarrow> same_world K s0 s"
proof -
  have "same_world K s0 (snd (kube_update_pvc K q s)) \<longleftrightarrow> same_world K s0 s" for q
  proof (cases "kube_update_pvc K q s")
    case (Pair r s')
    then show ?thesis using class_stable policies_stable by (simp add: same_world_def)
  qed
  then show ?thesis using assms by (auto simp: job_effect_def split: prod.split option.split)
qed

lemma step_to_Returned:
  assumes R: "r_Client R = K" and "resolved R s0 p config"
    and "\<not> may_expand R now1 p mc (expandable_now K s0 p) config"
  shows "job_effect R mc s0 (p, now1, now2) s = s \<and> job_safe R mc s0 (p, now1, now2)"
  using target_resolved [OF assms(2), of now1 mc] assms by (simp add: job_effect_def job_safe_def)

text \<open>
  One step of a worker: it keeps what is known, and writes to the server only when it returns, and
  then what its job asks for.
\<close>

lemma worker_step_effect:
  assumes R: "r_Client R = K" and world: "same_world K s0 (st_server st)"
    and cache: "cache_sound (class_answer K s0) (st_cache st)"
    and ok: "pc_ok R mc s0 p now1 pc" and pc: "pc \<noteq> Returned"
    and step: "worker_step R mc p now1 now2 pc st = Inr (pc', st')"
  shows "pc_ok R mc s0 p now1 pc' \<and> cache_sound (class_answer K s0) (st_cache st') \<and>
    st_server st' = (if pc' = Returned then job_effect R mc s0 (p, now1, now2) (st_server st) else st_server st) \<and>
    (pc' = Returned \<longrightarrow> job_safe R mc s0 (p, now1, now2))"
proof (cases pc)
  case Resolve
  have res: "ResolvePVCConfig (r_Q R) K p (r_GlobalConfig R) (st_server st) =
      ResolvePVCConfig (r_Q R) K p (r_GlobalConfig R) s0" using world by (rule same_world_resolve)
  show ?thesis
  proof (cases "ResolvePVCConfig (r_Q R) K p (r_GlobalConfig R) s0")
    case (Inl err)
    then have "cycle_target R now1 p mc s0 = None" using R by (simp add: cycle_target_def expansion_target_def)
    with Inl Resolve step res R cache show ?thesis by (auto simp: job_effect_def job_safe_def)
  next
    case (Inr config)
    then have config: "resolved R s0 p config" using R by (simp add: resolved_def)
    show ?thesis
    proof (cases "IsPVCEligible p")
      case False
      then have "\<not> may_expand R now1 p mc (expandable_now K s0 p) config" by (simp add: may_expand_def)
      from step_to_Returned [OF R config this] False Inr Resolve step res R cache show ?thesis by auto
    next
      case True
      with config Inr Resolve step res R cache show ?thesis
        by (cases "pvc_storage_class p") (auto simp: expandable_now_def)
    qed
  qed
next
  case (CacheLookup config n)
  show ?thesis
  proof (cases "cache_Get (st_cache st) n")
    case None
    with CacheLookup ok step cache show ?thesis by auto
  next
    case (Some e)
    with cache obtain f where "class_answer K s0 n = Some (e, f)" unfolding cache_sound_def by blast
    with Some CacheLookup ok step cache R show ?thesis by (auto simp: expandable_now_def)
  qed
next
  case (ReadClass config n)
  have "kube_get_storage_class K n (st_server st) = kube_get_storage_class K n s0"
    using world by (simp add: same_world_def)
  with ReadClass ok step cache R show ?thesis
    by (auto simp: expandable_now_def class_answer_def split: sum.splits)
next
  case (StoreClass config n sc)
  with ok R have "class_answer K s0 n = Some (class_expandable sc, class_fs_type sc)" by (simp add: class_answer_def)
  with StoreClass ok step cache show ?thesis by (auto simp: cache_sound_Set)
next
  case (StoreFsType config n sc)
  with ok R have "class_answer K s0 n = Some (class_expandable sc, class_fs_type sc)" by (simp add: class_answer_def)
  with StoreFsType ok step cache R show ?thesis by (auto simp: cache_sound_Set expandable_now_def)
next
  case (Decide config e)
  with step have d: "decide R mc p now1 config e st = (pc', st')" by simp
  from Decide ok R have e: "resolved R s0 p config" "IsPVCEligible p" "e = expandable_now K s0 p" by simp_all
  from decide_cases [OF d e(2)] step_to_Returned [OF R e(1), of now1 mc now2] e R cache show ?thesis
    by (cases pc') (auto split: if_splits)
next
  case (ReadFsType config vm)
  with ok step cache R cache_sound_fs_type [OF cache] show ?thesis by auto
next
  case (Expand config vm fs)
  with step obtain st1 where "finish_expansion R p now2 config vm fs st = Inr st1" and st1: "pc' = Returned" "st' = st1"
    by (auto simp: try_in_Inr)
  from finish_expansion_server [OF this(1)] target_resolved [of R s0 p config now1 mc] Expand ok R cache st1 show ?thesis
    by (auto simp: job_effect_def job_safe_def)
qed (use pc in simp)

end

section \<open>Serialisability\<close>

text \<open>
  The invariant of a cycle: there is an order of the workers that have returned in which their jobs
  account for the server.
\<close>

definition cycle_inv ::
  "('q, 'sel, 's) Reconciler \<Rightarrow> MetricsCache \<Rightarrow> ('q pvc \<times> time \<times> time) list \<Rightarrow> 's \<Rightarrow> ('q, 's) cycle_state \<Rightarrow> bool" where
  "cycle_inv R mc jobs s0 s \<longleftrightarrow>
     map worker_job (cy_workers s) = jobs \<and>
     (\<forall>w \<in> set (cy_workers s). pc_ok R mc s0 (wk_pvc w) (wk_now1 w) (wk_pc w)) \<and>
     cache_sound (class_answer (r_Client R) s0) (st_cache (cy_shared s)) \<and>
     same_world (r_Client R) s0 (st_server (cy_shared s)) \<and>
     (\<exists>order. mset order = image_mset worker_job {#w \<in># mset (cy_workers s). wk_pc w = Returned#} \<and>
       (\<forall>job \<in> set order. job_safe R mc s0 job) \<and>
       st_server (cy_shared s) = fold (job_effect R mc s0) order s0)"

lemma cycle_inv_initial:
  assumes "cache_sound (class_answer (r_Client R) (st_server st)) (st_cache st)"
  shows "cycle_inv R mc jobs (st_server st) (cycle_initial jobs st)"
proof -
  have "map worker_job (map spawn jobs) = jobs" by (induction jobs) (auto simp: worker_job_def spawn_def)
  moreover have "{#w \<in># mset (map spawn jobs). wk_pc w = Returned#} = {#}"
    by (auto simp: filter_mset_eq_conv spawn_def)
  moreover have "pc_ok R mc (st_server st) (wk_pvc w) (wk_now1 w) (wk_pc w)" if "w \<in> spawn ` set jobs" for w
    using that by (auto simp: spawn_def)
  ultimately show ?thesis
    using assms by (auto simp: cycle_inv_def cycle_initial_def same_world_def intro: exI [of _ "[]"])
qed

lemma returned_update:
  assumes "i < length ws" and "wk_pc (ws ! i) \<noteq> Returned"
  shows "{#w \<in># mset (ws[i := w']). wk_pc w = Returned#} =
    (if wk_pc w' = Returned then add_mset w' {#w \<in># mset ws. wk_pc w = Returned#}
     else {#w \<in># mset ws. wk_pc w = Returned#})"
proof -
  have "{#w \<in># mset ws. wk_pc w = Returned#} =
      {#w \<in># add_mset (ws ! i) (mset ws - {#ws ! i#}). wk_pc w = Returned#}"
    using assms(1) by (simp only: insert_DiffM nth_mem_mset)
  also have "\<dots> = {#w \<in># mset ws - {#ws ! i#}. wk_pc w = Returned#}"
    using assms(2) by (simp only: filter_mset_add_mset if_False)
  finally have keep: "{#w \<in># mset ws - {#ws ! i#}. wk_pc w = Returned#} = {#w \<in># mset ws. wk_pc w = Returned#}" ..
  show ?thesis unfolding mset_update [OF assms(1)] filter_mset_add_mset keep ..
qed

context kube_store
begin

lemma cycle_inv_step:
  assumes R: "r_Client R = K" and inv: "cycle_inv R mc jobs s0 s" and step: "cycle_step R mc s s'"
  shows "cycle_inv R mc jobs s0 s'"
proof -
  from step obtain i w pc st where s': "s' = \<lparr>cy_workers = (cy_workers s)[i := w\<lparr>wk_pc := pc\<rparr>], cy_shared = st\<rparr>"
    and i: "i < length (cy_workers s)" and w_def: "w = cy_workers s ! i" and pc: "wk_pc w \<noteq> Returned"
    and run: "worker_step R mc (wk_pvc w) (wk_now1 w) (wk_now2 w) (wk_pc w) (cy_shared s) = Inr (pc, st)"
    by (elim cycle_stepE) blast
  from inv obtain order where jobs: "map worker_job (cy_workers s) = jobs"
    and pcs: "\<forall>w \<in> set (cy_workers s). pc_ok R mc s0 (wk_pvc w) (wk_now1 w) (wk_pc w)"
    and cache: "cache_sound (class_answer K s0) (st_cache (cy_shared s))"
    and world: "same_world K s0 (st_server (cy_shared s))"
    and order: "mset order = image_mset worker_job {#w \<in># mset (cy_workers s). wk_pc w = Returned#}"
      "\<forall>job \<in> set order. job_safe R mc s0 job"
      "st_server (cy_shared s) = fold (job_effect R mc s0) order s0"
    using R by (auto simp: cycle_inv_def)
  have w: "w \<in> set (cy_workers s)" using i by (simp add: w_def)
  note eff = worker_step_effect [OF R world cache bspec [OF pcs w] pc run]
  define w' where "w' = w\<lparr>wk_pc := pc\<rparr>"
  have job: "worker_job w' = worker_job w" by (simp add: w'_def worker_job_def)
  have "map worker_job ((cy_workers s)[i := w']) = jobs"
    using jobs job by (metis list_update_id map_update w_def)
  moreover have "\<forall>w \<in> set ((cy_workers s)[i := w']). pc_ok R mc s0 (wk_pvc w) (wk_now1 w) (wk_pc w)"
    using pcs eff by (auto simp: w'_def dest!: set_update_subset_insert [THEN subsetD])
  moreover have "same_world K s0 (st_server st)"
    using eff world job_effect_world [OF R] by (auto split: if_splits)
  moreover have "\<exists>order. mset order = image_mset worker_job {#w \<in># mset ((cy_workers s)[i := w']). wk_pc w = Returned#} \<and>
      (\<forall>job \<in> set order. job_safe R mc s0 job) \<and> st_server st = fold (job_effect R mc s0) order s0"
  proof (cases "pc = Returned")
    case True
    have "worker_job w' = (wk_pvc w, wk_now1 w, wk_now2 w)" by (simp add: w'_def worker_job_def)
    with True order eff returned_update [OF i pc [unfolded w_def], of w'] show ?thesis
      by (intro exI [of _ "order @ [worker_job w']"]) (auto simp: w'_def)
  next
    case False
    with order eff returned_update [OF i pc [unfolded w_def], of w'] show ?thesis
      by (intro exI [of _ order]) (auto simp: w'_def)
  qed
  ultimately show ?thesis using eff R unfolding s' w'_def cycle_inv_def by simp
qed

lemma cycle_inv_reach:
  assumes R: "r_Client R = K" and "cycle_reach R mc jobs st s"
    and "cache_sound (class_answer K (st_server st)) (st_cache st)"
  shows "cycle_inv R mc jobs (st_server st) s"
  using assms(2,3)
proof (induction rule: cycle_reach.induct)
  case initial
  then show ?case using cycle_inv_initial [of R st] R by simp
next
  case (more s s')
  then show ?case using cycle_inv_step [OF R] by blast
qed

text \<open>The same jobs one after the other, with \<open>reconcilePVC\<close> as a whole.\<close>

lemma reconcile_each_effect:
  assumes R: "r_Client R = K" and "cache_ok R st" and "same_world K s0 (st_server st)"
    and "\<forall>job \<in> set order. job_safe R mc s0 job"
  shows "\<exists>st'. reconcile_each R mc order st = Inr st' \<and>
    st_server st' = fold (job_effect R mc s0) order (st_server st)"
  using assms(2-4)
proof (induction order arbitrary: st)
  case (Cons job order)
  obtain p now1 now2 where job: "job = (p, now1, now2)" by (cases job)
  obtain e st1 where e: "IsStorageClassExpandable R p st = (e, st1)" by (cases "IsStorageClassExpandable R p st")
  have target: "expansion_target R now1 p mc e (st_server st) = cycle_target R now1 p mc s0"
    using expandable_transparent(1) [OF Cons.prems(1) e] same_world_target [of R s0 "st_server st"] Cons.prems(2) R
    by (simp add: cycle_target_def)
  have "reconcilePVC R now1 now2 p mc st \<noteq> Inl panic" for panic
    using reconcile_panic [OF e, of now1 now2 mc] target Cons.prems(3) by (auto simp: job job_safe_def)
  then obtain st2 where run: "reconcilePVC R now1 now2 p mc st = Inr st2"
    by (cases "reconcilePVC R now1 now2 p mc st") auto
  have srv: "st_server st2 = job_effect R mc s0 job (st_server st)"
    using reconcile_server [OF e run] target by (simp add: job job_effect_def)
  have "same_world K s0 (st_server st2)" unfolding srv job_effect_world [OF R] by (rule Cons.prems(2))
  from Cons.IH [OF step_effect(1) [OF R Cons.prems(1) run] this] Cons.prems(3) obtain st' where
    "reconcile_each R mc order st2 = Inr st'" "st_server st' = fold (job_effect R mc s0) order (st_server st2)"
    by auto
  with run srv job show ?case by (intro exI [of _ st']) simp
qed simp

lemma reach_inv:
  assumes "r_Client R = K" and "cycle_reach R mc jobs st s" and "st_cache st = cache_Clear c"
  shows "cycle_inv R mc jobs (st_server st) s"
proof -
  have "cache_sound (class_answer K (st_server st)) (st_cache st)" using assms(3) by (simp add: cache_sound_def)
  from cycle_inv_reach [OF assms(1,2) this] show ?thesis .
qed

lemma interleaving_serial:
  assumes R: "r_Client R = K" and "cycle_reach R mc jobs st s" and "st_cache st = cache_Clear c"
  obtains order st' where "mset order = image_mset worker_job {#w \<in># mset (cy_workers s). wk_pc w = Returned#}"
    and "reconcile_each R mc order st = Inr st'" and "st_server st' = st_server (cy_shared s)"
proof -
  have ok: "cache_ok R st" using assms(3) scc.coherent_clear by simp
  from reach_inv [OF assms] obtain order where
    order: "mset order = image_mset worker_job {#w \<in># mset (cy_workers s). wk_pc w = Returned#}"
      "\<forall>job \<in> set order. job_safe R mc (st_server st) job"
      "st_server (cy_shared s) = fold (job_effect R mc (st_server st)) order (st_server st)"
    by (auto simp: cycle_inv_def)
  have "same_world K (st_server st) (st_server st)" by (simp add: same_world_def)
  from reconcile_each_effect [OF R ok this order(2)] order(1,3) that show thesis by metis
qed

lemma reach_jobs:
  assumes "r_Client R = K" and "cycle_reach R mc jobs st s" and "st_cache st = cache_Clear c"
  shows "map worker_job (cy_workers s) = jobs"
  using reach_inv [OF assms] by (simp add: cycle_inv_def)

lemma reach_pc_ok:
  assumes "r_Client R = K" and "cycle_reach R mc jobs st s" and "st_cache st = cache_Clear c"
    and "w \<in> set (cy_workers s)"
  shows "pc_ok R mc (st_server st) (wk_pvc w) (wk_now1 w) (wk_pc w)"
  using reach_inv [OF assms(1-3)] assms(4) by (simp add: cycle_inv_def)

lemma all_returned_jobs:
  assumes R: "r_Client R = K" and "cycle_reach R mc jobs st s" and "st_cache st = cache_Clear c" and "all_returned s"
  shows "image_mset worker_job {#w \<in># mset (cy_workers s). wk_pc w = Returned#} = mset jobs"
proof -
  have "map worker_job (cy_workers s) = jobs" using assms(1-3) by (rule reach_jobs)
  moreover have "{#w \<in># mset (cy_workers s). wk_pc w = Returned#} = mset (cy_workers s)"
    using assms(4) by (simp add: all_returned_def filter_mset_eq_conv)
  ultimately show ?thesis by (metis mset_map)
qed


text \<open>A worker that cannot step panics, with a size to ask for and no requests.\<close>

lemma worker_step_blocked:
  assumes R: "r_Client R = K" and ok: "pc_ok R mc s0 p now1 pc"
    and step: "worker_step R mc p now1 now2 pc st = Inl panic"
  shows "panic = NilMapWrite \<and> \<not> job_safe R mc s0 (p, now1, now2)"
proof (cases pc)
  case Resolve
  with step show ?thesis by (auto split: sum.splits option.splits if_splits)
next
  case (Expand config vm fs)
  with step have "finish_expansion R p now2 config vm fs st = Inl panic"
    by (cases "finish_expansion R p now2 config vm fs st") auto
  then have "ExpandPVC R now2 p config (record_metrics (RecordThresholdReached (pvc_name p) (pvc_namespace p)) st) = Inl panic"
    by (auto simp: finish_expansion_def Let_def split: sum.splits option.splits)
  with Expand ok R target_resolved [of R s0 p config now1 mc] show ?thesis
    unfolding ExpandPVC_panic by (auto simp: job_safe_def)
qed (use step in \<open>auto split: option.splits sum.splits\<close>)

end

text \<open>Every step brings the cycle nearer to its end.\<close>

definition cycle_rest :: "('q, 's) cycle_state \<Rightarrow> nat" where
  "cycle_rest s = sum_list (map (\<lambda>w. steps_left (wk_pc w)) (cy_workers s))"

lemma cycle_step_rest: "cycle_step R mc s s' \<Longrightarrow> cycle_rest s' < cycle_rest s"
proof (erule cycle_stepE)
  fix i pc st
  assume i: "i < length (cy_workers s)" and pc: "wk_pc (cy_workers s ! i) \<noteq> Returned"
    and step: "worker_step R mc (wk_pvc (cy_workers s ! i)) (wk_now1 (cy_workers s ! i)) (wk_now2 (cy_workers s ! i))
      (wk_pc (cy_workers s ! i)) (cy_shared s) = Inr (pc, st)"
    and s': "s' = \<lparr>cy_workers = (cy_workers s)[i := (cy_workers s ! i)\<lparr>wk_pc := pc\<rparr>], cy_shared = st\<rparr>"
  let ?m = "map (\<lambda>w. steps_left (wk_pc w)) (cy_workers s)"
  have "cycle_rest s' = sum_list (?m[i := steps_left pc])" by (simp add: cycle_rest_def s' map_update)
  also have "\<dots> < sum_list ?m"
    using i steps_left_decreases [OF step pc] elem_le_sum_list [of i ?m] by (simp add: sum_list_update)
  finally show ?thesis by (simp add: cycle_rest_def)
qed

lemma cycle_rest_initial: "cycle_rest (cycle_initial jobs st) = 8 * length jobs"
  by (induction jobs) (auto simp: cycle_rest_def cycle_initial_def spawn_def)

lemma cycle_reach_rest: "cycle_reach R mc jobs st s \<Longrightarrow> cycle_rest s \<le> 8 * length jobs"
  by (induction rule: cycle_reach.induct) (auto simp: cycle_rest_initial dest: cycle_step_rest)

context kube_store
begin

lemma cycle_progress:
  assumes R: "r_Client R = K" and "cycle_reach R mc jobs st s" and "st_cache st = cache_Clear c"
    and safe: "\<forall>(p, now1, now2) \<in> set jobs. pvc_requests p \<noteq> None" and "\<not> all_returned s"
  shows "\<exists>s'. cycle_step R mc s s'"
proof -
  note inv = reach_inv [OF R assms(2,3)]
  from assms(5) obtain i where i: "i < length (cy_workers s)" and pc: "wk_pc (cy_workers s ! i) \<noteq> Returned"
    by (auto simp: all_returned_def in_set_conv_nth)
  let ?w = "cy_workers s ! i"
  have "worker_job ?w \<in> set jobs" using inv i by (auto simp: cycle_inv_def)
  then have "job_safe R mc (st_server st) (wk_pvc ?w, wk_now1 ?w, wk_now2 ?w)"
    using safe by (auto simp: job_safe_def worker_job_def)
  moreover have "pc_ok R mc (st_server st) (wk_pvc ?w) (wk_now1 ?w) (wk_pc ?w)"
    using inv i by (simp add: cycle_inv_def)
  ultimately have "worker_step R mc (wk_pvc ?w) (wk_now1 ?w) (wk_now2 ?w) (wk_pc ?w) (cy_shared s) \<noteq> Inl panic" for panic
    using worker_step_blocked [OF R] by blast
  then obtain pc' st' where
    "worker_step R mc (wk_pvc ?w) (wk_now1 ?w) (wk_now2 ?w) (wk_pc ?w) (cy_shared s) = Inr (pc', st')"
    by (metis sum.exhaust surj_pair)
  from cycle_step.intros [OF i refl pc this] show ?thesis by blast
qed

end

end
