(* ===== verification/Interference.thy ===== *)
theory Interference
  imports InterleavingFacts
begin

text \<open>
  A cycle while other clients write: between any two steps of its goroutines the server may change
  in any way (users, the group controller, the provisioner that carries an expansion out). An
  update carries the version of the object as it was listed, and the server refuses it when the
  stored object has another one.
\<close>

section \<open>Steps\<close>

definition set_server :: "('q, 's) cycle_state \<Rightarrow> 's \<Rightarrow> ('q, 's) cycle_state" where
  "set_server s srv = s\<lparr>cy_shared := (cy_shared s)\<lparr>st_server := srv\<rparr>\<rparr>"

inductive disturbed_reach ::
  "('q, 'sel, 's) Reconciler \<Rightarrow> MetricsCache \<Rightarrow> ('q pvc \<times> time \<times> time) list \<Rightarrow> ('q, 's) rstate \<Rightarrow>
   ('q, 's) cycle_state \<Rightarrow> bool" for R mc jobs st where
  begin_cycle: "disturbed_reach R mc jobs st (cycle_initial jobs st)"
| goroutine: "disturbed_reach R mc jobs st s \<Longrightarrow> cycle_step R mc s s' \<Longrightarrow> disturbed_reach R mc jobs st s'"
| other_client: "disturbed_reach R mc jobs st s \<Longrightarrow> disturbed_reach R mc jobs st (set_server s srv)"

text \<open>
  Optimistic concurrency, for a client that read its objects as \<open>listed\<close>: an update that succeeds
  finds the object still as it was listed.
\<close>

definition refuses_stale ::
  "('q, 'sel, 's) kube \<Rightarrow> ('s \<Rightarrow> namespaced_name \<rightharpoonup> 'q pvc) \<Rightarrow> (namespaced_name \<rightharpoonup> 'q pvc) \<Rightarrow> bool" where
  "refuses_stale K view listed \<longleftrightarrow>
     (\<forall>q s s'. kube_update_pvc K q s = (None, s') \<longrightarrow> view s (pvc_key q) = listed (pvc_key q))"

section \<open>What a goroutine has checked\<close>

text \<open>Each guard has been passed, though perhaps on a server that has changed since.\<close>

definition governed :: "('q, 'sel, 's) Reconciler \<Rightarrow> 'q pvc \<Rightarrow> 'q PVCConfig \<Rightarrow> bool" where
  "governed R p config \<longleftrightarrow> (\<exists>s. ResolvePVCConfig (r_Q R) (r_Client R) p (r_GlobalConfig R) s = Inr config)"

fun checked :: "('q, 'sel, 's) Reconciler \<Rightarrow> MetricsCache \<Rightarrow> 'q pvc \<Rightarrow> time \<Rightarrow> 'q worker_pc \<Rightarrow> bool" where
  "checked R mc p now (CacheLookup config n) \<longleftrightarrow> governed R p config \<and> IsPVCEligible p"
| "checked R mc p now (ReadClass config n) \<longleftrightarrow> governed R p config \<and> IsPVCEligible p"
| "checked R mc p now (StoreClass config n sc) \<longleftrightarrow> governed R p config \<and> IsPVCEligible p"
| "checked R mc p now (StoreFsType config n sc) \<longleftrightarrow> governed R p config \<and> IsPVCEligible p"
| "checked R mc p now (Decide config e) \<longleftrightarrow> governed R p config \<and> IsPVCEligible p"
| "checked R mc p now (ReadFsType config vm) \<longleftrightarrow> governed R p config \<and> may_expand R now p mc True config"
| "checked R mc p now (Expand config vm fsType) \<longleftrightarrow> governed R p config \<and> may_expand R now p mc True config"
| "checked R mc p now _ \<longleftrightarrow> True"

lemma checked_decide:
  assumes "decide R mc p now config e st = (pc', st')" and "governed R p config" and "IsPVCEligible p"
  shows "checked R mc p now pc'"
  using decide_cases [OF assms(1,3)] assms(2)
  by (cases pc') (auto simp: may_expand_def)

lemma checked_step:
  assumes "worker_step R mc p now1 now2 pc st = Inr (pc', st')" and "checked R mc p now1 pc"
  shows "checked R mc p now1 pc'"
proof (cases pc)
  case (Decide config e)
  then show ?thesis using assms checked_decide by fastforce
qed (use assms in \<open>auto simp: governed_def try_in_Inr split: sum.splits option.splits if_splits\<close>)

text \<open>The one write of a goroutine, and what becomes of the server otherwise.\<close>

lemma step_writes:
  assumes "worker_step R mc p now1 now2 pc st = Inr (pc', st')" and "checked R mc p now1 pc"
    and "st_server st' \<noteq> st_server st"
  shows "\<exists>config n. pc' = Returned \<and> governed R p config \<and> may_expand R now1 p mc True config \<and>
    target_size R p config = Some n \<and>
    st_server st' = snd (kube_update_pvc (r_Client R) (expansion_object R now2 p n) (st_server st))"
proof (cases pc)
  case (Expand config vm fs)
  then have "finish_expansion R p now2 config vm fs st = Inr st'" and pc': "pc' = Returned"
    using assms(1) by (auto simp: try_in_Inr)
  from finish_expansion_server [OF this(1)] assms(3)
  obtain n where "target_size R p config = Some n"
    "st_server st' = snd (kube_update_pvc (r_Client R) (expansion_object R now2 p n) (st_server st))"
    by (auto split: option.splits if_splits)
  with pc' assms(2) Expand show ?thesis by auto
next
  case (Decide config e)
  with assms(2) have "IsPVCEligible p" by simp
  moreover have "decide R mc p now1 config e st = (pc', st')" using assms(1) Decide by simp
  ultimately show ?thesis using decide_cases assms(3) by blast
qed (use assms in \<open>auto split: sum.splits option.splits if_splits\<close>)

section \<open>A disturbed cycle\<close>

lemma undisturbed: "cycle_reach R mc jobs st s \<Longrightarrow> disturbed_reach R mc jobs st s"
  by (induction rule: cycle_reach.induct) (auto intro: disturbed_reach.intros)

definition workers_checked ::
  "('q, 'sel, 's) Reconciler \<Rightarrow> MetricsCache \<Rightarrow> ('q pvc \<times> time \<times> time) list \<Rightarrow> ('q, 's) cycle_state \<Rightarrow> bool" where
  "workers_checked R mc jobs s \<longleftrightarrow> map worker_job (cy_workers s) = jobs \<and>
     (\<forall>w \<in> set (cy_workers s). checked R mc (wk_pvc w) (wk_now1 w) (wk_pc w))"

lemma workers_checked_step:
  assumes "workers_checked R mc jobs s" and "cycle_step R mc s s'"
  shows "workers_checked R mc jobs s'"
  using assms(2)
proof (cases rule: cycle_step.cases)
  case (1 i w pc st)
  have "checked R mc (wk_pvc w) (wk_now1 w) pc"
    using checked_step [OF 1(5)] assms(1) 1(2,3) by (simp add: workers_checked_def)
  moreover have "worker_job (w\<lparr>wk_pc := pc\<rparr>) = worker_job (cy_workers s ! i)"
    by (simp add: 1(3) worker_job_def)
  then have "map worker_job ((cy_workers s)[i := w\<lparr>wk_pc := pc\<rparr>]) = map worker_job (cy_workers s)"
    using 1(2) by (simp add: map_update list_update_same_conv)
  ultimately show ?thesis
    using assms(1) unfolding 1(1) by (auto simp: workers_checked_def dest!: set_update_subset_insert [THEN subsetD])
qed

lemma disturbed_checked: "disturbed_reach R mc jobs st s \<Longrightarrow> workers_checked R mc jobs s"
proof (induction rule: disturbed_reach.induct)
  case begin_cycle
  show ?case
    by (auto simp: workers_checked_def cycle_initial_def worker_job_def spawn_def comp_def
        intro!: map_idI split: prod.splits)
next
  case (goroutine s s')
  then show ?case by (blast intro: workers_checked_step)
next
  case (other_client s srv)
  then show ?case by (simp add: workers_checked_def set_server_def)
qed

context pvc_store
begin

lemma stale_update:
  assumes "refuses_stale K view listed" and "kube_update_pvc K q s = (r, s')" and "view s' k \<noteq> view s k"
  shows "k = pvc_key q \<and> view s k = listed k \<and> view s' k = Some q"
proof (cases r)
  case None
  then have "view s' = (view s)(pvc_key q \<mapsto> q)" "view s (pvc_key q) = listed (pvc_key q)"
    using assms(1,2) update_ok by (auto simp: refuses_stale_def)
  with assms(3) show ?thesis by (auto split: if_splits)
next
  case (Some e)
  then show ?thesis using update_err assms(2,3) by simp
qed

lemma disturbed_step:
  assumes R: "r_Client R = K" and stale: "refuses_stale K view listed"
    and jobs: "\<forall>(p, _) \<in> set jobs. listed (pvc_key p) = Some p"
    and reach: "disturbed_reach R mc jobs st s" and step: "cycle_step R mc s s'"
    and changed: "view (st_server (cy_shared s')) k \<noteq> view (st_server (cy_shared s)) k"
  shows "\<exists>w \<in> set (cy_workers s'). \<exists>config n. k = pvc_key (wk_pvc w) \<and> wk_pc w = Returned \<and> worker_job w \<in> set jobs \<and>
    view (st_server (cy_shared s)) k = Some (wk_pvc w) \<and> governed R (wk_pvc w) config \<and>
    may_expand R (wk_now1 w) (wk_pvc w) mc True config \<and> target_size R (wk_pvc w) config = Some n \<and>
    view (st_server (cy_shared s')) k = Some (expansion_object R (wk_now2 w) (wk_pvc w) n)"
  using step
proof (cases rule: cycle_step.cases)
  case (1 i w pc st1)
  have inv: "workers_checked R mc jobs s" by (rule disturbed_checked [OF reach])
  have w: "w \<in> set (cy_workers s)" using 1(2,3) by simp
  then have job: "worker_job w \<in> set jobs" and checked: "checked R mc (wk_pvc w) (wk_now1 w) (wk_pc w)"
    using inv by (auto simp: workers_checked_def)
  have srv: "st_server (cy_shared s') = st_server st1" by (simp add: 1(1))
  with changed have "st_server st1 \<noteq> st_server (cy_shared s)" by auto
  from step_writes [OF 1(5) checked this] obtain config n where pc: "pc = Returned"
    and guards: "governed R (wk_pvc w) config" "may_expand R (wk_now1 w) (wk_pvc w) mc True config"
      "target_size R (wk_pvc w) config = Some n"
    and upd: "st_server st1 =
      snd (kube_update_pvc K (expansion_object R (wk_now2 w) (wk_pvc w) n) (st_server (cy_shared s)))"
    unfolding R by blast
  obtain r where "kube_update_pvc K (expansion_object R (wk_now2 w) (wk_pvc w) n) (st_server (cy_shared s)) =
      (r, st_server st1)"
    using upd by (simp add: prod_eq_iff)
  from stale_update [OF stale this] changed
  have "k = pvc_key (wk_pvc w)" "view (st_server (cy_shared s)) k = listed k"
    "view (st_server st1) k = Some (expansion_object R (wk_now2 w) (wk_pvc w) n)"
    by (simp_all add: srv)
  moreover from this jobs job have "listed k = Some (wk_pvc w)"
    by (cases "worker_job w") (auto simp: worker_job_def)
  moreover have "w\<lparr>wk_pc := pc\<rparr> \<in> set (cy_workers s')"
    using 1(1,2) by (simp add: set_update_memI)
  ultimately show ?thesis
    using guards job pc by (intro bexI [of _ "w\<lparr>wk_pc := pc\<rparr>"]) (auto simp: srv worker_job_def)
qed

end

end
