(* ===== verification/InterleavingProperties.thy ===== *)
theory InterleavingProperties
  imports Samples Interference
begin

text \<open>
  The properties of a cycle whose goroutines interleave access by access
  (internal/controller/persistentvolumeclaim_controller.go).
\<close>

section \<open>A sample interleaving\<close>

text \<open>Two claims of one class with an XFS file system, both short of inodes.\<close>

definition xfs_server :: ref_server where
  "xfs_server = sample_server\<lparr>rs_classes :=
     [(''fast'', \<lparr>sc_allow_expansion = Some True, sc_parameters = [''fsType'' \<mapsto> ''xfs'']\<rparr>)]\<rparr>"

definition inode_usage :: VolumeMetrics where
  "inode_usage = zero_metrics\<lparr>vm_CapacityBytes := 100, vm_InodesTotal := 10, vm_InodesUsagePercent := FFin 90\<rparr>"

definition inode_cache :: MetricsCache where
  "inode_cache = [''apps/db'' \<mapsto> inode_usage, ''apps/log'' \<mapsto> inode_usage]"

definition xfs_start :: "(int, ref_server) rstate" where
  "xfs_start = sample_state\<lparr>st_server := xfs_server, st_cache := cache_Clear NewStorageClassCache\<rparr>"

definition xfs_jobs :: "(int pvc \<times> time \<times> time) list" where
  "xfs_jobs = [(sample_pvc, 0, 0), (small_pvc, 0, 0)]"

text \<open>The first worker up to its write of the class, then the second up to its expansion.\<close>

definition race_schedule :: "nat list" where
  "race_schedule = [0, 0, 0, 0, 1, 1, 1, 1]"

lemma xfs_class:
  "kube_get_storage_class ref_kube ''fast'' xfs_server =
    Inr \<lparr>sc_allow_expansion = Some True, sc_parameters = [''fsType'' \<mapsto> ''xfs'']\<rparr>"
  by (simp add: ref_kube_def xfs_server_def found_def)

lemma inode_decide:
  "decide sample_reconciler inode_cache small_pvc 0 sample_config True st =
    (ReadFsType sample_config inode_usage, observed ref_quantity small_pvc inode_usage st)"
  by (simp add: decide_def IsPvcResizing_def IsInCooldown_def mc_Get_def keyFromNamespacedName_def pvc_key_def
      small_pvc_def sample_pvc_def sample_config_def sample_reconciler_def inode_cache_def inodes_reached_def
      inode_usage_def f_le_def Let_def observed_def)

lemma sample_eligible: "IsPVCEligible sample_pvc" "IsPVCEligible small_pvc"
  "pvc_storage_class sample_pvc = Some ''fast''" "pvc_storage_class small_pvc = Some ''fast''"
  by (simp_all add: IsPVCEligible_def sample_pvc_def small_pvc_def)

lemma fs_race_runs:
  "\<exists>s. cycle_execs sample_reconciler inode_cache race_schedule (cycle_initial xfs_jobs xfs_start) = Some s \<and>
    cy_workers s ! 1 = \<lparr>wk_pvc = small_pvc, wk_now1 = 0, wk_now2 = 0, wk_pc = Expand sample_config inode_usage ''ext4''\<rparr> \<and>
    length (cy_workers s) = 2"
proof -
  have K: "r_Client sample_reconciler = ref_kube" "r_Q sample_reconciler = ref_quantity"
    "r_GlobalConfig sample_reconciler = sample_global" by (simp_all add: sample_reconciler_def)
  have st: "st_server xfs_start = xfs_server" by (simp add: xfs_start_def)
  have cache: "cache_Get (st_cache xfs_start) n = None" "cache_GetFsType (st_cache xfs_start) n = None" for n
    by (simp_all add: xfs_start_def)
  show ?thesis
    by (simp add: race_schedule_def xfs_jobs_def cycle_initial_def spawn_def cycle_exec_def Let_def K st cache
        sample_resolve sample_eligible xfs_class class_expandable_def inode_decide getFilesystemType_def)
qed

lemma xfs_store: "kube_store (r_Client sample_reconciler) ref_view"
  using ref_api.kube_store_axioms by (simp add: sample_reconciler_def)

lemma xfs_cache: "st_cache xfs_start = cache_Clear NewStorageClassCache"
  by (simp add: xfs_start_def)

section \<open>Serialisability\<close>

text \<open>C4. Serialisability: however the goroutines of a cycle interleave their accesses to the API
  server and to the shared cache, the server is at every moment as if some of the reconciliations
  had run one after the other and the rest not begun; once all have returned, all of them.\<close>

theorem interleaving_serialisable:
  assumes "kube_store (r_Client R) view" and "cycle_reach R mc jobs st s" and "st_cache st = cache_Clear c"
  shows "\<exists>order st'. mset order \<subseteq># mset jobs \<and> (all_returned s \<longrightarrow> mset order = mset jobs) \<and>
    reconcile_each R mc order st = Inr st' \<and> st_server st' = st_server (cy_shared s)"
proof -
  obtain order st' where order: "mset order = image_mset worker_job {#w \<in># mset (cy_workers s). wk_pc w = Returned#}"
    and st': "reconcile_each R mc order st = Inr st'" "st_server st' = st_server (cy_shared s)"
    using kube_store.interleaving_serial [OF assms(1) refl assms(2,3)] .
  have "mset order \<subseteq># image_mset worker_job (mset (cy_workers s))"
    unfolding order by (intro image_mset_subseteq_mono multiset_filter_subset)
  moreover have "map worker_job (cy_workers s) = jobs"
    using kube_store.reach_jobs [OF assms(1) refl assms(2,3)] .
  ultimately have "mset order \<subseteq># mset jobs" by (metis mset_map)
  with order st' kube_store.all_returned_jobs [OF assms(1) refl assms(2,3)] show ?thesis by metis
qed

theorem interleaving_serialisable_witness:
  "\<exists>s. cycle_execs sample_reconciler inode_cache race_schedule (cycle_initial xfs_jobs xfs_start) = Some s \<and>
    (\<exists>order st'. mset order \<subseteq># mset xfs_jobs \<and> reconcile_each sample_reconciler inode_cache order xfs_start = Inr st' \<and>
      st_server st' = st_server (cy_shared s))"
proof -
  obtain s where s: "cycle_execs sample_reconciler inode_cache race_schedule (cycle_initial xfs_jobs xfs_start) = Some s"
    using fs_race_runs by blast
  from cycle_execs_reach [OF s cycle_reach.initial] interleaving_serialisable [OF xfs_store _ xfs_cache] s
  show ?thesis by blast
qed



section \<open>The shared cache\<close>




section \<open>Other clients\<close>


text \<open>The sample cluster with versions: another client raises the claim \<open>log\<close> while the goroutine
  of \<open>db\<close> is about to write.\<close>

definition versioned_kube :: "(int, ref_selector, ref_server) kube" where
  "versioned_kube = ref_kube\<lparr>kube_update_pvc := (\<lambda>q s.
     if ref_view s (pvc_key q) = ref_view sample_server (pvc_key q) then ref_update_pvc q s
     else (Some (ApiError ''conflict''), s))\<rparr>"

definition versioned_reconciler :: "(int, ref_selector, ref_server) Reconciler" where
  "versioned_reconciler = sample_reconciler\<lparr>r_Client := versioned_kube\<rparr>"


lemma versioned_client [simp]: "r_Client versioned_reconciler = versioned_kube" "r_Q versioned_reconciler = ref_quantity"
  "r_GlobalConfig versioned_reconciler = sample_global" "\<not> r_DryRun versioned_reconciler"
  by (simp_all add: versioned_reconciler_def sample_reconciler_def)











end
