(* ===== verification/PVCPolicyController.thy ===== *)
theory PVCPolicyController
  imports KubeTypes
begin

text \<open>
  internal/controller/pvcpolicy_controller.go: the controller that counts the claims a policy
  selects, and the mapping from a changed claim to the policies to reconcile. Its semaphore is
  modelled in the theory Semaphores.
\<close>

datatype policy_error = GetPolicyFailed api_error | ListPVCsError api_error
  | InvalidSelector api_error | StatusError api_error

fun count_matches :: "((string \<rightharpoonup> string) \<Rightarrow> bool) \<Rightarrow> 'q pvc list \<Rightarrow> int \<Rightarrow> int" where
  "count_matches matches [] matchedCount = matchedCount"
| "count_matches matches (p # pvcs) matchedCount =
     count_matches matches pvcs
       (if matches (pvc_labels p) then wrap32 (matchedCount + 1) else matchedCount)"

text \<open>The result is \<open>RequeueAfter\<close>, the error and the new state of the server.\<close>

definition PVCPolicy_Reconcile ::
  "('q, 'sel, 's) kube \<Rightarrow> namespaced_name \<Rightarrow> time \<Rightarrow> 's \<Rightarrow>
   duration \<times> policy_error option \<times> 's" where
  "PVCPolicy_Reconcile K req now s =
     (case kube_get_policy K req s of
        Inl err \<Rightarrow> (0, if is_not_found err then None else Some (GetPolicyFailed err), s)
      | Inr policy \<Rightarrow>
      case kube_list_pvcs_in K (pol_namespace policy) s of
        Inl err \<Rightarrow> (0, Some (ListPVCsError err), s)
      | Inr items \<Rightarrow>
      case kube_selector K (pol_Selector policy) of
        Inl err \<Rightarrow> (0, Some (InvalidSelector err), s)
      | Inr matches \<Rightarrow>
      let policy = policy\<lparr>pol_MatchedPVCs := count_matches matches items 0,
                          pol_LastUpdated := Some now\<rparr>
      in
      case kube_update_policy_status K policy s of
        (Some err, s') \<Rightarrow> (0, Some (StatusError err), s')
      | (None, s') \<Rightarrow> (5 * minute, None, s'))"

fun collect_requests ::
  "('q, 'sel, 's) kube \<Rightarrow> (string \<rightharpoonup> string) \<Rightarrow> ('q, 'sel) PVCPolicy list \<Rightarrow>
   namespaced_name list \<Rightarrow> namespaced_name list" where
  "collect_requests K labels [] requests = requests"
| "collect_requests K labels (policy # policies) requests =
     (case kube_selector K (pol_Selector policy) of
        Inl err \<Rightarrow> collect_requests K labels policies requests
      | Inr matches \<Rightarrow>
          if matches labels then
            collect_requests K labels policies (requests @
              [\<lparr>nn_namespace = pol_namespace policy, nn_name = pol_name policy\<rparr>])
          else collect_requests K labels policies requests)"

definition findPVCPoliciesForPVC ::
  "('q, 'sel, 's) kube \<Rightarrow> 'q pvc \<Rightarrow> 's \<Rightarrow> namespaced_name list" where
  "findPVCPoliciesForPVC K p s =
     (case kube_list_policies K (pvc_namespace p) s of
        Inl err \<Rightarrow> []
      | Inr policies \<Rightarrow> collect_requests K (pvc_labels p) policies [])"

section \<open>Correctness\<close>

lemma wrap32_add: "wrap32 (wrap32 a + b) = wrap32 (a + b)"
proof -
  have "(wrap32 a + b + 2147483648) mod 4294967296
    = ((a + 2147483648) mod 4294967296 + b) mod 4294967296"
    by (simp add: wrap32_def algebra_simps)
  also have "\<dots> = (a + b + 2147483648) mod 4294967296"
    using mod_add_left_eq [of "a + 2147483648" 4294967296 b] by (simp add: algebra_simps)
  finally show ?thesis by (simp add: wrap32_def)
qed

lemma wrap32_idem: "wrap32 (wrap32 a) = wrap32 a"
  using wrap32_add [of a 0] by simp

lemma count_matches_eq:
  "wrap32 a = a \<Longrightarrow>
    count_matches matches pvcs a = wrap32 (a + int (length (filter (\<lambda>p. matches (pvc_labels p)) pvcs)))"
  by (induction pvcs arbitrary: a) (auto simp: wrap32_add wrap32_idem algebra_simps)

lemma collect_requests_eq:
  "collect_requests K labels policies acc = acc @
    [\<lparr>nn_namespace = pol_namespace q, nn_name = pol_name q\<rparr>.
      q \<leftarrow> policies, case kube_selector K (pol_Selector q) of Inl _ \<Rightarrow> False | Inr f \<Rightarrow> f labels]"
  by (induction policies arbitrary: acc) (auto split: sum.splits)

text \<open>Inside the server's contract: a status update of a policy leaves every claim alone.\<close>

context pvc_store
begin

lemma policy_reconcile_claims:
  "PVCPolicy_Reconcile K req now s = (d, r, s') \<Longrightarrow> view s' = view s"
  using policy_status_view
  by (auto simp: PVCPolicy_Reconcile_def Let_def split: sum.splits prod.splits option.splits)

end

end
