(* ===== verification/GroupWebhook.thy ===== *)
theory GroupWebhook
  imports KubeTypes
begin

text \<open>
  internal/webhook/pvcgroup_webhook.go: the admission webhook that copies a group's template to
  the annotations of its members. Decoding the request is a parameter; a JSON patch is the list
  of its operations (the code builds the same list before marshalling it), in the order of one
  iteration over the Go map, which is unspecified: \<open>order\<close> chooses it.
\<close>

section \<open>Strings\<close>

text \<open>\<open>TrimSpace\<close> and the other string functions are in GoStrings.\<close>

definition escapeJSONPointer :: "string \<Rightarrow> string" where
  "escapeJSONPointer s =
     (let s = ReplaceAll s (CHR ''~'') ''~0'';
          s = ReplaceAll s (CHR ''/'') ''~1''
      in s)"

section \<open>Template annotations\<close>

definition add_missing ::
  "(string \<rightharpoonup> string) \<Rightarrow> string \<Rightarrow> string option \<Rightarrow> (string \<rightharpoonup> string) \<Rightarrow> (string \<rightharpoonup> string)" where
  "add_missing existing key value result =
     (case value of None \<Rightarrow> result
      | Some v \<Rightarrow> (case existing key of Some _ \<Rightarrow> result | None \<Rightarrow> result(key \<mapsto> v)))"

definition getTemplateAnnotations ::
  "'q quantity_ops \<Rightarrow> 'q PVCGroupTemplate \<Rightarrow> str_map \<Rightarrow> (string \<rightharpoonup> string)" where
  "getTemplateAnnotations Q t existing =
     (let result = Map.empty;
          existing = (case existing of None \<Rightarrow> Map.empty | Some m \<Rightarrow> m);
          result = add_missing existing ''pvc-chonker.io/threshold'' (gt_Threshold t) result;
          result = add_missing existing ''pvc-chonker.io/increase'' (gt_Increase t) result;
          result = add_missing existing ''pvc-chonker.io/max-size''
            (map_option (qty_string Q) (gt_MaxSize t)) result;
          result = add_missing existing ''pvc-chonker.io/cooldown''
            (map_option Duration_String (gt_Cooldown t)) result;
          result = add_missing existing ''pvc-chonker.io/inodes-threshold'' (gt_InodesThreshold t) result;
          result = add_missing existing ''pvc-chonker.io/min-scale-up''
            (map_option (qty_string Q) (gt_MinScaleUp t)) result
      in result)"

section \<open>The handler\<close>

datatype patch_value = PatchString string | PatchEmptyObject

record patch_op =
  op_path :: string
  op_value :: patch_value

datatype admission_response =
    Allowed string
  | Errored nat string
  | Patched "patch_op list"

record 'q admission_request =
  req_Kind :: string
  req_Object :: "string + 'q pvc" \<comment> \<open>what the decoder makes of it\<close>

definition webhook_group :: string where "webhook_group = ''pvc-chonker.io/group''"

definition api_message :: "api_error \<Rightarrow> string" where
  "api_message e = (case e of NotFound m \<Rightarrow> m | ApiError m \<Rightarrow> m)"

definition Handle ::
  "'q quantity_ops \<Rightarrow> ('q, 'sel, 's) kube \<Rightarrow> ((string \<rightharpoonup> string) \<Rightarrow> string list) \<Rightarrow> bool \<Rightarrow>
   'q admission_request \<Rightarrow> 's \<Rightarrow> admission_response" where
  "Handle Q K order decoder req s =
     (if req_Kind req \<noteq> ''PersistentVolumeClaim'' then Allowed ''not a PVC''
      else if \<not> decoder then Errored 500 ''decoder not initialized''
      else case req_Object req of
        Inl err \<Rightarrow> Errored 400 err
      | Inr p \<Rightarrow>
      if pvc_annotations p \<noteq> None \<and>
         map_get (pvc_annotations p) ''pvc-chonker.io/enabled'' = Some ''false''
      then Allowed ''PVC expansion disabled''
      else if pvc_annotations p = None then Allowed ''no annotations''
      else case map_get (pvc_annotations p) webhook_group of
        None \<Rightarrow> Allowed ''no group annotation''
      | Some groupName \<Rightarrow>
      if groupName = '''' then Allowed ''no group annotation''
      else case kube_get_group K \<lparr>nn_namespace = pvc_namespace p, nn_name = groupName\<rparr> s of
        Inl err \<Rightarrow> if is_not_found err then Allowed ''PVCGroup not found''
                    else Errored 500 (api_message err)
      | Inr g \<Rightarrow>
      let patches = (if pvc_annotations p = None
            then [\<lparr>op_path = ''/metadata/annotations'', op_value = PatchEmptyObject\<rparr>] else []);
          templateAnnotations = getTemplateAnnotations Q (grp_Template g) (pvc_annotations p);
          patches = patches @ map (\<lambda>key.
            \<lparr>op_path = ''/metadata/annotations/'' @ escapeJSONPointer key,
             op_value = PatchString (case templateAnnotations key of None \<Rightarrow> '''' | Some v \<Rightarrow> v)\<rparr>)
            (order templateAnnotations)
      in if length patches = 0 then Allowed ''no patches needed'' else Patched patches)"

text \<open>\<open>Default\<close> changes the claim in place: its result is the error or the claim.\<close>

definition Default ::
  "'q quantity_ops \<Rightarrow> ('q, 'sel, 's) kube \<Rightarrow> 'q pvc \<Rightarrow> 's \<Rightarrow> api_error + 'q pvc" where
  "Default Q K p s =
     (if pvc_annotations p = None then Inr p
      else case map_get (pvc_annotations p) webhook_group of
        None \<Rightarrow> Inr p
      | Some groupName \<Rightarrow>
      if groupName = '''' then Inr p
      else case kube_get_group K \<lparr>nn_namespace = pvc_namespace p, nn_name = groupName\<rparr> s of
        Inl err \<Rightarrow> if is_not_found err then Inr p else Inl err
      | Inr g \<Rightarrow>
          Inr (p\<lparr>pvc_annotations := map_option
            (\<lambda>m. m ++ getTemplateAnnotations Q (grp_Template g) (pvc_annotations p))
            (pvc_annotations p)\<rparr>))"

section \<open>JSON pointers\<close>

text \<open>The decoding RFC 6901 prescribes for a reference token.\<close>

fun unescape :: "string \<Rightarrow> string" where
  "unescape (a # b # s) =
     (if a = CHR ''~'' \<and> b = CHR ''1'' then CHR ''/'' # unescape s
      else if a = CHR ''~'' \<and> b = CHR ''0'' then CHR ''~'' # unescape s
      else a # unescape (b # s))"
| "unescape s = s"

lemma escape_Cons:
  "escapeJSONPointer (c # s) =
    (if c = CHR ''~'' then ''~0'' else if c = CHR ''/'' then ''~1'' else [c]) @ escapeJSONPointer s"
  by (simp add: escapeJSONPointer_def Let_def ReplaceAll_append)

lemma escape_Nil: "escapeJSONPointer [] = []"
  by (simp add: escapeJSONPointer_def)

lemma unescape_plain: "c \<noteq> CHR ''~'' \<Longrightarrow> unescape (c # s) = c # unescape s"
  by (cases s) auto

lemma unescape_escape: "unescape (escapeJSONPointer s) = s"
  by (induction s) (simp_all add: escape_Cons escape_Nil unescape_plain)

lemma escape_no_slash: "CHR ''/'' \<notin> set (escapeJSONPointer s)"
  by (induction s) (auto simp: escape_Cons escape_Nil)

text \<open>An \<open>add\<close> operation on a claim's annotations, by the definition of JSON patch.\<close>

definition apply_op :: "patch_op \<Rightarrow> (string \<rightharpoonup> string) option \<Rightarrow> (string \<rightharpoonup> string) option" where
  "apply_op patch m =
     (if op_path patch = ''/metadata/annotations'' \<and> op_value patch = PatchEmptyObject then Some Map.empty
      else case (m, strip_prefix ''/metadata/annotations/'' (op_path patch), op_value patch) of
        (Some f, Some token, PatchString v) \<Rightarrow> Some (f(unescape token \<mapsto> v))
      | _ \<Rightarrow> None)"

definition annotation_op :: "(string \<rightharpoonup> string) \<Rightarrow> string \<Rightarrow> patch_op" where
  "annotation_op t key = \<lparr>op_path = ''/metadata/annotations/'' @ escapeJSONPointer key,
     op_value = PatchString (case t key of None \<Rightarrow> '''' | Some v \<Rightarrow> v)\<rparr>"

lemma apply_annotation_op:
  "t key = Some v \<Longrightarrow> apply_op (annotation_op t key) (Some f) = Some (f(key \<mapsto> v))"
  by (simp add: apply_op_def annotation_op_def unescape_escape strip_prefix_iff)

lemma apply_annotation_ops:
  "set keys \<subseteq> dom t \<Longrightarrow> fold apply_op (map (annotation_op t) keys) (Some f) = Some (f ++ (t |` set keys))"
proof (induction keys arbitrary: f)
  case (Cons k keys)
  then obtain v where "t k = Some v" by auto
  with Cons have "fold apply_op (map (annotation_op t) (k # keys)) (Some f) =
      Some (f(k \<mapsto> v) ++ (t |` set keys))" by (simp add: apply_annotation_op)
  moreover have "f(k \<mapsto> v) ++ (t |` set keys) = f ++ (t |` set (k # keys))"
    using \<open>t k = Some v\<close> by (auto simp: map_add_def restrict_map_def fun_eq_iff split: option.split)
  ultimately show ?case by simp
qed simp

section \<open>The template\<close>

lemma add_missing_rules:
  "x \<noteq> k \<Longrightarrow> add_missing e k v r x = r x"
  "e x = Some y \<Longrightarrow> add_missing e k v r x = r x"
  "e x = None \<Longrightarrow> r x = None \<Longrightarrow> add_missing e x v r x = v"
  by (auto simp: add_missing_def split: option.split)

text \<open>The value the template has for a key, and the annotations as those of the missing keys.\<close>

definition template_value :: "'q quantity_ops \<Rightarrow> 'q PVCGroupTemplate \<Rightarrow> string \<rightharpoonup> string" where
  "template_value Q t x =
    (if x = ''pvc-chonker.io/threshold'' then gt_Threshold t
     else if x = ''pvc-chonker.io/increase'' then gt_Increase t
     else if x = ''pvc-chonker.io/max-size'' then map_option (qty_string Q) (gt_MaxSize t)
     else if x = ''pvc-chonker.io/cooldown'' then map_option Duration_String (gt_Cooldown t)
     else if x = ''pvc-chonker.io/inodes-threshold'' then gt_InodesThreshold t
     else if x = ''pvc-chonker.io/min-scale-up'' then map_option (qty_string Q) (gt_MinScaleUp t)
     else None)"

lemma add_missing_chain:
  assumes "distinct [k1, k2, k3, k4, k5, k6 :: string]"
  shows "add_missing e k6 v6 (add_missing e k5 v5 (add_missing e k4 v4 (add_missing e k3 v3
      (add_missing e k2 v2 (add_missing e k1 v1 Map.empty))))) x =
    (if e x \<noteq> None then None else if x = k1 then v1 else if x = k2 then v2 else if x = k3 then v3
     else if x = k4 then v4 else if x = k5 then v5 else if x = k6 then v6 else None)"
proof (cases "e x")
  case None
  consider "x = k1" | "x = k2" | "x = k3" | "x = k4" | "x = k5" | "x = k6"
    | "x \<notin> {k1, k2, k3, k4, k5, k6}" by blast
  then show ?thesis using assms None by cases (auto simp: add_missing_rules)
next
  case (Some y)
  then show ?thesis by (simp add: add_missing_rules(2))
qed

lemma template_lookup:
  "getTemplateAnnotations Q t existing x =
    (if map_get existing x \<noteq> None then None else template_value Q t x)"
proof -
  have e: "(case existing of None \<Rightarrow> Map.empty | Some m \<Rightarrow> m) x = map_get existing x"
    by (cases existing) simp_all
  have "distinct [''pvc-chonker.io/threshold'', ''pvc-chonker.io/increase'',
      ''pvc-chonker.io/max-size'', ''pvc-chonker.io/cooldown'',
      ''pvc-chonker.io/inodes-threshold'', ''pvc-chonker.io/min-scale-up'']" by simp
  note chain = add_missing_chain [OF this]
  show ?thesis unfolding getTemplateAnnotations_def template_value_def Let_def chain e ..
qed

lemma template_new: "getTemplateAnnotations Q t existing x = Some v \<Longrightarrow> map_get existing x = None"
  by (simp add: template_lookup split: if_splits)

lemma template_group: "getTemplateAnnotations Q t existing webhook_group = None"
  by (simp add: template_lookup template_value_def webhook_group_def)

lemma template_again:
  "getTemplateAnnotations Q t (Some (m ++ getTemplateAnnotations Q t (Some m))) = Map.empty"
  by (rule ext) (simp add: template_lookup map_add_def split: option.splits)

section \<open>The handler and the defaulter\<close>

text \<open>The one successful path of both.\<close>

lemma Default_Inr:
  "Default Q K p s = Inr p' \<longleftrightarrow>
    (\<exists>m n g. pvc_annotations p = Some m \<and> m webhook_group = Some n \<and> n \<noteq> '''' \<and>
      kube_get_group K \<lparr>nn_namespace = pvc_namespace p, nn_name = n\<rparr> s = Inr g \<and>
      p' = p\<lparr>pvc_annotations := Some (m ++ getTemplateAnnotations Q (grp_Template g) (Some m))\<rparr>) \<or>
    p' = p \<and> (\<forall>m n. pvc_annotations p = Some m \<and> m webhook_group = Some n \<and> n \<noteq> '''' \<longrightarrow>
      (\<exists>e. kube_get_group K \<lparr>nn_namespace = pvc_namespace p, nn_name = n\<rparr> s = Inl e \<and> is_not_found e))"
  by (auto simp: Default_def split: option.splits sum.splits if_splits)

lemma Handle_patched:
  "Handle Q K order dec req s = Patched ops \<longleftrightarrow>
    (\<exists>p m n g. req_Kind req = ''PersistentVolumeClaim'' \<and> dec \<and> req_Object req = Inr p \<and>
      pvc_annotations p = Some m \<and> m ''pvc-chonker.io/enabled'' \<noteq> Some ''false'' \<and>
      m webhook_group = Some n \<and> n \<noteq> '''' \<and>
      kube_get_group K \<lparr>nn_namespace = pvc_namespace p, nn_name = n\<rparr> s = Inr g \<and>
      ops = map (annotation_op (getTemplateAnnotations Q (grp_Template g) (Some m)))
        (order (getTemplateAnnotations Q (grp_Template g) (Some m))) \<and> ops \<noteq> [])"
  by (auto simp: Handle_def Let_def annotation_op_def [abs_def] split: option.splits sum.splits if_splits)

end
