(* ===== verification/TemplateFacts.thy ===== *)
theory TemplateFacts
  imports GroupWebhook AnnotationFacts TimeFacts
begin

text \<open>
  From a group's template to the settings of a member: what the webhook prints into annotations
  (quantities, durations) is what the controller later reads from them.
\<close>

text \<open>One annotation of a defaulted claim, where the claim itself has none.\<close>

lemma defaulted_annotation:
  "m x = None \<Longrightarrow> (m ++ getTemplateAnnotations Q t (Some m)) x = template_value Q t x"
  by (simp add: map_add_def template_lookup split: option.split)

lemma parse_annotations_fields:
  assumes "ParsePVCAnnotations Q (Some p) (Some g) = Inr c" and "pvc_annotations p = Some m"
  shows "case m AnnotationThreshold of None \<Rightarrow> pc_Threshold c = gc_Threshold g
      | Some v \<Rightarrow> parsePercentage v = Inr (pc_Threshold c)"
    and "case m AnnotationInodesThreshold of None \<Rightarrow> pc_InodesThreshold c = gc_InodesThreshold g
      | Some v \<Rightarrow> parsePercentage v = Inr (pc_InodesThreshold c)"
    and "case m AnnotationIncrease of None \<Rightarrow> pc_Increase c = gc_Increase g | Some v \<Rightarrow> pc_Increase c = v"
    and "case m AnnotationMaxSize of None \<Rightarrow> pc_MaxSize c = gc_MaxSize g
      | Some v \<Rightarrow> qty_parse Q v = Some (pc_MaxSize c)"
    and "case m AnnotationMinScaleUp of None \<Rightarrow> pc_MinScaleUp c = gc_MinScaleUp g
      | Some v \<Rightarrow> qty_parse Q v = Some (pc_MinScaleUp c)"
    and "case m AnnotationCooldown of None \<Rightarrow> pc_Cooldown c = gc_Cooldown g
      | Some v \<Rightarrow> ParseDuration v = Inr (pc_Cooldown c)"
  using assms unfolding parse_annotations_Inr by - (simp, elim exE conjE, assumption)+

text \<open>
  What the settings of a defaulted claim are, for the keys its own annotations \<open>m\<close> leave open:
  the template's, or else the global ones.
\<close>

definition reads_template ::
  "('q \<Rightarrow> rat) \<Rightarrow> (string \<rightharpoonup> string) \<Rightarrow> 'q PVCGroupTemplate \<Rightarrow> 'q GlobalConfig \<Rightarrow> 'q PVCConfig \<Rightarrow> bool" where
  "reads_template amount m t g c \<longleftrightarrow>
     (m AnnotationThreshold = None \<longrightarrow> (case gt_Threshold t of None \<Rightarrow> pc_Threshold c = gc_Threshold g
       | Some v \<Rightarrow> parsePercentage v = Inr (pc_Threshold c))) \<and>
     (m AnnotationInodesThreshold = None \<longrightarrow> (case gt_InodesThreshold t of
         None \<Rightarrow> pc_InodesThreshold c = gc_InodesThreshold g
       | Some v \<Rightarrow> parsePercentage v = Inr (pc_InodesThreshold c))) \<and>
     (m AnnotationIncrease = None \<longrightarrow> pc_Increase c = (case gt_Increase t of None \<Rightarrow> gc_Increase g | Some v \<Rightarrow> v)) \<and>
     (m AnnotationMaxSize = None \<longrightarrow>
       amount (pc_MaxSize c) = amount (case gt_MaxSize t of None \<Rightarrow> gc_MaxSize g | Some q \<Rightarrow> q)) \<and>
     (m AnnotationMinScaleUp = None \<longrightarrow>
       amount (pc_MinScaleUp c) = amount (case gt_MinScaleUp t of None \<Rightarrow> gc_MinScaleUp g | Some q \<Rightarrow> q)) \<and>
     (m AnnotationCooldown = None \<longrightarrow> pc_Cooldown c = (case gt_Cooldown t of None \<Rightarrow> gc_Cooldown g | Some d \<Rightarrow> d))"

lemma read_template:
  assumes "quantity_api Q amount" and "ParsePVCAnnotations Q (Some p) (Some g) = Inr c"
    and ann: "pvc_annotations p = Some (m ++ getTemplateAnnotations Q t (Some m))"
    and cd: "\<forall>d. gt_Cooldown t = Some d \<longrightarrow> second dvd d \<and> \<bar>d\<bar> \<le> max_int64"
  shows "reads_template amount m t g c"
proof -
  have qty: "amount r = amount q" if "qty_parse Q (qty_string Q q) = Some r" for q r
    using quantity_api.parse_string [OF assms(1), of q] that by auto
  have dur: "ParseDuration (Duration_String d) = Inr d" if "gt_Cooldown t = Some d" for d
    using parse_duration_string [of d "d div second"] cd that by (auto simp: second_def)
  note A = parse_annotations_fields [OF assms(2) ann]
  note D = defaulted_annotation [of m _ Q t, unfolded template_value_def]
  show ?thesis
    unfolding reads_template_def
  proof (intro conjI impI)
    assume "m AnnotationThreshold = None"
    from A(1) D [OF this] show "case gt_Threshold t of None \<Rightarrow> pc_Threshold c = gc_Threshold g
       | Some v \<Rightarrow> parsePercentage v = Inr (pc_Threshold c)" by (simp add: annotation_names)
  next
    assume "m AnnotationInodesThreshold = None"
    from A(2) D [OF this] show "case gt_InodesThreshold t of None \<Rightarrow> pc_InodesThreshold c = gc_InodesThreshold g
       | Some v \<Rightarrow> parsePercentage v = Inr (pc_InodesThreshold c)" by (simp add: annotation_names)
  next
    assume "m AnnotationIncrease = None"
    from A(3) D [OF this] show "pc_Increase c = (case gt_Increase t of None \<Rightarrow> gc_Increase g | Some v \<Rightarrow> v)"
      by (simp add: annotation_names split: option.splits)
  next
    assume "m AnnotationMaxSize = None"
    from A(4) D [OF this] show "amount (pc_MaxSize c) = amount (case gt_MaxSize t of None \<Rightarrow> gc_MaxSize g | Some q \<Rightarrow> q)"
      by (auto simp: annotation_names qty split: option.splits)
  next
    assume "m AnnotationMinScaleUp = None"
    from A(5) D [OF this] show "amount (pc_MinScaleUp c) = amount (case gt_MinScaleUp t of None \<Rightarrow> gc_MinScaleUp g | Some q \<Rightarrow> q)"
      by (auto simp: annotation_names qty split: option.splits)
  next
    assume "m AnnotationCooldown = None"
    from A(6) D [OF this] show "pc_Cooldown c = (case gt_Cooldown t of None \<Rightarrow> gc_Cooldown g | Some d \<Rightarrow> d)"
      by (auto simp: annotation_names dur split: option.splits)
  qed
qed

end
