(* ===== verification/GroupProperties.thy ===== *)
theory GroupProperties
  imports Samples PVCPolicyController TemplateFacts
begin

text \<open>
  The properties of the group and policy controllers (internal/controller) and of the admission
  webhook (internal/webhook).
\<close>

interpretation ref_env: group_env ref_quantity ref_amount ref_kube ref_view
  by unfold_locales

section \<open>A run on the sample cluster\<close>

definition sample_group_state :: "(int, ref_server) group_state" where
  "sample_group_state = \<lparr>gs_server = sample_server, gs_events = []\<rparr>"

definition sample_request :: namespaced_name where
  "sample_request = \<lparr>nn_namespace = ''apps'', nn_name = ''g''\<rparr>"

lemma sample_get_group: "kube_get_group ref_kube sample_request (gs_server sample_group_state) = Inr sample_group"
  by (simp add: ref_kube_def sample_group_state_def sample_server_def sample_group_def sample_request_def
      group_key_def found_def)

lemma sample_in_group: "in_group sample_group sample_pvc" "in_group sample_group small_pvc"
  by (simp_all add: in_group_def sample_group_def sample_pvc_def small_pvc_def annotation_names
      AnnotationGroup_def)

lemma sample_active: "filter (in_group sample_group) [sample_pvc, small_pvc] = [sample_pvc, small_pvc]"
  by (simp add: sample_in_group)

lemma sample_list_group:
  "kube_list_pvcs_in ref_kube (grp_namespace sample_group) (gs_server sample_group_state) = Inr [sample_pvc, small_pvc]"
  by (simp add: sample_listed sample_group_def sample_group_state_def)

lemma sample_largest: "calculateLargestSize ref_quantity [sample_pvc, small_pvc] = gi 10"
  by (simp add: calculateLargestSize_def) (simp add: gi_def nano_def)

lemma sample_update_ok: "fst (ref_update_pvc (coordinated ref_quantity (gi 10) small_pvc) sample_server) = None"
proof -
  have "ref_view sample_server (pvc_key (coordinated ref_quantity (gi 10) small_pvc)) = Some small_pvc"
    unfolding coordinated_simps by (rule sample_view)
  then show ?thesis by (simp add: ref_update_pvc_def) (simp add: sample_server_def)
qed

lemma sample_group_run:
  obtains st' g where "PVCGroup_Reconcile ref_quantity ref_kube sample_request now sample_group_state
      = Inr (10 * minute, None, st')"
    and "kube_get_group ref_kube sample_request (gs_server st') = Inr g"
    and "grp_namespace g = grp_namespace sample_group" and "grp_name g = grp_name sample_group"
    and "\<forall>p \<in> set (rs_pvcs (gs_server st')). pvc_requests p \<noteq> None"
proof -
  define s' where "s' = snd (ref_update_pvc (coordinated ref_quantity (gi 10) small_pvc) sample_server)"
  have up: "ref_update_pvc (coordinated ref_quantity (gi 10) small_pvc) sample_server = (None, s')"
    using sample_update_ok by (simp add: s'_def prod_eq_iff)
  have cmp: "0 \<le> qty_cmp ref_quantity (gi 10) (gi 10)" "\<not> 0 \<le> qty_cmp ref_quantity (gi 4) (gi 10)"
    by (simp_all add: gi_def nano_def)
  have groups: "rs_groups s' = [sample_group]"
    using ref_update_frame(1) [OF up] by (simp add: sample_server_def)
  have reqs: "\<forall>p \<in> set (rs_pvcs s'). pvc_requests p \<noteq> None"
    using up sample_requests cmp
    by (auto simp: ref_update_pvc_def sample_server_def coordinated_def split: if_splits)
  define g where "g = sample_group\<lparr>grp_MemberCount := wrap32 2, grp_LastUpdated := Some now,
    grp_CurrentSize := Some (gi 10)\<rparr>"
  have key: "group_key g = group_key sample_group" "group_key sample_group = sample_request"
    by (simp_all add: g_def group_key_def sample_group_def sample_request_def)
  then have status: "kube_update_group_status ref_kube g s' = (None, s'\<lparr>rs_groups := [g]\<rparr>)"
    using groups by (simp add: ref_kube_def ref_update_group_def)
  have "coordinatePVCSizes ref_quantity ref_kube (gi 10) g [sample_pvc, small_pvc] sample_group_state =
    Inr (None, \<lparr>gs_server = s', gs_events = [coordinated_event ref_quantity g small_pvc (gi 10)]\<rparr>)"
    using up cmp sample_requests
    by (simp add: coordinate_Cons sample_group_state_def ref_kube_def
        del: coordinatePVCSizes.simps(2) ref_quantity_ops)
  then have "PVCGroup_Reconcile ref_quantity ref_kube sample_request now sample_group_state =
    Inr (update_group_status ref_kube g \<lparr>gs_server = s', gs_events = [coordinated_event ref_quantity g small_pvc (gi 10)]\<rparr>)"
    using sample_get_group sample_list_group
    by (simp add: PVCGroup_Reconcile_def sample_active sample_largest Let_def g_def
        del: coordinatePVCSizes.simps filter.simps)
  then have run: "PVCGroup_Reconcile ref_quantity ref_kube sample_request now sample_group_state =
    Inr (10 * minute, None, \<lparr>gs_server = s'\<lparr>rs_groups := [g]\<rparr>,
      gs_events = [coordinated_event ref_quantity g small_pvc (gi 10)]\<rparr>)"
    using status by (simp add: update_group_status_def)
  show thesis
    by (rule that [OF run, of g]) (use key reqs in \<open>simp_all add: ref_kube_def found_def g_def\<close>)
qed

section \<open>The group controller\<close>

text \<open>C15. A reconciliation of a group raises its enabled members, and nothing else, to the largest
  request among them: it never lowers a request, on success every member has been treated, and
  on an error the members not yet treated are as they were.\<close>

theorem members_coordinated:
  assumes "group_env Q amount K view"
    and "kube_get_group K req (gs_server st) = Inr g"
    and "kube_list_pvcs_in K (grp_namespace g) (gs_server st) = Inr items"
    and "PVCGroup_Reconcile Q K req now st = Inr (d, r, st')"
  shows "\<exists>T ps. amount T = Max (insert 0 (amount ` pvc_request_storage Q ` set (filter (in_group g) items))) \<and>
    ps \<subseteq> set (filter (in_group g) items) \<and> (r = None \<longrightarrow> ps = set (filter (in_group g) items)) \<and>
    (\<forall>p \<in> ps. view (gs_server st') (pvc_key p) = Some (coordinated Q T p) \<and>
      amount (pvc_request_storage Q (coordinated Q T p)) = amount T) \<and>
    (\<forall>k. k \<notin> pvc_key ` ps \<longrightarrow> view (gs_server st') k = view (gs_server st) k)"
proof -
  have mem: "group_env.members view g (gs_server st) = set (filter (in_group g) items)"
    using group_env.listed_members [OF assms(1,3)] by simp
  obtain T ps where T: "amount T = Max (insert 0 (amount ` pvc_request_storage Q ` set (filter (in_group g) items)))"
    and ps: "ps \<subseteq> set (filter (in_group g) items)" "r = None \<longrightarrow> ps = set (filter (in_group g) items)"
    and on: "\<forall>p \<in> ps. view (gs_server st') (pvc_key p) = Some (coordinated Q T p)"
    and off: "\<forall>k. k \<notin> pvc_key ` ps \<longrightarrow> view (gs_server st') k = view (gs_server st) k"
    using group_env.reconcile_members [OF assms] unfolding mem by blast
  have q: "quantity_api Q amount" using assms(1) by (simp add: group_env_def)
  have "amount (pvc_request_storage Q (coordinated Q T p)) = amount T" if "p \<in> ps" for p
  proof -
    have "amount (pvc_request_storage Q p) \<le> amount T"
      unfolding T using that ps(1) by (intro Max_ge) auto
    then show ?thesis using quantity_api.coordinated_amount [OF q, of T p] by (simp add: max_def)
  qed
  with T ps on off show ?thesis
    by (intro exI [of _ T] exI [of _ ps]) auto
qed

theorem members_coordinated_witness:
  "\<exists>st' T. PVCGroup_Reconcile ref_quantity ref_kube sample_request 0 sample_group_state = Inr (10 * minute, None, st') \<and>
    ref_view (gs_server st') (pvc_key small_pvc) = Some (coordinated ref_quantity T small_pvc)"
proof -
  obtain st' where run: "PVCGroup_Reconcile ref_quantity ref_kube sample_request 0 sample_group_state
      = Inr (10 * minute, None, st')" by (rule sample_group_run [of 0]) blast
  have "set (filter (in_group sample_group) [sample_pvc, small_pvc]) = {sample_pvc, small_pvc}"
    unfolding sample_active by simp
  with members_coordinated [OF ref_env.group_env_axioms sample_get_group sample_list_group run] run
  show ?thesis by (auto simp: sample_in_group simp del: filter.simps)
qed



text \<open>A claim that changes triggers the group its annotation names, if any, and no other; so
  every member triggers its group.\<close>

lemma member_triggers_group:
  assumes "in_group g p" and "pvc_namespace p = grp_namespace g" and "grp_name g \<noteq> ''''"
  shows "findPVCGroupForPVC p = [\<lparr>nn_namespace = grp_namespace g, nn_name = grp_name g\<rparr>]"
  using assms by (cases "pvc_annotations p")
    (auto simp: findPVCGroupForPVC_def in_group_def split: option.splits if_splits)

section \<open>The policy controller\<close>

lemma sample_policy_runs:
  "kube_get_policy ref_kube (policy_key sample_policy) sample_policy_server = Inr sample_policy"
  "kube_selector ref_kube (pol_Selector sample_policy) = Inr (\<lambda>labels. True)"
  "\<exists>items. kube_list_pvcs_in ref_kube (pol_namespace sample_policy) sample_policy_server = Inr items"
  by (simp_all add: ref_kube_def sample_policy_server_def found_def) (simp add: sample_policy_def)

text \<open>When a claim changes, the policies reconciled are those of its namespace whose selector
  matches its labels; one with an invalid selector is skipped.\<close>

lemma claim_triggers_policies:
  "k \<in> set (findPVCPoliciesForPVC K p s) \<longleftrightarrow>
    (\<exists>policies q matches. kube_list_policies K (pvc_namespace p) s = Inr policies \<and> q \<in> set policies \<and>
      kube_selector K (pol_Selector q) = Inr matches \<and> matches (pvc_labels p) \<and>
      k = \<lparr>nn_namespace = pol_namespace q, nn_name = pol_name q\<rparr>)"
proof -
  have "(case kube_selector K (pol_Selector q) of Inl _ \<Rightarrow> False | Inr f \<Rightarrow> f (pvc_labels p)) \<longleftrightarrow>
      (\<exists>matches. kube_selector K (pol_Selector q) = Inr matches \<and> matches (pvc_labels p))" for q
    by (cases "kube_selector K (pol_Selector q)") auto
  then show ?thesis
    by (cases "kube_list_policies K (pvc_namespace p) s")
      (auto simp: findPVCPoliciesForPVC_def collect_requests_eq)
qed

text \<open>C32. Reconciling a policy writes its status and no claim: the number of stored claims of its
  namespace that the selector matches (as an int32) and the time; it comes back in five minutes,
  or reports the error of the write. A changed claim triggers the policies of its namespace
  that select it; one with an invalid selector is skipped.\<close>

theorem policy_counts_matches:
  assumes "pvc_store K view" and "kube_get_policy K req s = Inr pol"
    and "kube_list_pvcs_in K (pol_namespace pol) s = Inr items"
    and "kube_selector K (pol_Selector pol) = Inr matches"
    and "PVCPolicy_Reconcile K req now s = (d, r, s')"
  shows "view s' = view s \<and> d = (if r = None then 5 * minute else 0) \<and>
    (map_option StatusError (fst (kube_update_policy_status K (pol\<lparr>pol_MatchedPVCs := wrap32 (int (card
        {k. \<exists>p. view s k = Some p \<and> pvc_namespace p = pol_namespace pol \<and> matches (pvc_labels p)})),
      pol_LastUpdated := Some now\<rparr>) s)) = r) \<and>
    set (findPVCPoliciesForPVC K p s) = {\<lparr>nn_namespace = pol_namespace q, nn_name = pol_name q\<rparr> | q policies f.
      kube_list_policies K (pvc_namespace p) s = Inr policies \<and> q \<in> set policies \<and>
      kube_selector K (pol_Selector q) = Inr f \<and> f (pvc_labels p)}"
proof -
  have trigger: "set (findPVCPoliciesForPVC K p s) = {\<lparr>nn_namespace = pol_namespace q, nn_name = pol_name q\<rparr> | q policies f.
      kube_list_policies K (pvc_namespace p) s = Inr policies \<and> q \<in> set policies \<and>
      kube_selector K (pol_Selector q) = Inr f \<and> f (pvc_labels p)}"
    using claim_triggers_policies [of _ K p s] by blast
  let ?hits = "filter (\<lambda>p. matches (pvc_labels p)) items"
  have "distinct (map pvc_key ?hits)"
    using pvc_store.list_in_distinct [OF assms(1,3)] by (intro distinct_map_filter)
  then have "length ?hits = card (pvc_key ` set ?hits)"
    using distinct_card [of "map pvc_key ?hits"] by simp
  also have "pvc_key ` set ?hits =
      {k. \<exists>p. view s k = Some p \<and> pvc_namespace p = pol_namespace pol \<and> matches (pvc_labels p)}"
    using pvc_store.list_in_view [OF assms(1,3)]
    by (auto simp: image_iff) (metis pvc_store.view_key [OF assms(1)])
  finally have n: "card {k. \<exists>p. view s k = Some p \<and> pvc_namespace p = pol_namespace pol \<and>
      matches (pvc_labels p)} = length ?hits" ..
  have "count_matches matches items 0 = wrap32 (int (length ?hits))"
    using count_matches_eq [of 0 matches items] by (simp add: wrap32_id)
  then show ?thesis
    using assms pvc_store.policy_reconcile_claims [OF assms(1,5)] unfolding n trigger
    by (auto simp: PVCPolicy_Reconcile_def Let_def split: prod.splits option.splits)
qed

theorem policy_counts_matches_witness:
  "\<exists>d r s'. PVCPolicy_Reconcile ref_kube (policy_key sample_policy) 7 sample_policy_server = (d, r, s') \<and>
    ref_view s' = ref_view sample_policy_server"
proof -
  obtain d r s' where run: "PVCPolicy_Reconcile ref_kube (policy_key sample_policy) 7 sample_policy_server = (d, r, s')"
    by (metis prod_cases3)
  obtain items where "kube_list_pvcs_in ref_kube (pol_namespace sample_policy) sample_policy_server = Inr items"
    using sample_policy_runs(3) by blast
  from policy_counts_matches [OF ref_api.pvc_store_axioms sample_policy_runs(1) this sample_policy_runs(2) run]
  show ?thesis using run by blast
qed

section \<open>The webhook\<close>

text \<open>C31. Defaulting never overrides an annotation a claim has, changes nothing but annotations,
  and doing it twice is doing it once.\<close>

theorem default_fills_only_missing:
  assumes "Default Q K p s = Inr p'"
  shows "Default Q K p' s = Inr p' \<and> p'\<lparr>pvc_annotations := pvc_annotations p\<rparr> = p \<and>
    map_get (pvc_annotations p) \<subseteq>\<^sub>m map_get (pvc_annotations p')"
  using assms unfolding Default_Inr [of Q K p s p']
proof (elim disjE exE conjE)
  assume "p' = p"
  with assms show ?thesis by simp
next
  fix m n g
  assume m: "pvc_annotations p = Some m" "m webhook_group = Some n" "n \<noteq> ''''"
    and g: "kube_get_group K \<lparr>nn_namespace = pvc_namespace p, nn_name = n\<rparr> s = Inr g"
    and p': "p' = p\<lparr>pvc_annotations := Some (m ++ getTemplateAnnotations Q (grp_Template g) (Some m))\<rparr>"
  let ?t = "getTemplateAnnotations Q (grp_Template g) (Some m)"
  have "(m ++ ?t) webhook_group = Some n"
    using m(2) template_group [of Q "grp_Template g" "Some m"] by (simp add: map_add_def)
  with m g p' template_again [of Q "grp_Template g" m] have "Default Q K p' s = Inr p'"
    by (simp add: Default_def)
  moreover have "m \<subseteq>\<^sub>m m ++ ?t"
    using template_new [of Q "grp_Template g" "Some m"]
    by (fastforce simp: map_le_def map_add_def split: option.split)
  then have "map_get (Some m) \<subseteq>\<^sub>m map_get (Some (m ++ ?t))" by (simp add: map_le_def dom_def)
  ultimately show ?thesis using m(1) p' by simp
qed

lemma sample_default:
  "\<exists>p'. Default ref_quantity ref_kube sample_pvc sample_server = Inr p' \<and>
    map_get (pvc_annotations p') ''pvc-chonker.io/threshold'' = Some ''70%''"
proof -
  have "kube_get_group ref_kube \<lparr>nn_namespace = pvc_namespace sample_pvc, nn_name = ''g''\<rparr> sample_server = Inr sample_group"
    using sample_get_group by (simp add: sample_request_def sample_group_state_def sample_pvc_def)
  moreover have "pvc_annotations sample_pvc = Some [AnnotationEnabled \<mapsto> ''true'', AnnotationGroup \<mapsto> ''g'']"
    by (simp add: sample_pvc_def)
  ultimately show ?thesis
    by (simp add: Default_def map_add_def template_lookup template_value_def sample_group_def
        annotation_names AnnotationGroup_def webhook_group_def)
qed

theorem default_fills_only_missing_witness:
  "\<exists>p'. Default ref_quantity ref_kube sample_pvc sample_server = Inr p' \<and>
    map_get (pvc_annotations p') ''pvc-chonker.io/threshold'' = Some ''70%'' \<and>
    Default ref_quantity ref_kube p' sample_server = Inr p'"
  using sample_default default_fills_only_missing [of ref_quantity ref_kube sample_pvc sample_server] by blast

text \<open>C21. Round trip through the annotations: what a group's template says is what the controller
  later reads of a defaulted claim, for every setting the claim has no annotation of its own for
  (quantities in amount, durations of whole seconds exactly); without a value in the template the
  global one stands.\<close>

theorem template_governs_members:
  assumes "quantity_api Q amount" and "Default Q K p s = Inr p'"
    and "pvc_annotations p = Some m" and "m webhook_group = Some n" and "n \<noteq> []"
    and "kube_get_group K \<lparr>nn_namespace = pvc_namespace p, nn_name = n\<rparr> s = Inr grp"
    and "ParsePVCAnnotations Q (Some p') (Some g) = Inr c"
    and "\<forall>d. gt_Cooldown (grp_Template grp) = Some d \<longrightarrow> second dvd d \<and> \<bar>d\<bar> \<le> max_int64"
  shows "reads_template amount m (grp_Template grp) g c"
proof -
  have "pvc_annotations p' = Some (m ++ getTemplateAnnotations Q (grp_Template grp) (Some m))"
    using assms(2-6) unfolding Default_Inr by auto
  then show ?thesis using read_template [OF assms(1,7) _ assms(8)] by simp
qed

theorem template_governs_members_witness:
  "\<exists>p' c. Default ref_quantity ref_kube sample_pvc sample_server = Inr p' \<and>
    ParsePVCAnnotations ref_quantity (Some p') (Some sample_global) = Inr c \<and>
    pc_Threshold c = FFin 70 \<and> ref_amount (pc_MaxSize c) = ref_amount (gi 100)"
proof -
  let ?m = "[AnnotationEnabled \<mapsto> ''true'', AnnotationGroup \<mapsto> ''g'']"
  let ?t = "grp_Template sample_group"
  let ?a = "?m ++ getTemplateAnnotations ref_quantity ?t (Some ?m)"
  have m: "pvc_annotations sample_pvc = Some ?m" "?m webhook_group = Some ''g''"
    by (simp_all add: sample_pvc_def annotation_names AnnotationGroup_def webhook_group_def)
  have g: "kube_get_group ref_kube \<lparr>nn_namespace = pvc_namespace sample_pvc, nn_name = ''g''\<rparr> sample_server = Inr sample_group"
    using sample_get_group by (simp add: sample_request_def sample_group_state_def sample_pvc_def)
  obtain p' where d: "Default ref_quantity ref_kube sample_pvc sample_server = Inr p'" and p': "pvc_annotations p' = Some ?a"
    using m g unfolding Default_Inr by fastforce
  have t: "?a AnnotationThreshold = Some ''70%''" "?a AnnotationInodesThreshold = None" "?a AnnotationIncrease = None"
    "?a AnnotationMinScaleUp = None" "?a AnnotationCooldown = None" "?a AnnotationLastExpansion = None"
    "?a AnnotationMaxSize = Some (ref_string (gi 100))" "?a AnnotationEnabled = Some ''true''"
    by (simp_all add: map_add_def template_lookup template_value_def annotation_names AnnotationGroup_def
        sample_group_def ref_quantity_def)
  have l: "ToLower ''true'' = ''true''" by code_simp
  obtain q where q: "qty_parse ref_quantity (ref_string (gi 100)) = Some q"
    using ref_qty.parse_string [of "gi 100"] by (auto simp: ref_quantity_def)
  have "parsePercentage (fmt_nat 70 @ ''%'') = Inr (FFin (of_int 70))"
    by (rule parsePercentage_digits) simp_all
  moreover have "fmt_nat 70 = ''70''" by code_simp
  ultimately have pp: "parsePercentage ''70%'' = Inr (FFin 70)" by simp
  have "annotations_parse ref_quantity ?a"
    unfolding annotations_parse_def t using pp q by simp
  then have "\<exists>c. ParsePVCAnnotations ref_quantity (Some p') (Some sample_global) = Inr c"
    unfolding parse_annotations_total using p' t(8) l by (intro exI [of _ ?a] exI [of _ "''true''"]) simp
  then obtain c where c: "ParsePVCAnnotations ref_quantity (Some p') (Some sample_global) = Inr c" ..
  have "\<forall>d. gt_Cooldown ?t = Some d \<longrightarrow> second dvd d \<and> \<bar>d\<bar> \<le> max_int64" by (simp add: sample_group_def)
  note r = template_governs_members [OF ref_qty.quantity_api_axioms d m list.distinct(2) g c this]
  have o: "?m AnnotationThreshold = None" "?m AnnotationMaxSize = None"
    by (simp_all add: annotation_names AnnotationGroup_def)
  have "pc_Threshold c = FFin 70" "ref_amount (pc_MaxSize c) = ref_amount (gi 100)"
    using r o pp unfolding reads_template_def by (simp_all add: sample_group_def del: sample_values)
  with d c show ?thesis by blast
qed

text \<open>C30. The two entry points agree: applying the JSON patch \<open>Handle\<close> answers with to the claim of
  the request gives what \<open>Default\<close> makes of it, whatever order the patches come in.\<close>

theorem patch_is_default:
  assumes "Handle Q K order decoder req s = Patched ops" and "req_Object req = Inr p"
    and "\<And>t e. set (order (getTemplateAnnotations Q t e)) = dom (getTemplateAnnotations Q t e)"
  shows "Default Q K p s = Inr (p\<lparr>pvc_annotations := fold apply_op ops (pvc_annotations p)\<rparr>)"
proof -
  obtain m n g where m: "pvc_annotations p = Some m" "m webhook_group = Some n" "n \<noteq> ''''"
    and g: "kube_get_group K \<lparr>nn_namespace = pvc_namespace p, nn_name = n\<rparr> s = Inr g"
    and ops: "ops = map (annotation_op (getTemplateAnnotations Q (grp_Template g) (Some m)))
        (order (getTemplateAnnotations Q (grp_Template g) (Some m)))"
    using assms(1,2) unfolding Handle_patched by auto
  let ?t = "getTemplateAnnotations Q (grp_Template g) (Some m)"
  have "fold apply_op ops (Some m) = Some (m ++ (?t |` set (order ?t)))"
    unfolding ops by (rule apply_annotation_ops) (simp add: assms(3))
  moreover have "?t |` dom ?t = ?t" by (auto simp: restrict_map_def fun_eq_iff domIff)
  ultimately have "fold apply_op ops (pvc_annotations p) = Some (m ++ ?t)" using m(1) assms(3) by simp
  then show ?thesis using m g by (simp add: Default_def)
qed

text \<open>An order that lists the keys of the template as the code adds them.\<close>

definition template_keys :: "string list" where
  "template_keys = [''pvc-chonker.io/threshold'', ''pvc-chonker.io/increase'', ''pvc-chonker.io/max-size'',
     ''pvc-chonker.io/cooldown'', ''pvc-chonker.io/inodes-threshold'', ''pvc-chonker.io/min-scale-up'']"

definition template_order :: "(string \<rightharpoonup> string) \<Rightarrow> string list" where
  "template_order m = filter (\<lambda>k. m k \<noteq> None) template_keys"

lemma template_value_keys: "x \<notin> set template_keys \<Longrightarrow> template_value Q t x = None"
  by (simp add: template_value_def template_keys_def)

lemma template_order: "set (template_order (getTemplateAnnotations Q t e)) = dom (getTemplateAnnotations Q t e)"
proof -
  have "dom (getTemplateAnnotations Q t e) \<subseteq> set template_keys"
  proof
    fix x assume "x \<in> dom (getTemplateAnnotations Q t e)"
    then have "template_value Q t x \<noteq> None" by (auto simp: template_lookup split: if_splits)
    then show "x \<in> set template_keys" using template_value_keys by metis
  qed
  then show ?thesis by (auto simp: template_order_def)
qed

theorem patch_is_default_witness:
  "\<exists>ops. Handle ref_quantity ref_kube template_order True
      \<lparr>req_Kind = ''PersistentVolumeClaim'', req_Object = Inr sample_pvc\<rparr> sample_server = Patched ops \<and>
    Default ref_quantity ref_kube sample_pvc sample_server =
      Inr (sample_pvc\<lparr>pvc_annotations := fold apply_op ops (pvc_annotations sample_pvc)\<rparr>)"
proof -
  let ?m = "[AnnotationEnabled \<mapsto> ''true'', AnnotationGroup \<mapsto> ''g'']"
  let ?t = "getTemplateAnnotations ref_quantity (grp_Template sample_group) (Some ?m)"
  have "kube_get_group ref_kube \<lparr>nn_namespace = pvc_namespace sample_pvc, nn_name = ''g''\<rparr> sample_server = Inr sample_group"
    using sample_get_group by (simp add: sample_request_def sample_group_state_def sample_pvc_def)
  moreover have "?t ''pvc-chonker.io/threshold'' = Some ''70%''"
    by (simp add: template_lookup template_value_def sample_group_def annotation_names AnnotationGroup_def)
  then have "''pvc-chonker.io/threshold'' \<in> set (template_order ?t)"
    unfolding template_order by (rule domI)
  then have "template_order ?t \<noteq> []" by force
  ultimately have "Handle ref_quantity ref_kube template_order True
      \<lparr>req_Kind = ''PersistentVolumeClaim'', req_Object = Inr sample_pvc\<rparr> sample_server =
      Patched (map (annotation_op ?t) (template_order ?t))"
    unfolding Handle_patched
    by (intro exI [of _ sample_pvc] exI [of _ ?m] exI [of _ "''g''"] exI [of _ sample_group])
      (simp add: sample_pvc_def annotation_names AnnotationGroup_def webhook_group_def)
  with patch_is_default [OF this _ template_order] show ?thesis by fastforce
qed

text \<open>Escaping an annotation key for a JSON pointer leaves no slash, and decoding it by RFC 6901
  gives the key back.\<close>

lemma pointer_round_trip:
  "unescape (escapeJSONPointer s) = s \<and> CHR ''/'' \<notin> set (escapeJSONPointer s)"
  using unescape_escape escape_no_slash by blast

end
