(* ===== verification/ExpansionFacts.thy ===== *)
theory ExpansionFacts
  imports MetricFacts PVCGroupController
begin

text \<open>
  What becomes of a claim that needs space: its reconciliation sends the expansion to the server and
  reports the outcome in an event, no other goroutine of the cycle takes it back, and the group the
  claim names then hands the new size to every member.
\<close>

section \<open>One claim\<close>

text \<open>The report of an update that answered \<open>r\<close>.\<close>

definition reported :: "('q, 'sel, 's) Reconciler \<Rightarrow> 'q pvc \<Rightarrow> api_error option \<Rightarrow> 'q event list \<Rightarrow> bool" where
  "reported R p r evs = (case r of
       None \<Rightarrow> \<exists>config vm fsType. expansion_event (r_Q R) p config vm fsType \<in> set evs
     | Some err \<Rightarrow> failure_event p (UpdateFailed err) \<in> set evs)"

lemma reported_mono: "reported R p r evs \<Longrightarrow> set evs \<subseteq> set evs' \<Longrightarrow> reported R p r evs'"
  unfolding reported_def by (cases r) auto

lemma outcome_events:
  "set (st_events (outcome R p config vm fs (r, st))) = insert (case r of
     Some e \<Rightarrow> failure_event p e | None \<Rightarrow> expansion_event (r_Q R) p config vm fs) (set (st_events st))"
  by (cases r) (simp_all add: outcome_def emit_event_def)

text \<open>A reconciliation that has a size to ask for sends it and reports the answer.\<close>

lemma reconcile_reports:
  assumes e: "IsStorageClassExpandable R p st = (e, st1)" and run: "reconcilePVC R now1 now2 p mc st = Inr st'"
    and target: "expansion_target R now1 p mc e (st_server st) = Some n"
  shows "\<exists>r. kube_update_pvc (r_Client R) (expansion_object R now2 p n) (st_server st) = (r, st_server st') \<and>
    reported R p r (st_events st')"
  using run e
proof (cases rule: reconcilePVC_cases)
  case (expands config vm fs r st3)
  have size: "target_size R p config = Some n" and live: "\<not> r_DryRun R"
    using target expands(1,2) by (auto simp: expansion_target_def split: if_splits)
  from ExpandPVC_cases [OF expands(4)] size live expandable_server [OF e]
  obtain r' where r': "kube_update_pvc (r_Client R) (expansion_object R now2 p n) (st_server st) = (r', st_server st3)"
    and r: "r = map_option UpdateFailed r'"
    by (cases "kube_update_pvc (r_Client R) (expansion_object R now2 p n) (st_server st)") auto
  have "reported R p r' (st_events st')"
    unfolding reported_def expands(6) outcome_events r by (cases r') auto
  with r' expands(6) show ?thesis by auto
qed (use target in \<open>simp_all add: expansion_target_def\<close>)

text \<open>Events are only added.\<close>

lemma reconcile_events_grow:
  assumes "reconcilePVC R now1 now2 p mc st = Inr st'"
  shows "set (st_events st) \<subseteq> set (st_events st')"
proof -
  obtain e st1 where e: "IsStorageClassExpandable R p st = (e, st1)"
    by (cases "IsStorageClassExpandable R p st")
  from assms e show ?thesis
  proof (cases rule: reconcilePVC_cases)
    case (declines config)
    then show ?thesis using expandable_server [OF e] by (auto simp: declined_def)
  next
    case (expands config vm fs r st3)
    then show ?thesis using expandable_server [OF e] ExpandPVC_frame [OF expands(4)]
      by (auto simp: outcome_events)
  qed simp
qed

lemma each_events_grow:
  "reconcile_each R mc sched st = Inr st' \<Longrightarrow> set (st_events st) \<subseteq> set (st_events st')"
  by (induction R mc sched st rule: reconcile_each.induct)
    (auto simp: try_in_Inr dest!: reconcile_events_grow)

text \<open>The target does not depend on what the claim requests, only on what it has.\<close>

lemma resolve_ignores_request:
  "ResolvePVCConfig Q K (p\<lparr>pvc_requests := r\<rparr>) g s = ResolvePVCConfig Q K p g s"
proof -
  have "explicitly_disabled (p\<lparr>pvc_requests := r\<rparr>) = explicitly_disabled p"
    by (simp add: explicitly_disabled_def)
  moreover have "ParsePVCAnnotations Q (Some (p\<lparr>pvc_requests := r\<rparr>)) h = ParsePVCAnnotations Q (Some p) h" for h
    unfolding ParsePVCAnnotations_def by (simp split: option.split)
  ultimately show ?thesis unfolding ResolvePVCConfig_def by (simp split: sum.split)
qed

lemma may_expand_ignores_request:
  "may_expand R now (p\<lparr>pvc_requests := r\<rparr>) mc e config = may_expand R now p mc e config"
proof -
  have "IsPVCEligible (p\<lparr>pvc_requests := r\<rparr>) = IsPVCEligible p" by (simp add: IsPVCEligible_def)
  moreover have "IsPvcResizing (Some (p\<lparr>pvc_requests := r\<rparr>)) = IsPvcResizing (Some p)"
    by (simp add: IsPvcResizing_def)
  moreover have "pvc_key (p\<lparr>pvc_requests := r\<rparr>) = pvc_key p" by (simp add: pvc_key_def)
  ultimately show ?thesis by (simp only: may_expand_def)
qed

lemma target_ignores_request:
  "cycle_target R now (p\<lparr>pvc_requests := r\<rparr>) mc s = cycle_target R now p mc s"
proof -
  have "target_size R (p\<lparr>pvc_requests := r\<rparr>) config = target_size R p config" for config
    by (simp add: target_size_def pvc_capacity_storage_def)
  moreover have "expandable_now (r_Client R) s (p\<lparr>pvc_requests := r\<rparr>) = expandable_now (r_Client R) s p"
    by (simp add: expandable_now_def)
  ultimately show ?thesis
    unfolding cycle_target_def expansion_target_def resolve_ignores_request may_expand_ignores_request
    by (simp split: sum.split)
qed

section \<open>A cycle\<close>

text \<open>
  What a cycle owes a claim of the given target: the object the server was asked to store is stored,
  or the server refused it and the claim is as it was. Either way an event says so.
\<close>

definition settled ::
  "('q, 'sel, 's) Reconciler \<Rightarrow> ('s \<Rightarrow> namespaced_name \<rightharpoonup> 'q pvc) \<Rightarrow> 'q pvc \<Rightarrow> time \<Rightarrow> 'q \<Rightarrow> ('q, 's) rstate \<Rightarrow> bool" where
  "settled R view p now n st' \<longleftrightarrow> (\<exists>s r.
     fst (kube_update_pvc (r_Client R) (expansion_object R now p n) s) = r \<and>
     reported R p r (st_events st') \<and>
     view (st_server st') (pvc_key p) = Some (if r = None then expansion_object R now p n else p))"

context kube_store
begin

lemma each_settles:
  assumes R: "r_Client R = K" and "cache_ok R st" and "reconcile_each R mc sched st = Inr st'"
    and "distinct (map (\<lambda>(p, _). pvc_key p) sched)" and "(p, now1, now2) \<in> set sched"
    and "view (st_server st) (pvc_key p) = Some p" and "cycle_target R now1 p mc (st_server st) = Some n"
  shows "settled R view p now2 n st'"
  using assms(2-)
proof (induction sched arbitrary: st)
  case (Cons x rest)
  obtain q t1 t2 where x: "x = (q, t1, t2)" by (cases x)
  from Cons.prems(2) obtain st2 where run: "reconcilePVC R t1 t2 q mc st = Inr st2"
    and rest: "reconcile_each R mc rest st2 = Inr st'"
    unfolding x by (auto simp: try_in_Inr)
  note step = step_effect [OF R Cons.prems(1) run]
  have dist: "distinct (map (\<lambda>(p, _). pvc_key p) rest)" using Cons.prems(3) by simp
  show ?case
  proof (cases "(p, now1, now2) = x")
    case True
    obtain e st1 where e: "IsStorageClassExpandable R p st = (e, st1)"
      by (cases "IsStorageClassExpandable R p st")
    have target: "expansion_target R now1 p mc e (st_server st) = Some n"
      using Cons.prems(6) expandable_transparent(1) [OF Cons.prems(1) e] by (simp add: cycle_target_def)
    obtain r where r: "kube_update_pvc K (expansion_object R now2 p n) (st_server st) = (r, st_server st2)"
      and ev: "reported R p r (st_events st2)"
      using reconcile_reports [OF e _ target] run True R unfolding x by fastforce
    have "pvc_key p \<notin> (\<lambda>(p, _). pvc_key p) ` set rest"
      using Cons.prems(3) True unfolding x by auto
    then have keep: "view (st_server st') (pvc_key p) = view (st_server st2) (pvc_key p)"
      using each_effect [OF R step(1) rest dist] by simp
    have "view (st_server st2) (pvc_key p) = Some (if r = None then expansion_object R now2 p n else p)"
      using r Cons.prems(5) by (cases r) (auto dest: update_ok update_err)
    moreover have "reported R p r (st_events st')"
      using ev each_events_grow [OF rest] by (rule reported_mono)
    ultimately show ?thesis
      unfolding settled_def keep using r R by (metis fst_conv)
  next
    case False
    then have mem: "(p, now1, now2) \<in> set rest" using Cons.prems(4) by auto
    then have "pvc_key p \<noteq> pvc_key q"
      using Cons.prems(3) unfolding x by force
    then have "view (st_server st2) (pvc_key p) = Some p" using step(4) Cons.prems(5) by simp
    moreover have "cycle_target R now1 p mc (st_server st2) = Some n"
      using cycle_target_cong [OF R step(2,3)] Cons.prems(6) by simp
    ultimately show ?thesis using Cons.IH [OF step(1) rest dist mem] by blast
  qed
qed simp

text \<open>The keys of the goroutines of a cycle are distinct.\<close>

lemma schedule_keys:
  assumes "kube_list_pvcs K s = Inr pvcs" and "mset (map fst sched) = mset (managed_pvcs R s pvcs)"
  shows "distinct (map (\<lambda>(p, _). pvc_key p) sched)" and "fst ` set sched \<subseteq> set pvcs"
proof -
  have "distinct (map pvc_key (managed_pvcs R s pvcs))"
    using list_distinct [OF assms(1)] by (simp add: managed_pvcs_def distinct_map_filter)
  moreover have "mset (map pvc_key (map fst sched)) = mset (map pvc_key (managed_pvcs R s pvcs))"
    using assms(2) by (metis mset_map)
  ultimately have "distinct (map pvc_key (map fst sched))" by (metis mset_eq_imp_distinct_iff)
  then show "distinct (map (\<lambda>(p, _). pvc_key p) sched)" by (simp add: comp_def case_prod_unfold)
  have "set (map fst sched) = set (managed_pvcs R s pvcs)" using assms(2) by (rule mset_eq_setD)
  then show "fst ` set sched \<subseteq> set pvcs" by (auto simp: managed_pvcs_def)
qed

lemma cycle_settles:
  assumes R: "r_Client R = K" and sched: "\<And>ps. mset (map fst (sched ps)) = mset ps"
    and list: "kube_list_pvcs K (st_server st) = Inr pvcs"
    and reqs: "\<forall>p \<in> set pvcs. pvc_requests p \<noteq> None"
    and mem: "(p, now1, now2) \<in> set (sched (managed_pvcs R (st_server st) pvcs))"
    and target: "cycle_target R now1 p mc (st_server st) = Some n"
  shows "\<exists>st'. reconcileAll R (Inr mc) sched dur fin st = Inr st' \<and> settled R view p now2 n st'"
proof -
  let ?jobs = "sched (managed_pvcs R (st_server st) pvcs)"
  have list': "kube_list_pvcs (r_Client R) (st_server st) = Inr pvcs" using list R by simp
  obtain st' where run: "reconcileAll R (Inr mc) sched dur fin st = Inr st'"
    using cycle_completes [OF sched, of R st "Inr mc" dur fin] reqs list' by auto
  then obtain st2 where each: "reconcile_each R mc ?jobs (cycle_start R pvcs st) = Inr st2"
    and st': "st' = record_metrics (finish_trace dur fin) st2"
    using reconcileAll_runs [OF list', of mc sched dur fin] by (auto simp: try_in_Inr)
  note keys = schedule_keys [OF list sched]
  have "p \<in> set pvcs" using keys(2) mem by force
  then have "view (st_server st) (pvc_key p) = Some p" using list_view [OF list] by simp
  then have "settled R view p now2 n st2"
    using each_settles [OF R _ each keys(1) mem] target by (simp add: scc.coherent_clear)
  then have "settled R view p now2 n st'" by (simp add: settled_def st')
  with run show ?thesis by blast
qed

end

section \<open>The group of an expanded claim\<close>

lemma request_of_expansion [simp]: "pvc_request_storage Q (expansion_object R now p n) = n"
  by (simp add: pvc_request_storage_def resource_of_def expansion_object_def)

text \<open>A claim that names a group and is enabled is a member of the group its change triggers.\<close>

lemma trigger_is_membership:
  assumes "findPVCGroupForPVC p = [req]" and "grp_name g = nn_name req"
    and "map_get (pvc_annotations p) ''pvc-chonker.io/enabled'' = Some ''true''"
  shows "in_group g p" and "pvc_namespace p = nn_namespace req"
  using assms by (auto simp: findPVCGroupForPVC_def in_group_def split: if_splits option.splits)

context group_env
begin

text \<open>A successful reconciliation gives every member at least the request of each.\<close>

lemma members_reach:
  assumes "kube_get_group K req (gs_server st) = Inr g"
    and "kube_list_pvcs_in K (grp_namespace g) (gs_server st) = Inr items"
    and "PVCGroup_Reconcile Q K req now st = Inr (d, None, st')"
    and "p \<in> set items" and "in_group g p" and "q \<in> set items" and "in_group g q"
  shows "\<exists>q'. view (gs_server st') (pvc_key q) = Some q' \<and>
    amount (pvc_request_storage Q p) \<le> amount (pvc_request_storage Q q')"
proof -
  have mem: "members g (gs_server st) = set (filter (in_group g) items)"
    using listed_members [OF assms(2)] by simp
  obtain T where T: "amount T = Max (insert 0 (amount ` pvc_request_storage Q ` set (filter (in_group g) items)))"
    and on: "\<forall>p \<in> set (filter (in_group g) items). view (gs_server st') (pvc_key p) = Some (coordinated Q T p)"
    using reconcile_members [OF assms(1-3)] unfolding mem by auto
  have "amount (pvc_request_storage Q p) \<le> amount T"
    unfolding T using assms(4,5) by (intro Max_ge) auto
  also have "\<dots> \<le> amount (pvc_request_storage Q (coordinated Q T q))"
    by (simp add: coordinated_amount)
  finally show ?thesis using on assms(6,7) by auto
qed

end

end
