(* ===== verification/Operator.thy ===== *)
theory Operator
  imports ExpansionFacts PVCPolicyController
begin

text \<open>
  The controllers together, over one API server: the claims of a cycle one by one, with whole
  reconciliations of groups and policies between them in any order. A reconciliation acts on the
  stored version of its claim, since the server refuses an update of an older one.
\<close>

section \<open>Steps\<close>

record ('q, 's) operator_state =
  os_main :: "('q, 's) rstate"
  os_group_events :: "'q event list"

definition as_group_state :: "('q, 's) operator_state \<Rightarrow> ('q, 's) group_state" where
  "as_group_state s = \<lparr>gs_server = st_server (os_main s), gs_events = os_group_events s\<rparr>"

definition with_server :: "('q, 's) operator_state \<Rightarrow> 's \<Rightarrow> ('q, 's) operator_state" where
  "with_server s srv = s\<lparr>os_main := (os_main s)\<lparr>st_server := srv\<rparr>\<rparr>"

inductive operator_step ::
  "('q, 'sel, 's) Reconciler \<Rightarrow> ('s \<Rightarrow> namespaced_name \<rightharpoonup> 'q pvc) \<Rightarrow>
   ('q, 's) operator_state \<Rightarrow> ('q, 's) operator_state \<Rightarrow> bool" for R view where
  cycle_idle: "operator_step R view s (s\<lparr>os_main := record_metrics (idle_trace listed fin)
      ((os_main s)\<lparr>st_cache := cache_Clear (st_cache (os_main s))\<rparr>)\<rparr>)"
| cycle_begins: "kube_list_pvcs (r_Client R) (st_server (os_main s)) = Inr pvcs \<Longrightarrow>
    operator_step R view s (s\<lparr>os_main := cycle_start R pvcs (os_main s)\<rparr>)"
| claim: "view (st_server (os_main s)) (pvc_key p) = Some p \<Longrightarrow>
    reconcilePVC R now1 now2 p mc (os_main s) = Inr st' \<Longrightarrow>
    operator_step R view s (s\<lparr>os_main := st'\<rparr>)"
| cycle_ends: "operator_step R view s (s\<lparr>os_main := record_metrics (finish_trace dur fin) (os_main s)\<rparr>)"
| group: "PVCGroup_Reconcile (r_Q R) (r_Client R) req now (as_group_state s) = Inr (d, r, gst) \<Longrightarrow>
    operator_step R view s ((with_server s (gs_server gst))\<lparr>os_group_events := gs_events gst\<rparr>)"
| policy: "PVCPolicy_Reconcile (r_Client R) req now (st_server (os_main s)) = (d, err, srv) \<Longrightarrow>
    operator_step R view s (with_server s srv)"

inductive operator_run ::
  "('q, 'sel, 's) Reconciler \<Rightarrow> ('s \<Rightarrow> namespaced_name \<rightharpoonup> 'q pvc) \<Rightarrow>
   ('q, 's) operator_state \<Rightarrow> ('q, 's) operator_state \<Rightarrow> bool" for R view s where
  stop: "operator_run R view s s"
| next_step: "operator_run R view s s' \<Longrightarrow> operator_step R view s' s'' \<Longrightarrow> operator_run R view s s''"

lemma operator_run_trans:
  assumes "operator_run R view s s'" and "operator_run R view s' s''"
  shows "operator_run R view s s''"
  using assms(2,1) by (induction rule: operator_run.induct) (auto intro: operator_run.next_step)

lemma operator_run_step: "operator_step R view s s' \<Longrightarrow> operator_run R view s s'"
  by (rule operator_run.next_step [OF operator_run.stop])

section \<open>A cycle is a run\<close>

context kube_store
begin

lemma each_is_run:
  assumes R: "r_Client R = K" and "cache_ok R (os_main s)" and "reconcile_each R mc sched (os_main s) = Inr st'"
    and "distinct (map (\<lambda>(p, _). pvc_key p) sched)"
    and "\<forall>(p, _) \<in> set sched. view (st_server (os_main s)) (pvc_key p) = Some p"
  shows "operator_run R view s (s\<lparr>os_main := st'\<rparr>)"
  using assms(2-)
proof (induction sched arbitrary: s)
  case Nil
  then have "s\<lparr>os_main := st'\<rparr> = s" by simp
  then show ?case by (metis operator_run.stop)
next
  case (Cons x rest)
  obtain p t1 t2 where x: "x = (p, t1, t2)" by (cases x)
  from Cons.prems(2) obtain st2 where run: "reconcilePVC R t1 t2 p mc (os_main s) = Inr st2"
    and rest: "reconcile_each R mc rest st2 = Inr st'"
    unfolding x by (auto simp: try_in_Inr)
  note step = step_effect [OF R Cons.prems(1) run]
  have first: "operator_step R view s (s\<lparr>os_main := st2\<rparr>)"
    using Cons.prems(4) run unfolding x by (intro operator_step.claim) auto
  have "\<forall>(q, _) \<in> set rest. view (st_server st2) (pvc_key q) = Some q"
  proof (intro ballI, clarify)
    fix q u1 u2 assume q: "(q, u1, u2) \<in> set rest"
    then have "pvc_key q \<in> (\<lambda>(p, _). pvc_key p) ` set rest" by force
    then have "pvc_key q \<noteq> pvc_key p" using Cons.prems(3) unfolding x by auto
    then show "view (st_server st2) (pvc_key q) = Some q" using step(4) q Cons.prems(4) by fastforce
  qed
  then have "operator_run R view (s\<lparr>os_main := st2\<rparr>) (s\<lparr>os_main := st2, os_main := st'\<rparr>)"
    using Cons.IH [of "s\<lparr>os_main := st2\<rparr>"] step(1) rest Cons.prems(3) by simp
  then show ?case using operator_run_trans [OF operator_run_step [OF first]] by simp
qed

text \<open>So what holds of every run holds of whole cycles, in any order of their goroutines.\<close>

lemma cycle_is_run:
  assumes R: "r_Client R = K" and sched: "\<And>ps. mset (map fst (sched ps)) = mset ps"
    and run: "reconcileAll R fetched sched dur fin (os_main s) = Inr st'"
  shows "operator_run R view s (s\<lparr>os_main := st'\<rparr>)"
proof (cases rule: reconcileAll_cases [of R fetched sched dur fin "os_main s"])
  case (idle listed)
  then show ?thesis using run operator_step.cycle_idle [of R view s listed fin] by (auto intro: operator_run_step)
next
  case (runs pvcs mc)
  let ?jobs = "sched (managed_pvcs R (st_server (os_main s)) pvcs)"
  let ?s1 = "s\<lparr>os_main := cycle_start R pvcs (os_main s)\<rparr>"
  have list: "kube_list_pvcs K (st_server (os_main s)) = Inr pvcs" using runs(1) R by simp
  obtain st2 where each: "reconcile_each R mc ?jobs (cycle_start R pvcs (os_main s)) = Inr st2"
    and st': "st' = record_metrics (finish_trace dur fin) st2"
    using run runs(3) by (auto simp: try_in_Inr)
  note keys = schedule_keys [OF list sched]
  have "\<forall>(p, _) \<in> set ?jobs. view (st_server (os_main s)) (pvc_key p) = Some p"
    using keys(2) list_view [OF list] by fastforce
  then have "operator_run R view ?s1 (?s1\<lparr>os_main := st2\<rparr>)"
    using each keys(1) by (intro each_is_run [OF R]) (simp_all add: scc.coherent_clear)
  moreover have "operator_step R view s ?s1" using runs(1) by (rule operator_step.cycle_begins)
  moreover have "operator_step R view (s\<lparr>os_main := st2\<rparr>) (s\<lparr>os_main := st'\<rparr>)"
    using operator_step.cycle_ends [of R view "s\<lparr>os_main := st2\<rparr>" dur fin] by (simp add: st')
  ultimately show ?thesis
    using operator_run_trans [OF operator_run_step] operator_run.next_step by fastforce
qed

end

section \<open>What the operator can do to a claim\<close>

text \<open>The two claims differ in the storage request and in the time of the last expansion at most.\<close>

definition resized :: "'q pvc \<Rightarrow> 'q pvc \<Rightarrow> bool" where
  "resized p p' \<longleftrightarrow>
     p'\<lparr>pvc_requests := pvc_requests p, pvc_annotations := pvc_annotations p\<rparr> = p \<and>
     (\<forall>k. k \<noteq> ResourceStorage \<longrightarrow> map_get (pvc_requests p') k = map_get (pvc_requests p) k) \<and>
     (\<forall>a. a \<noteq> AnnotationLastExpansion \<longrightarrow> map_get (pvc_annotations p') a = map_get (pvc_annotations p) a)"

lemma resized_refl: "resized p p"
  by (simp add: resized_def)

lemma resized_trans:
  assumes "resized p p'" and "resized p' p''"
  shows "resized p p''"
proof -
  have "p''\<lparr>pvc_requests := pvc_requests p, pvc_annotations := pvc_annotations p\<rparr> =
      (p''\<lparr>pvc_requests := pvc_requests p', pvc_annotations := pvc_annotations p'\<rparr>)
        \<lparr>pvc_requests := pvc_requests p, pvc_annotations := pvc_annotations p\<rparr>" by simp
  also have "\<dots> = p" using assms by (simp add: resized_def)
  finally show ?thesis using assms by (simp add: resized_def)
qed

lemma resized_expansion: "resized p (expansion_object R now p n)"
  by (cases "pvc_requests p"; cases "pvc_annotations p") (simp_all add: resized_def expansion_object_def)

lemma resized_coordinated: "resized p (coordinated Q target p)"
  by (cases "pvc_requests p") (simp_all add: resized_def coordinated_def)

text \<open>A size some configuration of the claim gives and its maximum allows.\<close>

definition computed_size :: "('q, 'sel, 's) Reconciler \<Rightarrow> 'q pvc \<Rightarrow> 'q \<Rightarrow> bool" where
  "computed_size R p n \<longleftrightarrow> (\<exists>config s.
     ResolvePVCConfig (r_Q R) (r_Client R) p (r_GlobalConfig R) s = Inr config \<and>
     CalculateNewSize (r_oob R) (r_Q R) (Some config) (pvc_capacity_storage (r_Q R) p) = Inr n \<and>
     \<not> ExceedsMaxSize (r_Q R) (Some config) n)"

text \<open>Where a request can come from: it was there, or it was computed for one of the claims.\<close>

definition has_origin ::
  "('q, 'sel, 's) Reconciler \<Rightarrow> (namespaced_name \<rightharpoonup> 'q pvc) \<Rightarrow> 'q \<Rightarrow> bool" where
  "has_origin R stored n \<longleftrightarrow> n = qty_zero (r_Q R) \<or>
     (\<exists>q \<in> ran stored. n = pvc_request_storage (r_Q R) q \<or> (\<exists>q'. resized q q' \<and> computed_size R q' n))"

definition only_resized ::
  "('q, 'sel, 's) Reconciler \<Rightarrow> (namespaced_name \<rightharpoonup> 'q pvc) \<Rightarrow> (namespaced_name \<rightharpoonup> 'q pvc) \<Rightarrow> bool" where
  "only_resized R stored stored' \<longleftrightarrow> (\<forall>k. rel_option (\<lambda>p p'. resized p p' \<and>
     has_origin R stored (pvc_request_storage (r_Q R) p')) (stored k) (stored' k))"

lemma only_resized_refl: "only_resized R stored stored"
  unfolding only_resized_def
proof
  fix k
  show "rel_option (\<lambda>p p'. resized p p' \<and> has_origin R stored (pvc_request_storage (r_Q R) p')) (stored k) (stored k)"
  proof (cases "stored k")
    case (Some p)
    then have "has_origin R stored (pvc_request_storage (r_Q R) p)"
      unfolding has_origin_def using ranI [of stored k p] by blast
    with Some show ?thesis by (simp add: resized_refl)
  qed simp
qed

text \<open>One more change of that kind.\<close>

lemma only_resized_step:
  assumes inv: "only_resized R stored s" and "\<And>k. s' k = s k \<or> (\<exists>p p'. s k = Some p \<and> s' k = Some p' \<and>
      resized p p' \<and> has_origin R stored (pvc_request_storage (r_Q R) p'))"
  shows "only_resized R stored s'"
  unfolding only_resized_def
proof
  fix k
  have "rel_option (\<lambda>p p'. resized p p' \<and> has_origin R stored (pvc_request_storage (r_Q R) p')) (stored k) (s k)"
    using inv by (simp add: only_resized_def)
  then show "rel_option (\<lambda>p p'. resized p p' \<and> has_origin R stored (pvc_request_storage (r_Q R) p')) (stored k) (s' k)"
    using assms(2) [of k] resized_trans by (cases "stored k") (auto simp: option_rel_Some1)
qed

lemma only_resized_stored:
  assumes "only_resized R stored s" and "s k = Some p"
  obtains q where "q \<in> ran stored" and "resized q p" and "has_origin R stored (pvc_request_storage (r_Q R) p)"
proof -
  have "rel_option (\<lambda>p p'. resized p p' \<and> has_origin R stored (pvc_request_storage (r_Q R) p')) (stored k) (s k)"
    using assms(1) by (simp add: only_resized_def)
  then obtain q where "stored k = Some q" and "resized q p" and "has_origin R stored (pvc_request_storage (r_Q R) p)"
    unfolding assms(2) option_rel_Some2 by blast
  then show thesis using that [of q] ranI [of stored k q] by simp
qed

section \<open>Every run\<close>

lemma target_is_computed:
  "expansion_target R now p mc e s = Some n \<Longrightarrow> computed_size R p n"
  by (auto simp: expansion_target_def target_size_def computed_size_def split: sum.splits if_splits)

context group_env
begin

text \<open>What any reconciliation of a group does to the claims, an error included.\<close>

lemma group_effect:
  assumes "PVCGroup_Reconcile Q K req now st = Inr (d, r, st')"
  shows "view (gs_server st') k = view (gs_server st) k \<or>
    (\<exists>p T. view (gs_server st) k = Some p \<and> view (gs_server st') k = Some (coordinated Q T p) \<and>
      (T = qty_zero Q \<or> (\<exists>q \<in> ran (view (gs_server st)). T = pvc_request_storage Q q)))"
proof (cases "\<exists>g items. kube_get_group K req (gs_server st) = Inr g \<and>
    kube_list_pvcs_in K (grp_namespace g) (gs_server st) = Inr items")
  case False
  then have "gs_server st' = gs_server st"
    using assms by (auto simp: PVCGroup_Reconcile_def split: sum.splits if_splits)
  then show ?thesis by simp
next
  case True
  then obtain g items where get: "kube_get_group K req (gs_server st) = Inr g"
    and list: "kube_list_pvcs_in K (grp_namespace g) (gs_server st) = Inr items" by blast
  define active where "active = filter (in_group g) items"
  define T where "T = calculateLargestSize Q active"
  obtain g' e st1 where c: "coordinatePVCSizes Q K T g' active st = Inr (e, st1)"
    and v: "view (gs_server st') = view (gs_server st1)"
    using reconcile_claims [OF get list assms] unfolding active_def T_def by blast
  have stored: "\<forall>p \<in> set active. view (gs_server st) (pvc_key p) = Some p"
    using list_in_view [OF list] by (simp add: active_def)
  moreover have "distinct (map pvc_key active)"
    using list_in_distinct [OF list] by (simp add: active_def distinct_map_filter)
  ultimately obtain dn rest where dn: "active = dn @ rest"
    and on: "\<forall>p \<in> set dn. view (gs_server st1) (pvc_key p) = Some (coordinated Q T p)"
    and off: "\<forall>k. k \<notin> pvc_key ` set dn \<longrightarrow> view (gs_server st1) k = view (gs_server st) k"
    using coordinate_effect [OF c] by blast
  have T: "T = qty_zero Q \<or> (\<exists>p \<in> set active. T = pvc_request_storage Q p)"
    unfolding T_def calculateLargestSize_def by (rule largest_foldl(3))
  show ?thesis
  proof (cases "k \<in> pvc_key ` set dn")
    case False
    then show ?thesis using off v by simp
  next
    case True
    then obtain p where p: "p \<in> set dn" "k = pvc_key p" by auto
    have "T = qty_zero Q \<or> (\<exists>q \<in> ran (view (gs_server st)). T = pvc_request_storage Q q)"
      using T stored ranI by fast
    then show ?thesis using on p stored dn v by auto
  qed
qed

end

lemma as_group_server [simp]: "gs_server (as_group_state s) = st_server (os_main s)"
  by (simp add: as_group_state_def)

lemma with_server_simps [simp]: "st_server (os_main (with_server s srv)) = srv"
  by (simp add: with_server_def)

lemma operator_step_resizes:
  assumes K: "kube_store (r_Client R) view" and Q: "quantity_api (r_Q R) amount"
    and "operator_step R view s s'" and inv: "only_resized R stored (view (st_server (os_main s)))"
  shows "only_resized R stored (view (st_server (os_main s')))"
  using assms(3)
proof (cases rule: operator_step.cases)
  case (claim p now1 now2 mc st')
  obtain e st1 where e: "IsStorageClassExpandable R p (os_main s) = (e, st1)"
    by (cases "IsStorageClassExpandable R p (os_main s)")
  have store: "pvc_store (r_Client R) view" using K by (simp add: kube_store_def)
  show ?thesis
  proof (cases "expansion_target R now1 p mc e (st_server (os_main s))")
    case None
    then show ?thesis using reconcile_server [OF e claim(3)] inv claim(1) by simp
  next
    case (Some n)
    obtain q where "q \<in> ran stored" "resized q p" using only_resized_stored [OF inv claim(2)] .
    then have origin: "has_origin R stored n"
      using target_is_computed [OF Some] unfolding has_origin_def by blast
    obtain r where up: "kube_update_pvc (r_Client R) (expansion_object R now2 p n) (st_server (os_main s)) =
        (r, st_server st')"
      using reconcile_server [OF e claim(3)] Some by (simp add: prod_eq_iff)
    have "only_resized R stored (view (st_server st'))"
    proof (rule only_resized_step [OF inv])
      fix k
      show "view (st_server st') k = view (st_server (os_main s)) k \<or>
        (\<exists>p p'. view (st_server (os_main s)) k = Some p \<and> view (st_server st') k = Some p' \<and> resized p p' \<and>
          has_origin R stored (pvc_request_storage (r_Q R) p'))"
        using pvc_store.update_other [OF store up, of k] pvc_store.update_dom [OF store up, of k]
          claim(2) origin resized_expansion [of p R now2 n] by (cases "k = pvc_key p") auto
    qed
    then show ?thesis by (simp add: claim(1))
  qed
next
  case (group req now d r gst)
  have env: "group_env (r_Q R) amount (r_Client R) view"
    using Q K by (auto simp: group_env_def kube_store_def)
  have origin: "has_origin R stored (pvc_request_storage (r_Q R) (coordinated (r_Q R) T p))"
    if "view (st_server (os_main s)) k = Some p"
      and "T = qty_zero (r_Q R) \<or> (\<exists>q \<in> ran (view (st_server (os_main s))). T = pvc_request_storage (r_Q R) q)" for k p T
  proof -
    have "has_origin R stored (pvc_request_storage (r_Q R) q)" if "q \<in> ran (view (st_server (os_main s)))" for q
      using that only_resized_stored [OF inv] by (auto simp: ran_def)
    then show ?thesis using that ranI [of "view (st_server (os_main s))" k p] by (auto simp: coordinated_request has_origin_def)
  qed
  show ?thesis
    unfolding group(1)
  proof (simp, rule only_resized_step [OF inv])
    fix k
    from group_env.group_effect [OF env group(2), of k]
    consider "view (gs_server gst) k = view (st_server (os_main s)) k"
      | p T where "view (st_server (os_main s)) k = Some p" "view (gs_server gst) k = Some (coordinated (r_Q R) T p)"
        "T = qty_zero (r_Q R) \<or> (\<exists>q \<in> ran (view (st_server (os_main s))). T = pvc_request_storage (r_Q R) q)"
      unfolding as_group_server by blast
    then show "view (gs_server gst) k = view (st_server (os_main s)) k \<or>
      (\<exists>p p'. view (st_server (os_main s)) k = Some p \<and> view (gs_server gst) k = Some p' \<and> resized p p' \<and>
        has_origin R stored (pvc_request_storage (r_Q R) p'))"
    proof cases
      case (2 p T)
      with origin [OF 2(1,3)] resized_coordinated [of p "r_Q R" T] show ?thesis by simp
    qed simp
  qed
next
  case (policy req now d err srv)
  have "pvc_store (r_Client R) view" using K by (simp add: kube_store_def)
  from pvc_store.policy_reconcile_claims [OF this policy(2)] policy(1) inv show ?thesis by simp
qed (use inv in simp_all)

lemma operator_run_resizes:
  assumes "kube_store (r_Client R) view" and "quantity_api (r_Q R) amount" and "operator_run R view s s'"
  shows "only_resized R (view (st_server (os_main s))) (view (st_server (os_main s')))"
  using assms(3) by (induction rule: operator_run.induct)
    (auto intro: only_resized_refl operator_step_resizes [OF assms(1,2)])

end
