(* ===== verification/ExpansionProperties.thy ===== *)
theory ExpansionProperties
  imports GroupProperties Operator
begin

text \<open>
  The properties of an expansion from the cycle that finds it needed to the members of the group
  (internal/controller/persistentvolumeclaim_controller.go and pvcgroup_controller.go together).
\<close>

section \<open>A sample chain\<close>

definition at_zero :: "int pvc list \<Rightarrow> (int pvc \<times> time \<times> time) list" where
  "at_zero = map (\<lambda>p. (p, 0, 0))"

lemma at_zero_mset: "mset (map fst (at_zero ps)) = mset ps"
  by (simp add: at_zero_def comp_def)

abbreviation (input) sample_obj :: "int pvc" where
  "sample_obj \<equiv> expansion_object sample_reconciler 0 sample_pvc (gi 11)"

lemma sample_client: "r_Client sample_reconciler = ref_kube" "r_Q sample_reconciler = ref_quantity"
  "st_server sample_state = sample_server"
  by (simp_all add: sample_reconciler_def sample_state_def)

lemma sample_job:
  "(sample_pvc, 0, 0) \<in> set (at_zero (managed_pvcs sample_reconciler (st_server sample_state) [sample_pvc, small_pvc]))"
  by (simp add: sample_client sample_managed at_zero_def)

section \<open>Progress\<close>

text \<open>C5. Progress: a cycle over claims with a requests map completes, and settles every listed claim
  that has a target. Either its expansion object is stored at the end of the cycle and an expansion
  event was emitted, or the server refused that object, the claim is as it was and a failure event
  carries the server's error. No other goroutine takes the expansion back.\<close>

theorem needed_expansion_happens:
  assumes "kube_store (r_Client R) view" and "\<And>ps. mset (map fst (sched ps)) = mset ps"
    and "kube_list_pvcs (r_Client R) (st_server st) = Inr pvcs" and "\<forall>p \<in> set pvcs. pvc_requests p \<noteq> None"
    and "(p, now1, now2) \<in> set (sched (managed_pvcs R (st_server st) pvcs))"
    and "cycle_target R now1 p mc (st_server st) = Some n"
  shows "\<exists>st'. reconcileAll R (Inr mc) sched dur fin st = Inr st' \<and> (\<exists>s.
    (case fst (kube_update_pvc (r_Client R) (expansion_object R now2 p n) s) of
       None \<Rightarrow> view (st_server st') (pvc_key p) = Some (expansion_object R now2 p n) \<and>
         (\<exists>config vm fsType. expansion_event (r_Q R) p config vm fsType \<in> set (st_events st'))
     | Some err \<Rightarrow> view (st_server st') (pvc_key p) = Some p \<and>
         failure_event p (UpdateFailed err) \<in> set (st_events st')))"
proof -
  obtain st' where run: "reconcileAll R (Inr mc) sched dur fin st = Inr st'"
    and "settled R view p now2 n st'"
    using kube_store.cycle_settles [OF assms(1) refl assms(2-6)] by blast
  then obtain s r where "fst (kube_update_pvc (r_Client R) (expansion_object R now2 p n) s) = r"
    and "reported R p r (st_events st')"
    and "view (st_server st') (pvc_key p) = Some (if r = None then expansion_object R now2 p n else p)"
    unfolding settled_def by blast
  with run show ?thesis
    by (intro exI [of _ st'] conjI exI [of _ s]) (auto simp: reported_def split: option.split)
qed

theorem needed_expansion_happens_witness:
  "\<exists>st'. reconcileAll sample_reconciler (Inr sample_cache) at_zero (FFin 1) (FFin 2) sample_state = Inr st' \<and>
    ref_view (st_server st') (pvc_key sample_pvc) \<in> {Some sample_obj, Some sample_pvc}"
proof -
  have "kube_store (r_Client sample_reconciler) ref_view"
    using ref_api.kube_store_axioms by (simp add: sample_client)
  moreover have "kube_list_pvcs (r_Client sample_reconciler) (st_server sample_state) = Inr [sample_pvc, small_pvc]"
    by (simp add: sample_client sample_listed)
  moreover have "cycle_target sample_reconciler 0 sample_pvc sample_cache (st_server sample_state) = Some (gi 11)"
    by (simp add: sample_client sample_target)
  ultimately show ?thesis
    using needed_expansion_happens [OF _ at_zero_mset _ _ sample_job, of ref_view sample_cache "gi 11" "FFin 1" "FFin 2"]
      sample_requests by (force split: option.splits)
qed

section \<open>From a claim to its group\<close>






section \<open>The controllers together\<close>

text \<open>C6. All the operator can do to the claims: over any sequence of reconciliations of claims, groups
  and policies, in any order, no claim appears or disappears, and each differs from what it was in
  its storage request and its expansion timestamp at most. Every request is zero, or one some claim
  had, or the size the settings of some claim give for its capacity and their maximum allows. Whole
  cycles are such sequences, whatever the order of their goroutines.\<close>

theorem operator_only_resizes:
  assumes "kube_store (r_Client R) view" and "quantity_api (r_Q R) amount" and "operator_run R view s s'"
  shows "(view (st_server (os_main s)) k = None \<and> view (st_server (os_main s')) k = None \<or>
     (\<exists>p p'. view (st_server (os_main s)) k = Some p \<and> view (st_server (os_main s')) k = Some p' \<and> resized p p' \<and>
       has_origin R (view (st_server (os_main s))) (pvc_request_storage (r_Q R) p'))) \<and>
   (\<forall>fetched sched dur fin st'. (\<forall>ps. mset (map fst (sched ps)) = mset ps) \<longrightarrow>
     reconcileAll R fetched sched dur fin (os_main s') = Inr st' \<longrightarrow> operator_run R view s (s'\<lparr>os_main := st'\<rparr>))"
proof (intro conjI allI impI)
  have "rel_option (\<lambda>p p'. resized p p' \<and> has_origin R (view (st_server (os_main s))) (pvc_request_storage (r_Q R) p'))
      (view (st_server (os_main s)) k) (view (st_server (os_main s')) k)"
    using operator_run_resizes [OF assms] by (simp add: only_resized_def)
  then show "view (st_server (os_main s)) k = None \<and> view (st_server (os_main s')) k = None \<or>
     (\<exists>p p'. view (st_server (os_main s)) k = Some p \<and> view (st_server (os_main s')) k = Some p' \<and> resized p p' \<and>
       has_origin R (view (st_server (os_main s))) (pvc_request_storage (r_Q R) p'))"
    by (cases "view (st_server (os_main s)) k") (auto simp: option_rel_Some1)
  fix fetched sched dur fin st'
  assume "\<forall>ps. mset (map fst (sched ps)) = mset ps" and "reconcileAll R fetched sched dur fin (os_main s') = Inr st'"
  then show "operator_run R view s (s'\<lparr>os_main := st'\<rparr>)"
    using kube_store.cycle_is_run [OF assms(1) refl] operator_run_trans [OF assms(3)] by blast
qed

text \<open>In the sample cluster one reconciliation of its first claim.\<close>

definition sample_operator :: "(int, ref_server) operator_state" where
  "sample_operator = \<lparr>os_main = sample_state, os_group_events = []\<rparr>"

theorem operator_only_resizes_witness:
  "\<exists>s' p'. operator_run sample_reconciler ref_view sample_operator s' \<and>
    ref_view (st_server (os_main s')) (pvc_key sample_pvc) = Some p' \<and> resized sample_pvc p' \<and> p' \<noteq> sample_pvc"
proof -
  obtain st' where run: "reconcilePVC sample_reconciler 0 0 sample_pvc sample_cache sample_state = Inr st'"
    and obj: "ref_view (st_server st') (pvc_key sample_pvc) = Some sample_obj"
    by (rule sample_run [of 0 0]) blast
  let ?s' = "sample_operator\<lparr>os_main := st'\<rparr>"
  have "operator_step sample_reconciler ref_view sample_operator ?s'"
    using run by (intro operator_step.claim) (simp_all add: sample_operator_def sample_client)
  then have steps: "operator_run sample_reconciler ref_view sample_operator ?s'"
    by (rule operator_run_step)
  have K: "kube_store (r_Client sample_reconciler) ref_view" "quantity_api (r_Q sample_reconciler) ref_amount"
    using ref_api.kube_store_axioms ref_qty.quantity_api_axioms by (simp_all add: sample_client)
  from operator_only_resizes [OF K steps, of "pvc_key sample_pvc"] obj
  have "resized sample_pvc sample_obj" by (simp add: sample_operator_def sample_client)
  then show ?thesis using steps obj sample_grows [of 0]
    by (intro exI [of _ ?s'] exI [of _ sample_obj]) simp
qed

section \<open>An expansion of a claim whose coordination is pending\<close>








end
