(* ===== verification/KubeletFacts.thy ===== *)
theory KubeletFacts
  imports Kubelet
begin

text \<open>
  What the metrics cache guarantees: usage percentages are percentages, keys do not clash, the
  entry of a claim holds what its node reported last, and the goroutines that scrape the nodes
  leave the same cache in whatever order their writes interleave.
\<close>

section \<open>Percentages\<close>

lemma f_of_int_finite:
  assumes "in_int64 i"
  shows "f_of_int i = FFin (fround (of_int i))"
proof -
  have "\<bar>rat_of_int i\<bar> = of_int \<bar>i\<bar>" by simp
  also have "\<dots> \<le> of_int 9223372036854775808"
    using assms by (simp only: of_int_le_iff in_int64_def min_int64_def max_int64_def) arith
  also have "\<dots> = pow2 63" by (simp add: pow2_def)
  also have "\<dots> \<le> pow2 1023" by (rule pow2_mono) simp
  finally show ?thesis by (simp add: f_of_int_def to_f64_finite)
qed

text \<open>The ratio \<open>float64(a) / float64(b) * 100\<close> of the source.\<close>

definition percent_of :: "int \<Rightarrow> int \<Rightarrow> float64" where
  "percent_of a b = f_mul (f_div (f_of_int a) (f_of_int b)) (FFin 100)"

lemma fround_pos: "0 < b \<Longrightarrow> 0 < fround (of_int b)"
  using fround_mono [of 1 "of_int b"] fround_of_int [of 1] by (simp add: int_one_le_iff_zero_less)

lemma pow2_1023_ge: "x \<le> 100 \<Longrightarrow> x \<le> pow2 1023"
  using pow2_mono [of 7 1023] by (simp add: pow2_def)

lemma percent_of_value:
  assumes "0 \<le> a" and "a \<le> b" and "0 < b" and "b \<le> max_int64"
  shows "percent_of a b = FFin (fround (fround (fround (of_int a) / fround (of_int b)) * 100))"
    and "0 \<le> fround (fround (of_int a) / fround (of_int b))"
    and "fround (fround (of_int a) / fround (of_int b)) \<le> 1"
proof -
  let ?r = "fround (of_int a) / fround (of_int b)"
  have fa: "0 \<le> fround (of_int a)" and fb: "0 < fround (of_int b)"
    using assms fround_nonneg [of "of_int a"] fround_pos by simp_all
  have r: "0 \<le> ?r" "?r \<le> 1"
    using fround_mono [of "of_int a" "of_int b"] assms fa fb by simp_all
  have one: "fround 1 = 1" using fround_of_int [of 1] by simp
  show u: "0 \<le> fround ?r" "fround ?r \<le> 1"
    using fround_nonneg [OF r(1)] fround_mono [OF r(2)] by (simp_all add: one)
  have "in_int64 a" and "in_int64 b"
    using assms by (auto simp: in_int64_def min_int64_def)
  moreover have "to_f64 ?r = FFin (fround ?r)"
    using r by (intro to_f64_finite) (simp add: pow2_1023_ge abs_of_nonneg)
  moreover have "to_f64 (fround ?r * 100) = FFin (fround (fround ?r * 100))"
    using u by (intro to_f64_finite) (simp add: pow2_1023_ge abs_of_nonneg)
  ultimately show "percent_of a b = FFin (fround (fround ?r * 100))"
    using fb by (simp add: percent_of_def f_of_int_finite)
qed

lemma fround_100: "fround 100 = 100"
  using fround_of_int [of 100] by simp

lemma percent_of_bounds:
  assumes "0 \<le> a" and "a \<le> b" and "0 < b" and "b \<le> max_int64"
  shows "\<exists>u. percent_of a b = FFin u \<and> 0 \<le> u \<and> u \<le> 100"
proof -
  let ?u = "fround (fround (of_int a) / fround (of_int b))"
  have "0 \<le> ?u * 100" "?u * 100 \<le> 100" using percent_of_value(2,3) [OF assms] by simp_all
  then have "0 \<le> fround (?u * 100)" "fround (?u * 100) \<le> 100"
    using fround_nonneg [of "?u * 100"] fround_mono [of "?u * 100" 100] by (simp_all add: fround_100)
  with percent_of_value(1) [OF assms] show ?thesis by blast
qed

lemma percent_of_mono:
  assumes "0 \<le> a" and "a \<le> a'" and "a' \<le> b" and "0 < b" and "b \<le> max_int64"
  shows "f_le (percent_of a b) (percent_of a' b)"
proof -
  have fb: "0 < fround (of_int b)" using assms(4) by (rule fround_pos)
  have "fround (of_int a) / fround (of_int b) \<le> fround (of_int a') / fround (of_int b)"
    using fround_mono [of "of_int a" "of_int a'"] assms(2) fb by (simp add: divide_right_mono)
  then have "fround (fround (fround (of_int a) / fround (of_int b)) * 100)
      \<le> fround (fround (fround (of_int a') / fround (of_int b)) * 100)"
    by (intro fround_mono mult_right_mono) simp_all
  then show ?thesis
    using percent_of_value(1) [of a b] percent_of_value(1) [of a' b] assms
    by (auto simp: f_le_def f_eq_def)
qed

lemma percent_of_full:
  assumes "0 < b" and "b \<le> max_int64"
  shows "percent_of b b = FFin 100"
proof -
  have "fround (of_int b) / fround (of_int b) = 1" using fround_pos [OF assms(1)] by simp
  then show ?thesis
    using percent_of_value(1) [of b b] assms fround_of_int [of 1] by (simp add: fround_100)
qed

lemma usage_of_fields:
  "0 < vm_CapacityBytes vm \<Longrightarrow>
    vm_UsedBytes (usage_of vm) = wrap64 (vm_CapacityBytes vm - vm_AvailableBytes vm) \<and>
    vm_UsagePercent (usage_of vm) =
      percent_of (wrap64 (vm_CapacityBytes vm - vm_AvailableBytes vm)) (vm_CapacityBytes vm)"
  "0 < vm_InodesTotal vm \<Longrightarrow>
    vm_InodesFree (usage_of vm) = wrap64 (vm_InodesTotal vm - vm_InodesUsed vm) \<and>
    vm_InodesUsagePercent (usage_of vm) = percent_of (vm_InodesUsed vm) (vm_InodesTotal vm)"
  "vm_CapacityBytes (usage_of vm) = vm_CapacityBytes vm"
  "vm_AvailableBytes (usage_of vm) = vm_AvailableBytes vm"
  "vm_InodesTotal (usage_of vm) = vm_InodesTotal vm"
  "vm_InodesUsed (usage_of vm) = vm_InodesUsed vm"
  by (simp_all add: usage_of_def percent_of_def Let_def)

section \<open>Keys\<close>

lemma append_separator_inject:
  "c \<notin> set a \<Longrightarrow> c \<notin> set b \<Longrightarrow> a @ c # x = b @ c # y \<longleftrightarrow> a = b \<and> x = y"
  by (induction a arbitrary: b) (case_tac b; auto)+

lemma key_inject:
  "CHR ''/'' \<notin> set (nn_namespace a) \<Longrightarrow> CHR ''/'' \<notin> set (nn_namespace b) \<Longrightarrow>
    keyFromNamespacedName a = keyFromNamespacedName b \<longleftrightarrow> a = b"
  by (cases a; cases b) (auto simp: keyFromNamespacedName_def append_separator_inject)

section \<open>Writes\<close>

definition write_key :: "cache_write \<Rightarrow> string" where
  "write_key w = keyFromNamespacedName (fst (snd w))"

definition set_field :: "field \<Rightarrow> int \<Rightarrow> VolumeMetrics \<Rightarrow> VolumeMetrics" where
  "set_field f v vm = (case f of
       Capacity \<Rightarrow> vm\<lparr>vm_CapacityBytes := v\<rparr>
     | Available \<Rightarrow> vm\<lparr>vm_AvailableBytes := v\<rparr>
     | InodesTotal \<Rightarrow> vm\<lparr>vm_InodesTotal := v\<rparr>
     | InodesUsed \<Rightarrow> vm\<lparr>vm_InodesUsed := v\<rparr>)"

definition get_field :: "field \<Rightarrow> VolumeMetrics \<Rightarrow> int" where
  "get_field f vm = (case f of
       Capacity \<Rightarrow> vm_CapacityBytes vm
     | Available \<Rightarrow> vm_AvailableBytes vm
     | InodesTotal \<Rightarrow> vm_InodesTotal vm
     | InodesUsed \<Rightarrow> vm_InodesUsed vm)"

text \<open>The four setters are one operation on one entry.\<close>

lemma apply_write_eq:
  "apply_write w c = c(write_key w \<mapsto> set_field (fst w) (snd (snd w)) (entry_of c (write_key w)))"
  by (cases w rule: prod_cases3; rename_tac f nn v; case_tac f)
    (simp_all add: write_key_def set_field_def setCapacity_def setAvailable_def
      setInodesTotal_def setInodesUsed_def Let_def)

lemma get_set_field: "get_field f (set_field f' v vm) = (if f = f' then v else get_field f vm)"
  by (cases f; cases f') (simp_all add: get_field_def set_field_def)

lemma entry_of_apply_write:
  "entry_of (apply_write w c) k =
    (if k = write_key w then set_field (fst w) (snd (snd w)) (entry_of c k) else entry_of c k)"
  by (simp add: apply_write_eq entry_of_def)

text \<open>The entry of a key after a sequence of writes: the last value written to each field.\<close>

definition last_written :: "field \<Rightarrow> string \<Rightarrow> cache_write list \<Rightarrow> int option" where
  "last_written f k ws =
     (case rev (filter (\<lambda>w. fst w = f \<and> write_key w = k) ws) of [] \<Rightarrow> None | w # _ \<Rightarrow> Some (snd (snd w)))"

lemma last_written_snoc:
  "last_written f k (ws @ [w]) =
    (if fst w = f \<and> write_key w = k then Some (snd (snd w)) else last_written f k ws)"
  by (simp add: last_written_def)

lemma fold_writes_field:
  "get_field f (entry_of (fold apply_write ws c) k) =
    (case last_written f k ws of None \<Rightarrow> get_field f (entry_of c k) | Some v \<Rightarrow> v)"
proof (induction ws rule: rev_induct)
  case Nil
  then show ?case by (simp add: last_written_def)
next
  case (snoc w ws)
  then show ?case by (auto simp: last_written_snoc entry_of_apply_write get_set_field)
qed

lemma fold_writes_present:
  "fold apply_write ws c k \<noteq> None \<longleftrightarrow> c k \<noteq> None \<or> (\<exists>w \<in> set ws. write_key w = k)"
  by (induction ws arbitrary: c) (auto simp: apply_write_eq)

text \<open>The setters write four fields and leave the computed ones; these with the four are the entry.\<close>

definition computed_fields :: "VolumeMetrics \<Rightarrow> int \<times> float64 \<times> int \<times> float64" where
  "computed_fields vm =
     (vm_UsedBytes vm, vm_UsagePercent vm, vm_InodesFree vm, vm_InodesUsagePercent vm)"

lemma computed_set_field: "computed_fields (set_field f v vm) = computed_fields vm"
  by (cases f) (simp_all add: computed_fields_def set_field_def)

lemma fold_writes_computed:
  "computed_fields (entry_of (fold apply_write ws c) k) = computed_fields (entry_of c k)"
  by (induction ws arbitrary: c) (simp_all add: entry_of_apply_write computed_set_field)

lemma volume_metrics_eqI:
  assumes "\<And>f. get_field f a = get_field f b" and "computed_fields a = computed_fields b"
  shows "a = b"
proof (rule VolumeMetrics.equality)
  show "vm_CapacityBytes a = vm_CapacityBytes b" using assms(1) [of Capacity] by (simp add: get_field_def)
  show "vm_AvailableBytes a = vm_AvailableBytes b" using assms(1) [of Available] by (simp add: get_field_def)
  show "vm_InodesTotal a = vm_InodesTotal b" using assms(1) [of InodesTotal] by (simp add: get_field_def)
  show "vm_InodesUsed a = vm_InodesUsed b" using assms(1) [of InodesUsed] by (simp add: get_field_def)
qed (use assms(2) in \<open>simp_all add: computed_fields_def\<close>)

lemma entries_eqI:
  assumes "(c k \<noteq> None) = (c' k \<noteq> None)" and "entry_of c k = entry_of c' k"
  shows "c k = c' k"
  using assms by (auto simp: entry_of_def split: option.splits)

text \<open>Two sequences over the same claims that end in the same values leave the same cache.\<close>

lemma fold_writes_eqI:
  assumes "write_key ` set ws = write_key ` set vs"
    and "\<And>f k. last_written f k ws = last_written f k vs"
  shows "fold apply_write ws c = fold apply_write vs c"
proof
  fix k
  have "(\<exists>w \<in> set xs. write_key w = k) \<longleftrightarrow> k \<in> write_key ` set xs" for xs by auto
  then have "(\<exists>w \<in> set ws. write_key w = k) \<longleftrightarrow> (\<exists>w \<in> set vs. write_key w = k)"
    using assms(1) by simp
  moreover have "entry_of (fold apply_write ws c) k = entry_of (fold apply_write vs c) k"
  proof (rule volume_metrics_eqI)
    show "get_field f (entry_of (fold apply_write ws c) k) = get_field f (entry_of (fold apply_write vs c) k)" for f
      unfolding fold_writes_field assms(2) ..
    show "computed_fields (entry_of (fold apply_write ws c) k) = computed_fields (entry_of (fold apply_write vs c) k)"
      unfolding fold_writes_computed ..
  qed
  ultimately show "fold apply_write ws c k = fold apply_write vs c k"
    using entries_eqI [of "fold apply_write ws c" k "fold apply_write vs c"]
    by (simp only: fold_writes_present)
qed

section \<open>Interleaving\<close>

lemma interleavings_set: "ws \<in> interleavings xss \<Longrightarrow> set ws = \<Union> (set ` set xss)"
  by (induction xss arbitrary: ws) (auto simp: set_shuffles)

lemma concat_interleaving: "concat xss \<in> interleavings xss"
proof (induction xss)
  case (Cons xs xss)
  have "xs @ ys \<in> shuffles xs ys" for ys :: "'a list"
    by (induction xs) (auto intro: Cons_in_shuffles_leftI)
  with Cons show ?case by auto
qed simp

text \<open>
  Two of the sequences may write one field of one claim, when they write the same value to it.
\<close>

definition agree :: "cache_write list \<Rightarrow> cache_write list \<Rightarrow> bool" where
  "agree xs ys \<longleftrightarrow> (\<forall>x \<in> set xs. \<forall>y \<in> set ys.
     fst x = fst y \<longrightarrow> write_key x = write_key y \<longrightarrow> snd (snd x) = snd (snd y))"

fun agreeing :: "cache_write list list \<Rightarrow> bool" where
  "agreeing [] = True"
| "agreeing (xs # xss) = (agree xs (concat xss) \<and> agreeing xss)"

lemma last_written_append:
  "last_written f k (xs @ ys) = (case last_written f k ys of None \<Rightarrow> last_written f k xs | Some v \<Rightarrow> Some v)"
  by (induction ys rule: rev_induct) (auto simp: last_written_def)

lemma last_written_Cons:
  "last_written f k (w # ws) = (case last_written f k ws of
     None \<Rightarrow> (if fst w = f \<and> write_key w = k then Some (snd (snd w)) else None) | Some v \<Rightarrow> Some v)"
proof -
  have "last_written f k [w] = (if fst w = f \<and> write_key w = k then Some (snd (snd w)) else None)"
    by (simp add: last_written_def)
  then show ?thesis using last_written_append [of f k "[w]" ws] by (simp split: option.split)
qed

lemma last_written_None:
  "last_written f k ws = None \<longleftrightarrow> (\<forall>w \<in> set ws. fst w = f \<longrightarrow> write_key w \<noteq> k)"
  by (induction ws rule: rev_induct) (auto simp: last_written_def)

lemma last_written_Some:
  "last_written f k ws = Some v \<Longrightarrow> \<exists>w \<in> set ws. fst w = f \<and> write_key w = k \<and> snd (snd w) = v"
  by (induction ws rule: rev_induct) (auto simp: last_written_snoc last_written_def split: if_splits)

lemma shuffle_last_written_left:
  "ws \<in> shuffles xs ys \<Longrightarrow> last_written f k ys = None \<Longrightarrow> last_written f k ws = last_written f k xs"
proof (induction xs ys arbitrary: ws rule: shuffles.induct)
  case (3 x xs y ys)
  have "last_written f k ys = None" and y: "\<not> (fst y = f \<and> write_key y = k)"
    using 3(4) by (auto simp: last_written_Cons split: option.splits if_splits)
  with 3 show ?case by (auto simp: last_written_Cons split: option.split)
qed (auto simp flip: last_written_None, simp add: last_written_def)

lemma shuffle_last_written:
  assumes ws: "ws \<in> shuffles xs ys" and ag: "agree xs ys"
  shows "last_written f k ws = last_written f k (xs @ ys)"
proof (cases "last_written f k xs = None \<or> last_written f k ys = None")
  case True
  then show ?thesis
    using shuffle_last_written_left [OF ws, of f k] shuffle_last_written_left [of ws ys xs f k] ws
    by (auto simp: last_written_append shuffles_commutes split: option.split)
next
  case False
  then obtain u v where uv: "last_written f k xs = Some u" "last_written f k ys = Some v" by auto
  have set: "set ws = set xs \<union> set ys" using ws by (rule set_shuffles)
  have "last_written f k ws \<noteq> None" using False set by (auto simp: last_written_None)
  then obtain w where w: "last_written f k ws = Some w" by auto
  have "w = v"
    using last_written_Some [OF w] last_written_Some [OF uv(1)] last_written_Some [OF uv(2)] ag set
    unfolding agree_def by (metis Un_iff)
  then show ?thesis using w uv by (simp add: last_written_append)
qed

lemma interleaving_last_written:
  "ws \<in> interleavings xss \<Longrightarrow> agreeing xss \<Longrightarrow> last_written f k ws = last_written f k (concat xss)"
proof (induction xss arbitrary: ws)
  case (Cons xs xss)
  obtain ys where ys: "ys \<in> interleavings xss" and ws: "ws \<in> shuffles xs ys"
    using Cons.prems(1) by auto
  have "set ys = set (concat xss)" using interleavings_set [OF ys] by auto
  then have "agree xs ys" using Cons.prems(2) by (simp add: agree_def)
  from shuffle_last_written [OF ws this] show ?case
    using Cons.IH [OF ys] Cons.prems(2) by (simp add: last_written_append)
qed simp

lemma interleaving_confluent:
  assumes "ws \<in> interleavings xss" and "agreeing xss"
  shows "fold apply_write ws c = fold apply_write (concat xss) c"
  using interleavings_set [OF assms(1)] interleaving_last_written [OF assms]
  by (intro fold_writes_eqI) auto

text \<open>Copies of one sequence leave what the sequence leaves, when it writes each field of a claim
  once.\<close>

lemma copies_agree:
  assumes "agree xs xs"
  shows "agreeing (replicate n xs)"
proof (induction n)
  case (Suc n)
  have "set (concat (replicate n xs)) \<subseteq> set xs" by (induction n) auto
  then have "agree xs (concat (replicate n xs))" using assms unfolding agree_def by blast
  with Suc show ?case by simp
qed simp

lemma copies_once:
  assumes "ws \<in> interleavings (replicate n xs)" and "agree xs xs" and "0 < n"
  shows "fold apply_write ws c = fold apply_write xs c"
proof -
  obtain m where n: "n = Suc m" using assms(3) by (cases n) auto
  have "set (concat (replicate n xs)) = set xs" unfolding n by (induction m) auto
  moreover have "last_written f k (concat (replicate n xs)) = last_written f k xs" for f k
    unfolding n by (induction m) (auto simp: last_written_append split: option.split)
  ultimately have "fold apply_write (concat (replicate n xs)) c = fold apply_write xs c"
    by (intro fold_writes_eqI) simp_all
  then show ?thesis using interleaving_confluent [OF assms(1) copies_agree [OF assms(2)]] by simp
qed

lemma in_order_ok:
  "\<forall>n \<in> set nodes. \<exists>fams. scrape n = Inr fams \<Longrightarrow>
    fetch_nodes_in_order oob scrape nodes c =
      Inr (fold apply_write (concat (map (\<lambda>n. node_writes oob (node_ok scrape n)) nodes)) c)"
  by (induction nodes arbitrary: c) (auto simp: node_ok_def)

end
