(* ===== verification/GoRegex.thy ===== *)
theory GoRegex
  imports GoParse
begin

text \<open>
  The part of Go's package regexp the program uses: anchored expressions over byte classes,
  with greedy repetition of a class, alternatives and capturing groups. A match is what a
  backtracking matcher finds first (Perl's rule, which \<open>FindStringSubmatch\<close> follows), so
  \<open>matches\<close> lists all matches in the order of preference: the captures, and the rest of the input.
\<close>

datatype regex =
    Str string
  | Star "char \<Rightarrow> bool"
  | Plus "char \<Rightarrow> bool"
  | Alt regex regex
  | Seq regex regex
  | Group regex

text \<open>The suffixes that remain after a repetition, longest repetition first.\<close>

fun greedy :: "(char \<Rightarrow> bool) \<Rightarrow> string \<Rightarrow> string list" where
  "greedy P [] = [[]]"
| "greedy P (c # s) = (if P c then greedy P s else []) @ [c # s]"

fun matches :: "regex \<Rightarrow> string \<Rightarrow> (string list \<times> string) list" where
  "matches (Str l) s = (case strip_prefix l s of None \<Rightarrow> [] | Some r \<Rightarrow> [([], r)])"
| "matches (Star P) s = map (Pair []) (greedy P s)"
| "matches (Plus P) s = (case s of [] \<Rightarrow> [] | c # r \<Rightarrow> if P c then map (Pair []) (greedy P r) else [])"
| "matches (Alt a b) s = matches a s @ matches b s"
| "matches (Seq a b) s = concat (map (\<lambda>(cs, r). map (apfst ((@) cs)) (matches b r)) (matches a s))"
| "matches (Group a) s = map (\<lambda>(cs, r). (take (length s - length r) s # cs, r)) (matches a s)"

fun seq_of :: "regex list \<Rightarrow> regex" where
  "seq_of [] = Str []"
| "seq_of [e] = e"
| "seq_of (e # es) = Seq e (seq_of es)"

definition FindSubmatch :: "regex \<Rightarrow> string \<Rightarrow> string list option" where
  "FindSubmatch e s = (case matches e s of [] \<Rightarrow> None | (cs, r) # _ \<Rightarrow> Some cs)"

section \<open>What a match is\<close>

lemma greedy_iff: "r \<in> set (greedy P s) \<longleftrightarrow> (\<exists>p. s = p @ r \<and> list_all P p)"
proof (induction s)
  case (Cons c s)
  have "(\<exists>p. c # s = p @ r \<and> list_all P p) \<longleftrightarrow> r = c # s \<or> P c \<and> (\<exists>p. s = p @ r \<and> list_all P p)"
    by (auto simp: Cons_eq_append_conv)
  with Cons show ?case by auto
qed simp

lemma greedy_first: "\<exists>r rs. greedy P s = r # rs \<and> (r = [] \<or> \<not> P (hd r))"
proof (induction s)
  case (Cons c s)
  then show ?case by (cases "P c") auto
qed simp

lemma greedy_nonempty [simp]: "greedy P s \<noteq> []"
  using greedy_first [of P s] by auto

lemma matches_Str [simp]: "(cs, r) \<in> set (matches (Str l) s) \<longleftrightarrow> cs = [] \<and> s = l @ r"
  using strip_prefix_iff [of l s r] by (cases "strip_prefix l s") auto

lemma matches_Star [simp]: "(cs, r) \<in> set (matches (Star P) s) \<longleftrightarrow> cs = [] \<and> (\<exists>p. s = p @ r \<and> list_all P p)"
  by (auto simp: greedy_iff)

lemma matches_Plus [simp]:
  "(cs, r) \<in> set (matches (Plus P) s) \<longleftrightarrow> cs = [] \<and> (\<exists>p. p \<noteq> [] \<and> s = p @ r \<and> list_all P p)"
proof (cases s)
  case (Cons c t)
  have "(\<exists>p. p \<noteq> [] \<and> c # t = p @ r \<and> list_all P p) \<longleftrightarrow> P c \<and> (\<exists>p. t = p @ r \<and> list_all P p)"
    by (auto simp: Cons_eq_append_conv)
  then show ?thesis using Cons by (auto simp: greedy_iff)
qed simp

lemma matches_Seq [simp]: "(cs, r) \<in> set (matches (Seq a b) s) \<longleftrightarrow>
    (\<exists>c1 r1 c2. (c1, r1) \<in> set (matches a s) \<and> (c2, r) \<in> set (matches b r1) \<and> cs = c1 @ c2)"
  by force

lemma matches_suffix: "(cs, r) \<in> set (matches e s) \<Longrightarrow> \<exists>p. s = p @ r"
proof (induction e arbitrary: s cs r)
  case (Seq a b)
  then show ?case by (metis append.assoc matches_Seq)
next
  case (Alt a b)
  then show ?case by auto
next
  case (Group a)
  then show ?case by auto
qed (auto simp del: matches.simps(1-3))

lemma matches_Group [simp]: "(cs, r) \<in> set (matches (Group a) s) \<longleftrightarrow>
    (\<exists>p c. s = p @ r \<and> (c, r) \<in> set (matches a s) \<and> cs = p # c)"
  using matches_suffix [of _ r a s] by force

declare matches.simps(1-3,5,6) [simp del]

lemma FindSubmatch_match: "FindSubmatch e s = Some cs \<Longrightarrow> \<exists>r. (cs, r) \<in> set (matches e s)"
  by (auto simp: FindSubmatch_def split: list.splits)

text \<open>The first match of an expression that ends in a group of repetitions takes all of them.\<close>

lemma hd_concat_map: "concat (map f xs) \<noteq> [] \<Longrightarrow> \<exists>x \<in> set xs. f x \<noteq> [] \<and> hd (concat (map f xs)) = hd (f x)"
  by (induction xs) (auto simp: hd_append)

lemma Group_Plus_first:
  assumes "matches (Group (Plus P)) s = (cs, r) # ms"
  shows "r = [] \<or> \<not> P (hd r)"
proof (cases s)
  case Nil
  with assms show ?thesis by (simp add: matches.simps)
next
  case (Cons c t)
  then show ?thesis using assms greedy_first [of P t] by (auto simp: matches.simps split: if_splits)
qed

lemma Seq_first:
  assumes "matches (Seq a b) s = (cs, r) # ms"
  obtains c1 r1 c2 ms' where "matches b r1 = (c2, r) # ms'" and "cs = c1 @ c2"
proof -
  let ?f = "\<lambda>(cs, r). map (apfst ((@) cs)) (matches b r)"
  have "concat (map ?f (matches a s)) \<noteq> []" using assms by (simp add: matches.simps)
  from hd_concat_map [OF this] obtain c1 r1 where "matches b r1 \<noteq> []"
    and hd: "(cs, r) = hd (map (apfst ((@) c1)) (matches b r1))"
    using assms by (force simp: matches.simps)
  then obtain c2 r2 ms' where m: "matches b r1 = (c2, r2) # ms'" by (cases "matches b r1") auto
  with hd have "r2 = r" "cs = c1 @ c2" by simp_all
  with m show thesis by (intro that) simp_all
qed

text \<open>That a sequence matches is shown an expression at a time.\<close>

lemma Seq_nonempty: "(c, r) \<in> set (matches a s) \<Longrightarrow> matches b r \<noteq> [] \<Longrightarrow> matches (Seq a b) s \<noteq> []"
  by (force simp: matches.simps(5))

lemma Seq_steps:
  "matches b r \<noteq> [] \<Longrightarrow> matches (Seq (Str l) b) (l @ r) \<noteq> []"
  "list_all P p \<Longrightarrow> matches b r \<noteq> [] \<Longrightarrow> matches (Seq (Star P) b) (p @ r) \<noteq> []"
  "p \<noteq> [] \<Longrightarrow> list_all P p \<Longrightarrow> matches b r \<noteq> [] \<Longrightarrow> matches (Seq (Plus P) b) (p @ r) \<noteq> []"
  "(c, r) \<in> set (matches a (p @ r)) \<Longrightarrow> matches b r \<noteq> [] \<Longrightarrow> matches (Seq (Group a) b) (p @ r) \<noteq> []"
  by (rule Seq_nonempty [where r = r]; auto)+

end
