(* ===== verification/VolumeText.thy ===== *)
theory VolumeText
  imports KubeletFacts TimeFacts GoRegex
begin

text \<open>
  pkg/kubelet/metrics.go: the usage of one volume, read from the cache of all volumes or straight
  from the Prometheus text of a kubelet, and what a text says about a volume.
\<close>

section \<open>The library\<close>

text \<open>\<open>strconv.ParseInt(s, 10, 64)\<close>.\<close>

fun parse_uint :: "int \<Rightarrow> string \<Rightarrow> num_error + int" where
  "parse_uint n [] = Inr n"
| "parse_uint n (c # cs) =
     (if \<not> is_digit c then Inl ErrSyntax
      else if 2 ^ 64 \<le> n * 10 + digit_val c then Inl ErrRange
      else parse_uint (n * 10 + digit_val c) cs)"

definition ParseInt :: "string \<Rightarrow> num_error + int" where
  "ParseInt s =
     (case scan_sign s of (neg, ds) \<Rightarrow>
        if ds = [] then Inl ErrSyntax
        else try_in (parse_uint 0 ds) (\<lambda>n.
          if neg then (if n \<le> 2 ^ 63 then Inr (- n) else Inl ErrRange)
          else if n < 2 ^ 63 then Inr n else Inl ErrRange))"

text \<open>
  \<open>bufio.Scanner\<close> with its default split function: lines without their end of line. The scanner
  stops at a line that does not fit its buffer of 64 KiB; the caller does not ask for the error.
\<close>

definition dropCR :: "string \<Rightarrow> string" where
  "dropCR l = (if l \<noteq> [] \<and> last l = CHR 0x0D then butlast l else l)"

definition in_line :: "char \<Rightarrow> bool" where
  "in_line c \<longleftrightarrow> c \<noteq> CHR 0x0A"

function scan_lines :: "string \<Rightarrow> string list" where
  "scan_lines s =
     (if s = [] \<or> 65535 < length (takeWhile in_line s) then []
      else dropCR (takeWhile in_line s) # scan_lines (drop 1 (dropWhile in_line s)))"
  by pat_completeness auto
termination
proof (relation "measure length")
  fix s :: string
  assume s: "\<not> (s = [] \<or> 65535 < length (takeWhile in_line s))"
  have "length (dropWhile in_line s) \<le> length s" by (rule length_dropWhile_le)
  then show "(drop 1 (dropWhile in_line s), s) \<in> measure length"
    using s by (cases s; cases "dropWhile in_line s") (simp_all del: dropWhile_eq_Nil_conv)
qed simp

declare scan_lines.simps [simp del]

section \<open>One volume of the cache\<close>

datatype volume_error =
    MetricsFailed fetch_error
  | VolumeNotFound namespaced_name
  | InvalidMetricValue num_error

definition GetVolumeMetrics ::
  "fetch_error + MetricsCache \<Rightarrow> namespaced_name \<Rightarrow> volume_error + VolumeMetrics" where
  "GetVolumeMetrics all nn = try_in (map_err MetricsFailed all) (\<lambda>cache.
     case mc_Get cache nn of None \<Rightarrow> Inl (VolumeNotFound nn) | Some vm \<Rightarrow> Inr vm)"

section \<open>One volume of a text\<close>

definition unquoted :: "char \<Rightarrow> bool" where
  "unquoted c \<longleftrightarrow> c \<noteq> CHR 0x22"

definition is_blank :: "char \<Rightarrow> bool" where
  "is_blank c \<longleftrightarrow> c \<in> {CHR 0x20, CHR 0x09, CHR 0x0A, CHR 0x0C, CHR 0x0D}"

definition metric_name :: regex where
  "metric_name = Seq (Str ''kubelet_volume_stats_'')
     (Alt (Str ''capacity_bytes'') (Alt (Str ''available_bytes'') (Alt (Str ''inodes'') (Str ''inodes_used''))))"

definition metricLineRegex :: regex where
  "metricLineRegex = seq_of
     [Group metric_name,
      Str ''{'', Star in_line, Str (''namespace='' @ [CHR 0x22]), Group (Plus unquoted), Str [CHR 0x22],
      Star in_line, Str (''persistentvolumeclaim='' @ [CHR 0x22]), Group (Plus unquoted), Str [CHR 0x22],
      Star in_line, Str ''}'', Plus is_blank, Group (Plus is_digit)]"

record volume_figures =
  fig_capacity :: int
  fig_available :: int
  fig_inodesTotal :: int
  fig_inodesUsed :: int

definition store_figure :: "string \<Rightarrow> int \<Rightarrow> volume_figures \<Rightarrow> volume_figures" where
  "store_figure name v fg =
     (if name = ''kubelet_volume_stats_capacity_bytes'' then fg\<lparr>fig_capacity := v\<rparr>
      else if name = ''kubelet_volume_stats_available_bytes'' then fg\<lparr>fig_available := v\<rparr>
      else if name = ''kubelet_volume_stats_inodes'' then fg\<lparr>fig_inodesTotal := v\<rparr>
      else if name = ''kubelet_volume_stats_inodes_used'' then fg\<lparr>fig_inodesUsed := v\<rparr>
      else fg)"

text \<open>A line that does not match, or is about another claim, is skipped.\<close>

definition line_match :: "namespaced_name \<Rightarrow> string \<Rightarrow> (string \<times> string) option" where
  "line_match nn l =
     (case FindSubmatch metricLineRegex l of
        Some [name, ns, pvc, digits] \<Rightarrow>
          if ns \<noteq> nn_namespace nn \<or> pvc \<noteq> nn_name nn then None else Some (name, digits)
      | _ \<Rightarrow> None)"

fun parse_lines :: "namespaced_name \<Rightarrow> string list \<Rightarrow> volume_figures \<Rightarrow> volume_error + volume_figures" where
  "parse_lines nn [] fg = Inr fg"
| "parse_lines nn (l # ls) fg =
     (case line_match nn l of
        None \<Rightarrow> parse_lines nn ls fg
      | Some (name, digits) \<Rightarrow>
          (case ParseInt digits of
             Inl e \<Rightarrow> Inl (InvalidMetricValue e)
           | Inr value \<Rightarrow> parse_lines nn ls (store_figure name value fg)))"

definition no_figures :: volume_figures where
  "no_figures = \<lparr>fig_capacity = 0, fig_available = 0, fig_inodesTotal = 0, fig_inodesUsed = 0\<rparr>"

text \<open>Unlike \<open>usage_of\<close>, figures that contradict each other are clamped here.\<close>

definition figures_metrics :: "volume_figures \<Rightarrow> VolumeMetrics" where
  "figures_metrics fg =
     (let capacity = fig_capacity fg; available = fig_available fg;
          total = fig_inodesTotal fg; inodes = fig_inodesUsed fg;
          (used, usagePercent) =
            (if capacity < available then (0, FFin 0)
             else let used = wrap64 (capacity - available)
                  in (used, f_mul (f_div (f_of_int used) (f_of_int capacity)) (FFin 100)));
          (inodesFree, inodesUsagePercent) =
            (if 0 < total then
               if total < inodes then (0, FFin 100)
               else (wrap64 (total - inodes), f_mul (f_div (f_of_int inodes) (f_of_int total)) (FFin 100))
             else (0, FFin 0))
      in \<lparr>vm_CapacityBytes = capacity, vm_AvailableBytes = available, vm_UsedBytes = used,
          vm_UsagePercent = usagePercent, vm_InodesTotal = total, vm_InodesUsed = inodes,
          vm_InodesFree = inodesFree, vm_InodesUsagePercent = inodesUsagePercent\<rparr>)"

definition parseVolumeMetrics :: "string \<Rightarrow> namespaced_name \<Rightarrow> volume_error + VolumeMetrics" where
  "parseVolumeMetrics metricsText nn =
     try_in (parse_lines nn (scan_lines metricsText) no_figures) (\<lambda>fg.
       if fig_capacity fg = 0 \<or> fig_available fg = 0 then Inl (VolumeNotFound nn)
       else Inr (figures_metrics fg))"

section \<open>What a text says about a volume\<close>

lemma digits_val_nonneg: "is_digit c \<Longrightarrow> 0 \<le> digit_val c"
proof -
  assume "is_digit c"
  moreover have "int (of_char c) = of_char c" by (simp add: of_nat_of_char)
  ultimately show ?thesis by (simp add: is_digit_def digit_val_def)
qed

lemma parse_uint_nonneg: "parse_uint n s = Inr m \<Longrightarrow> 0 \<le> n \<Longrightarrow> 0 \<le> m"
  by (induction n s rule: parse_uint.induct) (auto simp: digits_val_nonneg split: if_splits)

lemma ParseInt_digits:
  assumes "list_all is_digit s" and "ParseInt s = Inr n"
  shows "0 \<le> n \<and> n \<le> max_int64"
proof -
  obtain c cs where s: "s = c # cs" using assms(2) by (cases s) (auto simp: ParseInt_def scan_sign_def)
  with assms(1) have c: "c \<noteq> CHR ''-''" "c \<noteq> CHR ''+''" by (auto simp: is_digit_def)
  then have "parse_uint 0 s = Inr n" and "n < 2 ^ 63"
    using assms(2) s by (auto simp: ParseInt_def scan_sign_def try_in_Inr simp del: parse_uint.simps split: if_splits)
  with parse_uint_nonneg [of 0 s n] show ?thesis by (simp add: max_int64_def)
qed

text \<open>What a line that matches looks like.\<close>

lemma matches_metric_name:
  "(cs, r) \<in> set (matches metric_name s) \<longleftrightarrow> cs = [] \<and> (\<exists>f. s = family_of f @ r)"
proof -
  have "(\<exists>f. s = family_of f @ r) \<longleftrightarrow> (\<exists>f \<in> {Capacity, Available, InodesTotal, InodesUsed}. s = family_of f @ r)"
    using field.exhaust by blast
  then show ?thesis by (auto simp: metric_name_def family_of_def)
qed

lemma metricLineRegex_cases:
  assumes "(cs, r) \<in> set (matches metricLineRegex l)"
  obtains f A ns B pvc C b ds where "cs = [family_of f, ns, pvc, ds]"
    and "l = family_of f @ ''{'' @ A @ (''namespace='' @ [CHR 0x22]) @ ns @ [CHR 0x22] @ B @
      (''persistentvolumeclaim='' @ [CHR 0x22]) @ pvc @ [CHR 0x22] @ C @ ''}'' @ b @ ds @ r"
    and "list_all unquoted ns" and "list_all unquoted pvc"
    and "b \<noteq> []" and "list_all is_blank b" and "list_all is_digit ds"
  using assms
  unfolding metricLineRegex_def seq_of.simps matches_Seq matches_Group matches_Str matches_Star matches_Plus
    matches_metric_name
  apply (elim exE conjE)
  apply (simp only: append.simps append_assoc append_same_eq)
  apply hypsubst
  subgoal premises p
    by (rule p(1) [OF refl refl]) (fact p)+
  done

lemma line_match_digits:
  assumes "line_match nn l = Some (name, ds)"
  shows "list_all is_digit ds"
proof -
  obtain cs where "FindSubmatch metricLineRegex l = Some cs" and cs: "\<exists>ns pvc. cs = [name, ns, pvc, ds]"
    using assms by (auto simp: line_match_def split: option.splits list.splits if_splits)
  then obtain r where "(cs, r) \<in> set (matches metricLineRegex l)" using FindSubmatch_match by blast
  then show ?thesis by (rule metricLineRegex_cases) (use cs in auto)
qed

definition figures_ok :: "volume_figures \<Rightarrow> bool" where
  "figures_ok fg \<longleftrightarrow> (\<forall>x \<in> {fig_capacity fg, fig_available fg, fig_inodesTotal fg, fig_inodesUsed fg}.
     0 \<le> x \<and> x \<le> max_int64)"

lemma store_figure_ok: "figures_ok fg \<Longrightarrow> 0 \<le> v \<Longrightarrow> v \<le> max_int64 \<Longrightarrow> figures_ok (store_figure name v fg)"
  by (auto simp: figures_ok_def store_figure_def)

lemma parse_lines_ok: "parse_lines nn ls fg = Inr fg' \<Longrightarrow> figures_ok fg \<Longrightarrow> figures_ok fg'"
proof (induction nn ls fg rule: parse_lines.induct)
  case (2 nn l ls fg)
  show ?case
  proof (cases "line_match nn l")
    case None
    with 2 show ?thesis by simp
  next
    case (Some m)
    then obtain name ds where m: "line_match nn l = Some (name, ds)" by (cases m) simp
    with "2.prems" obtain v where v: "ParseInt ds = Inr v" by (auto split: sum.splits)
    with ParseInt_digits [OF line_match_digits [OF m]] have "figures_ok (store_figure name v fg)"
      using "2.prems" by (simp add: store_figure_ok)
    with "2.IH"(2) [OF m] "2.prems" m v show ?thesis by simp
  qed
qed simp

section \<open>The text of known volumes\<close>

text \<open>What a kubelet prints for a volume: the inverse of \<open>parseVolumeMetrics\<close>.\<close>

fun figure :: "field \<Rightarrow> volume_figures \<Rightarrow> int" where
  "figure Capacity fg = fig_capacity fg"
| "figure Available fg = fig_available fg"
| "figure InodesTotal fg = fig_inodesTotal fg"
| "figure InodesUsed fg = fig_inodesUsed fg"

definition figure_line :: "namespaced_name \<Rightarrow> volume_figures \<Rightarrow> field \<Rightarrow> string" where
  "figure_line nn fg f = family_of f @ ''{'' @ (''namespace='' @ [CHR 0x22]) @ nn_namespace nn @ [CHR 0x22] @ '','' @
     (''persistentvolumeclaim='' @ [CHR 0x22]) @ nn_name nn @ [CHR 0x22] @ ''}'' @ '' '' @ fmt_nat (figure f fg)"

definition volume_lines :: "namespaced_name \<times> volume_figures \<Rightarrow> string list" where
  "volume_lines v = map (figure_line (fst v) (snd v)) [Capacity, Available, InodesTotal, InodesUsed]"

definition volumes_text :: "(namespaced_name \<times> volume_figures) list \<Rightarrow> string" where
  "volumes_text vs = concat (map (\<lambda>l. l @ [CHR 0x0A]) (concat (map volume_lines vs)))"

text \<open>The names Kubernetes gives are shorter and have none of these characters.\<close>

definition plain_name :: "string \<Rightarrow> bool" where
  "plain_name s \<longleftrightarrow> s \<noteq> [] \<and> length s \<le> 1000 \<and> list_all unquoted s \<and> list_all in_line s"

lemma four_separators:
  assumes eq: "a0 @ q # a1 @ q # a2 @ q # a3 @ q # a4 = b0 @ q # b1 @ q # b2 @ q # b3 @ q # b4"
    and b: "q \<notin> set b0" "q \<notin> set b1" "q \<notin> set b2" "q \<notin> set b3" "q \<notin> set b4"
  shows "a0 = b0 \<and> a1 = b1 \<and> a2 = b2 \<and> a3 = b3 \<and> a4 = b4"
proof -
  have "count_list (a0 @ q # a1 @ q # a2 @ q # a3 @ q # a4) q = 4" unfolding eq using b by simp
  then have "q \<notin> set a0" "q \<notin> set a1" "q \<notin> set a2" "q \<notin> set a3" "q \<notin> set a4"
    by (simp_all flip: count_list_0_iff)
  with eq b show ?thesis by (simp add: append_separator_inject)
qed

lemma digit_chars: "\<not> is_digit CHR 0x22" "\<not> is_digit CHR ''}''" "\<not> is_digit CHR 0x0A" "\<not> is_digit CHR 0x0D"
  "is_digit c \<Longrightarrow> \<not> is_blank c"
  by (auto simp: is_digit_def is_blank_def)

lemma family_of_brace: "CHR ''{'' \<notin> set (family_of f)"
  by (cases f) (simp_all add: family_of_def)

lemma first_separator: "a @ c # x = c # y \<Longrightarrow> c \<notin> set y \<Longrightarrow> x = y"
  by (cases a) auto

lemma blank_split:
  assumes "b @ ds = CHR '' '' # t" and "b \<noteq> []" and "list_all is_blank b" and "list_all is_digit t"
  shows "ds = t"
  using assms digit_chars(5) by (cases b; cases "tl b") auto

lemma figure_line_match:
  assumes "(cs, r) \<in> set (matches metricLineRegex (figure_line nn fg f))"
    and names: "plain_name (nn_namespace nn)" "plain_name (nn_name nn)" and "0 \<le> figure f fg"
  shows "\<exists>ds. cs = [family_of f, nn_namespace nn, nn_name nn, ds] \<and> fmt_nat (figure f fg) = ds @ r"
  using assms(1)
proof (cases rule: metricLineRegex_cases)
  case (1 f' A ns B pvc C b ds)
  let ?d = "fmt_nat (figure f fg)"
  have digits: "\<forall>c \<in> set ?d. is_digit c" using fmt_nat_digits assms(4) by blast
  have "family_of f @ CHR ''{'' # (''namespace='' @ CHR 0x22 # nn_namespace nn @ CHR 0x22 #
        '',persistentvolumeclaim='' @ CHR 0x22 # nn_name nn @ CHR 0x22 # ''} '' @ ?d)
      = family_of f' @ CHR ''{'' # ((A @ ''namespace='') @ CHR 0x22 # ns @ CHR 0x22 #
        (B @ ''persistentvolumeclaim='') @ CHR 0x22 # pvc @ CHR 0x22 # C @ ''}'' @ b @ ds @ r)"
    using 1(2) by (simp add: figure_line_def)
  then have f: "family_of f' = family_of f"
    and rest: "(A @ ''namespace='') @ CHR 0x22 # ns @ CHR 0x22 #
        (B @ ''persistentvolumeclaim='') @ CHR 0x22 # pvc @ CHR 0x22 # (C @ ''}'' @ b @ ds @ r) =
      ''namespace='' @ CHR 0x22 # nn_namespace nn @ CHR 0x22 #
        '',persistentvolumeclaim='' @ CHR 0x22 # nn_name nn @ CHR 0x22 # (''} '' @ ?d)"
    by (simp_all only: append_separator_inject [OF family_of_brace family_of_brace])
  have parts: "ns = nn_namespace nn \<and> pvc = nn_name nn \<and> C @ ''}'' @ b @ ds @ r = ''} '' @ ?d"
    using four_separators [OF rest] names digits digit_chars(1)
    by (auto simp: plain_name_def list_all_iff unquoted_def)
  then have "C @ CHR ''}'' # (b @ ds @ r) = CHR ''}'' # (CHR '' '' # ?d)" by simp
  moreover have "CHR ''}'' \<notin> set (CHR '' '' # ?d)" using digits digit_chars(2) by auto
  ultimately have "b @ ds @ r = CHR '' '' # ?d" by (rule first_separator)
  then have "ds @ r = ?d" using blank_split 1(5,6) digits by (simp add: list_all_iff)
  then show ?thesis using 1(1) f parts by auto
qed

lemma figure_line_captures:
  assumes "plain_name (nn_namespace nn)" and "plain_name (nn_name nn)" and "0 \<le> figure f fg"
  shows "FindSubmatch metricLineRegex (figure_line nn fg f) =
    Some [family_of f, nn_namespace nn, nn_name nn, fmt_nat (figure f fg)]"
proof -
  let ?l = "figure_line nn fg f" and ?d = "fmt_nat (figure f fg)"
  have digits: "list_all is_digit ?d" using fmt_nat_digits assms(3) by (simp add: list_all_iff)
  have l: "?l = family_of f @ ''{'' @ [] @ (''namespace='' @ [CHR 0x22]) @ nn_namespace nn @ [CHR 0x22] @ '','' @
     (''persistentvolumeclaim='' @ [CHR 0x22]) @ nn_name nn @ [CHR 0x22] @ [] @ ''}'' @ '' '' @ ?d"
    by (simp add: figure_line_def)
  have "matches (Group (Plus is_digit)) ?d \<noteq> []"
    using digits fmt_nat_nonempty [of "figure f fg"] by (cases ?d) (auto simp: matches.simps)
  moreover have "([], t) \<in> set (matches metric_name (family_of f @ t))" for t
    by (auto simp: matches_metric_name)
  ultimately have "matches metricLineRegex ?l \<noteq> []"
    unfolding l metricLineRegex_def seq_of.simps using assms(1,2)
    by (intro Seq_steps) (auto simp: plain_name_def in_line_def is_blank_def)
  then obtain cs r ms where m: "matches metricLineRegex ?l = (cs, r) # ms"
    by (cases "matches metricLineRegex ?l") auto
  then obtain ds where ds: "cs = [family_of f, nn_namespace nn, nn_name nn, ds]" "?d = ds @ r"
    using figure_line_match [OF _ assms, of cs r] by auto
  have "r = [] \<or> \<not> is_digit (hd r)"
    using m unfolding metricLineRegex_def seq_of.simps by (elim Seq_first) (rule Group_Plus_first)
  with ds digits have "r = []" by (cases r) auto
  with m ds show ?thesis by (simp add: FindSubmatch_def)
qed

section \<open>Reading such a text\<close>

lemma parse_uint_dec_val:
  "list_all is_digit s \<Longrightarrow> 0 \<le> n \<Longrightarrow> dec_val n s < 2 ^ 64 \<Longrightarrow>
    n \<le> dec_val n s \<and> parse_uint n s = Inr (dec_val n s)"
proof (induction n s rule: dec_val.induct)
  case (2 n c cs)
  then have "0 \<le> digit_val c" by (simp add: digits_val_nonneg)
  moreover from this 2 have "n * 10 + digit_val c \<le> dec_val (n * 10 + digit_val c) cs \<and>
      parse_uint (n * 10 + digit_val c) cs = Inr (dec_val (n * 10 + digit_val c) cs)"
    by (intro "2.IH") simp_all
  ultimately show ?case using 2 by simp
qed simp

lemma ParseInt_fmt_nat:
  assumes "0 \<le> v" and "v \<le> max_int64"
  shows "ParseInt (fmt_nat v) = Inr v"
proof -
  have digits: "list_all is_digit (fmt_nat v)" using fmt_nat_digits assms(1) by (simp add: list_all_iff)
  then have "parse_uint 0 (fmt_nat v) = Inr v"
    using parse_uint_dec_val [of "fmt_nat v" 0] assms by (simp add: dec_val_fmt_nat max_int64_def)
  moreover obtain c cs where "fmt_nat v = c # cs" using fmt_nat_nonempty by (meson list.exhaust)
  ultimately show ?thesis
    using digits assms by (auto simp: ParseInt_def scan_sign_def is_digit_def max_int64_def simp del: parse_uint.simps)
qed

lemma scan_lines_append:
  assumes "list_all in_line l" and "length l \<le> 65535"
  shows "scan_lines (l @ CHR 0x0A # s) = dropCR l # scan_lines s"
proof -
  have "takeWhile in_line (l @ CHR 0x0A # s) = l" and "dropWhile in_line (l @ CHR 0x0A # s) = CHR 0x0A # s"
    using assms(1) by (simp_all add: list_all_iff takeWhile_append dropWhile_append in_line_def)
  then show ?thesis using assms(2) by (subst scan_lines.simps) simp
qed

lemma scan_lines_concat:
  assumes "\<And>l. l \<in> set ls \<Longrightarrow> list_all in_line l \<and> length l \<le> 65535 \<and> dropCR l = l"
  shows "scan_lines (concat (map (\<lambda>l. l @ [CHR 0x0A]) ls)) = ls"
  using assms
proof (induction ls)
  case Nil
  show ?case by (subst scan_lines.simps) simp
next
  case (Cons l ls)
  then show ?case using scan_lines_append [of l] by simp
qed

lemma figure_line_plain:
  assumes names: "plain_name (nn_namespace nn)" "plain_name (nn_name nn)"
    and v: "0 \<le> figure f fg" "figure f fg \<le> max_int64"
  shows "list_all in_line (figure_line nn fg f) \<and> length (figure_line nn fg f) \<le> 65535 \<and>
    dropCR (figure_line nn fg f) = figure_line nn fg f"
proof -
  let ?d = "fmt_nat (figure f fg)"
  have digits: "\<forall>c \<in> set ?d. is_digit c" using fmt_nat_digits v(1) by blast
  have "length (family_of f) \<le> 36" "list_all in_line (family_of f)"
    by (cases f; simp add: family_of_def in_line_def)+
  moreover have "length ?d \<le> Suc 18" using fmt_nat_length [of "figure f fg" 18] v by (simp add: max_int64_def)
  moreover have "list_all in_line ?d" using digits digit_chars(3) by (auto simp: list_all_iff in_line_def)
  moreover have "last ?d \<noteq> CHR 0x0D" using digits digit_chars(4) fmt_nat_nonempty last_in_set by metis
  ultimately show ?thesis
    using names fmt_nat_nonempty by (simp add: figure_line_def plain_name_def in_line_def dropCR_def)
qed

lemma parse_lines_append:
  "parse_lines nn (ls @ ls') fg = try_in (parse_lines nn ls fg) (parse_lines nn ls')"
  by (induction nn ls fg rule: parse_lines.induct) (auto split: option.split sum.split)

lemma line_match_figure_line:
  assumes "plain_name (nn_namespace nn')" and "plain_name (nn_name nn')" and "0 \<le> figure f fg"
  shows "line_match nn (figure_line nn' fg f) = (if nn' = nn then Some (family_of f, fmt_nat (figure f fg)) else None)"
  using figure_line_captures [OF assms] by (auto simp: line_match_def)

definition volume_ok :: "namespaced_name \<times> volume_figures \<Rightarrow> bool" where
  "volume_ok v \<longleftrightarrow> plain_name (nn_namespace (fst v)) \<and> plain_name (nn_name (fst v)) \<and> figures_ok (snd v)"

lemma volume_ok_figure: "volume_ok v \<Longrightarrow> 0 \<le> figure f (snd v) \<and> figure f (snd v) \<le> max_int64"
  by (cases f) (auto simp: volume_ok_def figures_ok_def)

lemma parse_figure_line:
  assumes "volume_ok v"
  shows "parse_lines nn (figure_line (fst v) (snd v) f # ls) fg = parse_lines nn ls
    (if fst v = nn then store_figure (family_of f) (figure f (snd v)) fg else fg)"
proof -
  have "line_match nn (figure_line (fst v) (snd v) f) =
      (if fst v = nn then Some (family_of f, fmt_nat (figure f (snd v))) else None)"
    using assms volume_ok_figure [OF assms] by (intro line_match_figure_line) (simp_all add: volume_ok_def)
  then show ?thesis using volume_ok_figure [OF assms, of f] by (auto simp: ParseInt_fmt_nat)
qed

lemma parse_volume_lines:
  assumes "volume_ok v"
  shows "parse_lines nn (volume_lines v) fg = Inr (if fst v = nn then snd v else fg)"
  by (simp add: volume_lines_def parse_figure_line [OF assms] del: parse_lines.simps(2))
    (simp add: store_figure_def family_of_def)

lemma parse_all_volume_lines:
  assumes "\<And>v. v \<in> set vs \<Longrightarrow> volume_ok v" and "distinct (map fst vs)"
  shows "parse_lines nn (concat (map volume_lines vs)) fg =
    Inr (case map_of vs nn of None \<Rightarrow> fg | Some fg' \<Rightarrow> fg')"
  using assms
proof (induction vs arbitrary: fg)
  case (Cons v vs)
  have "map_of vs (fst v) = None" using Cons.prems(2) by (simp add: map_of_eq_None_iff)
  with Cons show ?case
    by (cases v) (auto simp: parse_lines_append parse_volume_lines split: option.split)
qed simp

lemma scan_volumes_text:
  assumes "\<And>v. v \<in> set vs \<Longrightarrow> volume_ok v"
  shows "scan_lines (volumes_text vs) = concat (map volume_lines vs)"
  unfolding volumes_text_def
proof (rule scan_lines_concat)
  fix l
  assume "l \<in> set (concat (map volume_lines vs))"
  then obtain v f where "v \<in> set vs" and l: "l = figure_line (fst v) (snd v) f"
    by (auto simp: volume_lines_def)
  then have "volume_ok v" using assms by blast
  with volume_ok_figure [OF this, of f] show "list_all in_line l \<and> length l \<le> 65535 \<and> dropCR l = l"
    unfolding l by (intro figure_line_plain) (simp_all add: volume_ok_def)
qed

section \<open>Agreement with the cache\<close>

text \<open>Figures that do not contradict each other give what the cache computes from them.\<close>

lemma figures_metrics_percent:
  "fig_available fg \<le> fig_capacity fg \<Longrightarrow> vm_UsagePercent (figures_metrics fg) =
    percent_of (wrap64 (fig_capacity fg - fig_available fg)) (fig_capacity fg)"
  "0 < fig_inodesTotal fg \<Longrightarrow> fig_inodesUsed fg \<le> fig_inodesTotal fg \<Longrightarrow>
    vm_InodesUsagePercent (figures_metrics fg) = percent_of (fig_inodesUsed fg) (fig_inodesTotal fg)"
  by (simp_all add: figures_metrics_def percent_of_def Let_def)

lemma figures_metrics_fields [simp]:
  "vm_CapacityBytes (figures_metrics fg) = fig_capacity fg"
  "vm_AvailableBytes (figures_metrics fg) = fig_available fg"
  "vm_InodesTotal (figures_metrics fg) = fig_inodesTotal fg"
  "vm_InodesUsed (figures_metrics fg) = fig_inodesUsed fg"
  by (simp_all add: figures_metrics_def Let_def split: prod.split)

lemma figures_metrics_usage_of:
  assumes "0 < fig_capacity fg" and "fig_available fg \<le> fig_capacity fg" and "fig_inodesUsed fg \<le> fig_inodesTotal fg"
  shows "usage_of (zero_metrics\<lparr>vm_CapacityBytes := fig_capacity fg, vm_AvailableBytes := fig_available fg,
      vm_InodesTotal := fig_inodesTotal fg, vm_InodesUsed := fig_inodesUsed fg\<rparr>) = figures_metrics fg"
  using assms by (simp add: usage_of_def figures_metrics_def zero_metrics_def Let_def)

lemma figures_metrics_used:
  assumes "figures_ok fg"
  shows "vm_UsedBytes (figures_metrics fg) = max 0 (vm_CapacityBytes (figures_metrics fg) - vm_AvailableBytes (figures_metrics fg))"
proof -
  have "in_int64 (fig_capacity fg - fig_available fg)"
    using assms by (simp add: figures_ok_def in_int64_def min_int64_def max_int64_def)
  then show ?thesis by (simp add: figures_metrics_def Let_def wrap64_id split: prod.split)
qed

lemma figures_metrics_bounds:
  assumes "figures_ok fg" and "fig_capacity fg \<noteq> 0"
  shows "\<exists>u. vm_UsagePercent (figures_metrics fg) = FFin u \<and> 0 \<le> u \<and> u \<le> 100"
    and "\<exists>v. vm_InodesUsagePercent (figures_metrics fg) = FFin v \<and> 0 \<le> v \<and> v \<le> 100"
proof -
  show "\<exists>u. vm_UsagePercent (figures_metrics fg) = FFin u \<and> 0 \<le> u \<and> u \<le> 100"
  proof (cases "fig_available fg \<le> fig_capacity fg")
    case True
    then have "wrap64 (fig_capacity fg - fig_available fg) = fig_capacity fg - fig_available fg"
      using assms by (intro wrap64_id) (simp add: figures_ok_def in_int64_def min_int64_def max_int64_def)
    with True show ?thesis
      using assms by (simp add: figures_metrics_percent(1) figures_ok_def percent_of_bounds)
  next
    case False
    then show ?thesis by (simp add: figures_metrics_def Let_def split: prod.split)
  qed
  show "\<exists>v. vm_InodesUsagePercent (figures_metrics fg) = FFin v \<and> 0 \<le> v \<and> v \<le> 100"
  proof (cases "0 < fig_inodesTotal fg \<and> fig_inodesUsed fg \<le> fig_inodesTotal fg")
    case True
    then show ?thesis using assms by (simp add: figures_metrics_percent(2) figures_ok_def percent_of_bounds)
  next
    case False
    then show ?thesis by (auto simp: figures_metrics_def Let_def split: prod.split)
  qed
qed

lemma parse_volumes_text:
  assumes "\<And>v. v \<in> set vs \<Longrightarrow> volume_ok v" and "distinct (map fst vs)"
  shows "parseVolumeMetrics (volumes_text vs) nn =
    (case map_of vs nn of
       None \<Rightarrow> Inl (VolumeNotFound nn)
     | Some fg \<Rightarrow> if fig_capacity fg = 0 \<or> fig_available fg = 0 then Inl (VolumeNotFound nn)
         else Inr (figures_metrics fg))"
  using scan_volumes_text [OF assms(1)] parse_all_volume_lines [OF assms, of nn no_figures]
  by (simp add: parseVolumeMetrics_def no_figures_def split: option.split)

end
