(* ===== verification/NodeFetch.thy ===== *)
theory NodeFetch
  imports KubeletFacts Startup
begin

text \<open>
  How the metrics text of one node is fetched and read (pkg/kubelet/cache.go): through the API
  server's proxy of the node, or from the custom URL, which replaces every node's own. What the
  network and the Prometheus text parser answer is the environment, a parameter of the model.
\<close>

section \<open>The environment\<close>

text \<open>
  A GET of a URL made for a node: it can fail before it is sent, without an answer, or give a status
  and a body that may not be read to its end.
\<close>

record http_response =
  resp_StatusCode :: int
  resp_Body :: "string + string"

record scrape_env =
  se_new_request :: "string \<Rightarrow> string option"
  se_do :: "string \<Rightarrow> string \<Rightarrow> string + http_response"
  se_proxy :: "string \<Rightarrow> string + string"
  se_families :: "string \<Rightarrow> string + metric_families"

definition StatusOK :: int where "StatusOK = 200"

section \<open>Fetching\<close>

definition fetchFromCustomURL :: "scrape_env \<Rightarrow> MetricsCollector \<Rightarrow> string \<Rightarrow> get_error + string" where
  "fetchFromCustomURL E mc nodeName =
     (let url = coll_kubeletURL mc @ ''/metrics'' in
      case se_new_request E url of
        Some err \<Rightarrow> Inl (CreateRequestFailed err)
      | None \<Rightarrow>
          try_in (map_err FetchFailed (se_do E nodeName url)) (\<lambda>resp.
          if resp_StatusCode resp \<noteq> StatusOK then Inl (UnexpectedStatus (resp_StatusCode resp))
          else map_err ReadBodyFailed (resp_Body resp)))"

text \<open>What the goroutine of a node has before its first write: the families, or its error.\<close>

definition scrape_node :: "scrape_env \<Rightarrow> MetricsCollector \<Rightarrow> string \<Rightarrow> scrape_error + metric_families" where
  "scrape_node E mc nodeName =
     try_in (map_err GetMetricsFailed
        (if coll_kubeletURL mc \<noteq> '''' then fetchFromCustomURL E mc nodeName
         else map_err ProxyFailed (se_proxy E nodeName))) (\<lambda>respBody.
     map_err ParseMetricsFailed (se_families E respBody))"

text \<open>The goroutine of one node run alone.\<close>

definition fetchNodeMetrics ::
  "(float64 \<Rightarrow> int) \<Rightarrow> scrape_env \<Rightarrow> MetricsCollector \<Rightarrow> string \<Rightarrow> MetricsCache \<Rightarrow>
   fetch_error + MetricsCache" where
  "fetchNodeMetrics oob E mc nodeName cache =
     try_in (map_err (NodeFailed nodeName) (scrape_node E mc nodeName)) (\<lambda>families.
     Inr (fold apply_write (node_writes oob families) cache))"

text \<open>The goroutines one after the other: the schedule of \<open>fetch_nodes_in_order\<close>.\<close>

fun fetch_each ::
  "(float64 \<Rightarrow> int) \<Rightarrow> scrape_env \<Rightarrow> MetricsCollector \<Rightarrow> string list \<Rightarrow> MetricsCache \<Rightarrow>
   fetch_error + MetricsCache" where
  "fetch_each oob E mc [] cache = Inr cache"
| "fetch_each oob E mc (n # ns) cache =
     try_in (fetchNodeMetrics oob E mc n cache) (fetch_each oob E mc ns)"

lemma fetch_each_in_order:
  "fetch_each oob E mc nodes cache = fetch_nodes_in_order oob (scrape_node E mc) nodes cache"
  by (induction nodes arbitrary: cache)
    (simp_all add: fetchNodeMetrics_def try_in_def map_err_def split: sum.split)

section \<open>The custom URL\<close>

text \<open>With a custom URL the node's own address is not used: only the answers at the URL count.\<close>

lemma custom_scrape:
  assumes "coll_kubeletURL mc \<noteq> ''''" and "se_new_request E (coll_kubeletURL mc @ ''/metrics'') = None"
    and "se_do E n (coll_kubeletURL mc @ ''/metrics'') = Inr \<lparr>resp_StatusCode = StatusOK, resp_Body = Inr text\<rparr>"
    and "se_families E text = Inr fams"
  shows "scrape_node E mc n = Inr fams"
  using assms by (simp add: scrape_node_def fetchFromCustomURL_def Let_def)

lemma custom_status:
  assumes "coll_kubeletURL mc \<noteq> ''''" and "se_new_request E (coll_kubeletURL mc @ ''/metrics'') = None"
    and "se_do E n (coll_kubeletURL mc @ ''/metrics'') = Inr resp" and "resp_StatusCode resp \<noteq> StatusOK"
  shows "scrape_node E mc n = Inl (GetMetricsFailed (UnexpectedStatus (resp_StatusCode resp)))"
  using assms by (simp add: scrape_node_def fetchFromCustomURL_def Let_def)

text \<open>Nodes that all hold one and the same text count once.\<close>

lemma same_text_once:
  assumes "nodes \<noteq> []" and "\<And>n. n \<in> set nodes \<Longrightarrow> scrape n = Inr fams"
    and "agree (node_writes oob fams) (node_writes oob fams)"
  shows "fetchAllNodeMetrics oob scrape (Inr nodes) c r \<longleftrightarrow> r = Inr (fold apply_write (node_writes oob fams) c)"
proof -
  let ?xss = "map (\<lambda>n. node_writes oob (node_ok scrape n)) nodes"
  have "?xss = map (\<lambda>n. node_writes oob fams) nodes"
    using assms(2) by (simp add: node_ok_def)
  then have copies: "?xss = replicate (length nodes) (node_writes oob fams)"
    by (simp only: map_replicate_const)
  have once: "fold apply_write ws c = fold apply_write (node_writes oob fams) c" if "ws \<in> interleavings ?xss" for ws
    using that assms(1,3) unfolding copies by (intro copies_once) auto
  show ?thesis
  proof
    assume "fetchAllNodeMetrics oob scrape (Inr nodes) c r"
    then show "r = Inr (fold apply_write (node_writes oob fams) c)"
      by (cases rule: fetchAllNodeMetrics.cases) (use assms(1,2) once in auto)
  next
    assume "r = Inr (fold apply_write (node_writes oob fams) c)"
    moreover have "fetchAllNodeMetrics oob scrape (Inr nodes) c (Inr (fold apply_write (concat ?xss) c))"
      using assms(1,2) concat_interleaving by (intro fetchAllNodeMetrics.fetched) auto
    ultimately show "fetchAllNodeMetrics oob scrape (Inr nodes) c r"
      using once [OF concat_interleaving] by simp
  qed
qed

end
