(* ===== verification/Memory.thy ===== *)
theory Memory
  imports Prelude
begin

text \<open>
  Memory with pointers, for the code whose claims are about sharing (the generated deep copies).
  Everywhere else the development reads a pointer field as an option; here the pointer is an
  address and the value sits in a cell. A \<^emph>\<open>view\<close> says how a Go value is read through its
  pointers: what it stands for, the cells it reaches (its footprint) and that each of them is
  allocated and of the right type. The locale \<open>deep_copying\<close> is the contract of a deep copy over
  a view, and the lemmas after it build the contract of a struct from those of its fields.
\<close>

section \<open>Cells and addresses\<close>

type_synonym addr = nat

text \<open>Every cell below \<open>mem_next\<close> is allocated; the runtime never reuses one that is reachable.\<close>

record 'c mem =
  mem_next :: addr
  mem_cells :: "addr \<Rightarrow> 'c"

definition cell_at :: "'c mem \<Rightarrow> addr \<Rightarrow> 'c" where
  "cell_at h a = mem_cells h a"

text \<open>\<open>new(T)\<close>, or taking the address of a local variable: a cell no pointer reaches yet.\<close>

definition new_cell :: "'c \<Rightarrow> 'c mem \<Rightarrow> addr \<times> 'c mem" where
  "new_cell c h = (mem_next h,
     \<lparr>mem_next = Suc (mem_next h), mem_cells = (mem_cells h)(mem_next h := c)\<rparr>)"

definition write_cell :: "addr \<Rightarrow> 'c \<Rightarrow> 'c mem \<Rightarrow> 'c mem" where
  "write_cell a c h = h\<lparr>mem_cells := (mem_cells h)(a := c)\<rparr>"

definition same_on :: "addr set \<Rightarrow> 'c mem \<Rightarrow> 'c mem \<Rightarrow> bool" where
  "same_on A h k \<longleftrightarrow> (\<forall>a\<in>A. cell_at k a = cell_at h a)"

definition allocated :: "'c mem \<Rightarrow> addr set" where
  "allocated h = {..<mem_next h}"

text \<open>The cells a step from \<open>h\<close> to \<open>h'\<close> allocates.\<close>

definition fresh_between :: "'c mem \<Rightarrow> 'c mem \<Rightarrow> addr set" where
  "fresh_between h h' = {mem_next h..<mem_next h'}"

definition extends :: "'c mem \<Rightarrow> 'c mem \<Rightarrow> bool" where
  "extends h h' \<longleftrightarrow> mem_next h \<le> mem_next h' \<and> same_on (allocated h) h h'"

named_theorems mem_simps \<comment> \<open>reading a memory after an allocation or a write\<close>

lemma new_cell_simps [mem_simps]:
  "fst (new_cell c h) = mem_next h"
  "mem_next (snd (new_cell c h)) = Suc (mem_next h)"
  "cell_at (snd (new_cell c h)) a = (if a = mem_next h then c else cell_at h a)"
  by (simp_all add: new_cell_def cell_at_def)

lemma write_cell_simps [mem_simps]:
  "mem_next (write_cell b c h) = mem_next h"
  "cell_at (write_cell b c h) a = (if a = b then c else cell_at h a)"
  by (simp_all add: write_cell_def cell_at_def)

lemma extends_refl [simp]: "extends h h"
  by (simp add: extends_def same_on_def)

lemma extends_trans: "extends h k \<Longrightarrow> extends k l \<Longrightarrow> extends h l"
  by (auto simp: extends_def same_on_def allocated_def)

lemma extends_next: "extends h k \<Longrightarrow> mem_next h \<le> mem_next k"
  by (simp add: extends_def)

lemma extends_cell: "extends h k \<Longrightarrow> a < mem_next h \<Longrightarrow> cell_at k a = cell_at h a"
  by (simp add: extends_def same_on_def allocated_def)

lemma extends_same_on: "extends h k \<Longrightarrow> A \<subseteq> allocated h \<Longrightarrow> same_on A h k"
  by (auto simp: extends_def same_on_def)

lemma extends_allocated: "extends h k \<Longrightarrow> allocated h \<subseteq> allocated k"
  by (auto simp: extends_def allocated_def)

lemma extends_new: "extends h (snd (new_cell c h))"
  by (simp add: extends_def same_on_def allocated_def mem_simps)

lemma extends_write: "extends h k \<Longrightarrow> mem_next h \<le> a \<Longrightarrow> extends h (write_cell a c k)"
  by (simp add: extends_def same_on_def allocated_def mem_simps)

section \<open>Views and the contract of a deep copy\<close>

record ('a, 'v, 'c) view =
  vw_read :: "'c mem \<Rightarrow> 'a \<Rightarrow> 'v"
  vw_foot :: "'c mem \<Rightarrow> 'a \<Rightarrow> addr set"
  vw_valid :: "'c mem \<Rightarrow> 'a \<Rightarrow> bool"

text \<open>A view depends on the cells of its footprint only, and those are allocated.\<close>

locale framed_view =
  fixes V :: "('a, 'v, 'c) view"
  assumes valid_foot: "vw_valid V h a \<Longrightarrow> vw_foot V h a \<subseteq> allocated h"
    and frame: "vw_valid V h a \<Longrightarrow> same_on (vw_foot V h a) h k \<Longrightarrow> mem_next h \<le> mem_next k \<Longrightarrow>
      vw_valid V k a \<and> vw_read V k a = vw_read V h a \<and> vw_foot V k a = vw_foot V h a"
begin

lemma extends_view:
  assumes "vw_valid V h a" and "extends h k"
  shows "vw_valid V k a" and "vw_read V k a = vw_read V h a" and "vw_foot V k a = vw_foot V h a"
  using frame [OF assms(1) extends_same_on [OF assms(2) valid_foot [OF assms(1)]]
      extends_next [OF assms(2)]] by auto

lemma write_view:
  assumes "vw_valid V h a" and "b \<notin> vw_foot V h a"
  shows "vw_valid V (write_cell b c h) a" and "vw_read V (write_cell b c h) a = vw_read V h a"
    and "vw_foot V (write_cell b c h) a = vw_foot V h a"
proof -
  have "same_on (vw_foot V h a) h (write_cell b c h)"
    using assms(2) by (auto simp: same_on_def mem_simps)
  from frame [OF assms(1) this] show "vw_valid V (write_cell b c h) a"
    and "vw_read V (write_cell b c h) a = vw_read V h a"
    and "vw_foot V (write_cell b c h) a = vw_foot V h a"
    by (auto simp: mem_simps)
qed

end

text \<open>
  A deep copy of a valid value touches no cell that was allocated, gives a valid value that
  reads the same, and reaches through it only cells it allocated itself.
\<close>

locale deep_copying = framed_view V
  for V :: "('a, 'v, 'c) view" +
  fixes copy :: "'a \<Rightarrow> 'c mem \<Rightarrow> 'a \<times> 'c mem"
  assumes copied: "vw_valid V h a \<Longrightarrow> copy a h = (b, h') \<Longrightarrow>
      extends h h' \<and> vw_valid V h' b \<and> vw_read V h' b = vw_read V h a \<and>
      vw_foot V h' b \<subseteq> fresh_between h h'"
begin

lemma original_kept:
  assumes "vw_valid V h a" and "copy a h = (b, h')"
  shows "vw_valid V h' a" and "vw_read V h' a = vw_read V h a" and "vw_foot V h' a = vw_foot V h a"
proof -
  have "extends h h'"
    using copied [OF assms] by simp
  then show "vw_valid V h' a" and "vw_read V h' a = vw_read V h a"
    and "vw_foot V h' a = vw_foot V h a"
    by (rule extends_view [OF assms(1)])+
qed

lemma disjoint:
  assumes "vw_valid V h a" and "copy a h = (b, h')"
  shows "vw_foot V h' b \<inter> vw_foot V h' a = {}"
proof -
  have "vw_foot V h' b \<subseteq> fresh_between h h'"
    using copied [OF assms] by simp
  moreover have "vw_foot V h' a \<subseteq> allocated h"
    using original_kept(3) [OF assms] valid_foot [OF assms(1)] by simp
  moreover have "fresh_between h h' \<inter> allocated h = {}"
    by (auto simp: allocated_def fresh_between_def)
  ultimately show ?thesis by blast
qed

lemma write_through_copy:
  assumes "vw_valid V h a" and "copy a h = (b, h')"
    and "same_on (allocated h' - vw_foot V h' b) h' k" and "mem_next h' \<le> mem_next k"
  shows "vw_read V k a = vw_read V h a"
proof -
  have "vw_foot V h' a \<subseteq> allocated h'"
    by (rule valid_foot [OF original_kept(1) [OF assms(1,2)]])
  then have "same_on (vw_foot V h' a) h' k"
    using disjoint [OF assms(1,2)] assms(3) unfolding same_on_def by blast
  from frame [OF original_kept(1) [OF assms(1,2)] this assms(4)] show ?thesis
    using original_kept(2) [OF assms(1,2)] by simp
qed

lemma write_through_original:
  assumes "vw_valid V h a" and "copy a h = (b, h')"
    and "same_on (allocated h' - vw_foot V h' a) h' k" and "mem_next h' \<le> mem_next k"
  shows "vw_read V k b = vw_read V h a"
proof -
  have b: "vw_valid V h' b" "vw_read V h' b = vw_read V h a"
    using copied [OF assms(1,2)] by auto
  then have "same_on (vw_foot V h' b) h' k"
    using disjoint [OF assms(1,2)] assms(3) valid_foot unfolding same_on_def by blast
  moreover note b
  ultimately show ?thesis using frame assms(4) by metis
qed

end

end
