(* ===== verification/KubeletPointers.thy ===== *)
theory KubeletPointers
  imports Kubelet Memory
begin

text \<open>
  The metrics cache of pkg/kubelet/cache.go as the code stores it: a map from keys to pointers,
  with the entries changed in place. The theory \<open>Kubelet\<close> has a map from keys to values; here the
  two are shown to agree after every run of writes, and what \<open>Get\<close> and \<open>GetAll\<close> give away is told
  apart: a pointer into the cache, and pointers to copies.
\<close>

section \<open>The operations\<close>

record pointer_cache =
  pk_data :: "string \<rightharpoonup> addr option"
  pk_mem :: "VolumeMetrics mem"

definition ptr_NewMetricsCache :: "VolumeMetrics mem \<Rightarrow> pointer_cache" where
  "ptr_NewMetricsCache h = \<lparr>pk_data = Map.empty, pk_mem = h\<rparr>"

text \<open>\<open>cache.data[key]\<close>: a missing key gives the nil pointer.\<close>

definition pointer_at :: "pointer_cache \<Rightarrow> string \<Rightarrow> addr option" where
  "pointer_at c key = (case pk_data c key of None \<Rightarrow> None | Some p \<Rightarrow> p)"

text \<open>The first statement of every setter, and the setter of one field.\<close>

definition ensure_entry :: "string \<Rightarrow> pointer_cache \<Rightarrow> pointer_cache" where
  "ensure_entry key c = (if pointer_at c key = None then
       let (a, h) = new_cell zero_metrics (pk_mem c) in \<lparr>pk_data = (pk_data c)(key \<mapsto> Some a), pk_mem = h\<rparr>
     else c)"

definition update_entry :: "(VolumeMetrics \<Rightarrow> VolumeMetrics) \<Rightarrow> string \<Rightarrow> pointer_cache \<Rightarrow> pointer_cache go_run" where
  "update_entry f key c = (case pointer_at c key of
       None \<Rightarrow> Inl NilDereference
     | Some a \<Rightarrow> Inr (c\<lparr>pk_mem := write_cell a (f (cell_at (pk_mem c) a)) (pk_mem c)\<rparr>))"

definition ptr_setCapacity :: "namespaced_name \<Rightarrow> int \<Rightarrow> pointer_cache \<Rightarrow> pointer_cache go_run" where
  "ptr_setCapacity nn value c = (let key = keyFromNamespacedName nn in
     update_entry (vm_CapacityBytes_update (\<lambda>_. value)) key (ensure_entry key c))"

definition ptr_setAvailable :: "namespaced_name \<Rightarrow> int \<Rightarrow> pointer_cache \<Rightarrow> pointer_cache go_run" where
  "ptr_setAvailable nn value c = (let key = keyFromNamespacedName nn in
     update_entry (vm_AvailableBytes_update (\<lambda>_. value)) key (ensure_entry key c))"

definition ptr_setInodesTotal :: "namespaced_name \<Rightarrow> int \<Rightarrow> pointer_cache \<Rightarrow> pointer_cache go_run" where
  "ptr_setInodesTotal nn value c = (let key = keyFromNamespacedName nn in
     update_entry (vm_InodesTotal_update (\<lambda>_. value)) key (ensure_entry key c))"

definition ptr_setInodesUsed :: "namespaced_name \<Rightarrow> int \<Rightarrow> pointer_cache \<Rightarrow> pointer_cache go_run" where
  "ptr_setInodesUsed nn value c = (let key = keyFromNamespacedName nn in
     update_entry (vm_InodesUsed_update (\<lambda>_. value)) key (ensure_entry key c))"

fun ptr_write :: "cache_write \<Rightarrow> pointer_cache \<Rightarrow> pointer_cache go_run" where
  "ptr_write (Capacity, nn, v) c = ptr_setCapacity nn v c"
| "ptr_write (Available, nn, v) c = ptr_setAvailable nn v c"
| "ptr_write (InodesTotal, nn, v) c = ptr_setInodesTotal nn v c"
| "ptr_write (InodesUsed, nn, v) c = ptr_setInodesUsed nn v c"

primrec ptr_writes :: "cache_write list \<Rightarrow> pointer_cache \<Rightarrow> pointer_cache go_run" where
  "ptr_writes [] c = Inr c"
| "ptr_writes (w # ws) c = try_in (ptr_write w c) (ptr_writes ws)"

text \<open>\<open>for _, vm := range cache.data\<close>, for the keys in the order the iteration takes.\<close>

primrec ptr_calculateUsagePercentages :: "string list \<Rightarrow> pointer_cache \<Rightarrow> pointer_cache go_run" where
  "ptr_calculateUsagePercentages [] c = Inr c"
| "ptr_calculateUsagePercentages (k # ks) c =
    try_in (update_entry usage_of k c) (ptr_calculateUsagePercentages ks)"

definition ptr_Get :: "pointer_cache \<Rightarrow> namespaced_name \<Rightarrow> addr option \<times> bool" where
  "ptr_Get c nn = (let key = keyFromNamespacedName nn in (pointer_at c key, pk_data c key \<noteq> None))"

primrec copy_entries :: "string list \<Rightarrow> pointer_cache \<Rightarrow> (string \<rightharpoonup> addr) \<Rightarrow> (string \<rightharpoonup> addr) \<times> pointer_cache" where
  "copy_entries [] c result = (result, c)"
| "copy_entries (k # ks) c result = (case pointer_at c k of
     None \<Rightarrow> copy_entries ks c result
   | Some v \<Rightarrow> (let (a, h) = new_cell (cell_at (pk_mem c) v) (pk_mem c)
       in copy_entries ks (c\<lparr>pk_mem := h\<rparr>) (result(k \<mapsto> a))))"

definition GetAll :: "string list \<Rightarrow> pointer_cache \<Rightarrow> (string \<rightharpoonup> addr) \<times> pointer_cache" where
  "GetAll keys c = copy_entries keys c Map.empty"

section \<open>Agreement with the cache of values\<close>

definition cache_value :: "pointer_cache \<Rightarrow> MetricsCache" where
  "cache_value c = (\<lambda>k. map_option (cell_at (pk_mem c)) (pointer_at c k))"

text \<open>No entry is nil, every pointer is allocated, and no two keys share an entry.\<close>

definition pointers_ok :: "pointer_cache \<Rightarrow> bool" where
  "pointers_ok c \<longleftrightarrow> (\<forall>k. pk_data c k \<noteq> Some None) \<and>
     (\<forall>k a. pointer_at c k = Some a \<longrightarrow> a \<in> allocated (pk_mem c)) \<and>
     (\<forall>k l a. pointer_at c k = Some a \<longrightarrow> pointer_at c l = Some a \<longrightarrow> k = l)"

text \<open>What a step of the cache leaves alone: allocated cells that are not entries, and where the
  entries that exist are.\<close>

definition entries :: "pointer_cache \<Rightarrow> addr set" where
  "entries c = {a. \<exists>k. pointer_at c k = Some a}"

definition cache_frame :: "pointer_cache \<Rightarrow> pointer_cache \<Rightarrow> bool" where
  "cache_frame c c' \<longleftrightarrow> mem_next (pk_mem c) \<le> mem_next (pk_mem c') \<and>
     (\<forall>k a. pointer_at c k = Some a \<longrightarrow> pointer_at c' k = Some a) \<and>
     entries c' \<subseteq> entries c \<union> fresh_between (pk_mem c) (pk_mem c') \<and>
     same_on (allocated (pk_mem c) - entries c) (pk_mem c) (pk_mem c')"

lemma cache_frame_refl [simp]: "cache_frame c c"
  by (simp add: cache_frame_def same_on_def)

lemma cache_frame_trans:
  assumes "cache_frame c d" and "cache_frame d e"
  shows "cache_frame c e"
proof -
  have "allocated (pk_mem c) - entries c \<subseteq> allocated (pk_mem d) - entries d"
    using assms(1) by (auto simp: cache_frame_def allocated_def fresh_between_def)
  then have "same_on (allocated (pk_mem c) - entries c) (pk_mem c) (pk_mem e)"
    using assms unfolding cache_frame_def same_on_def by (metis (no_types, lifting) subsetD)
  moreover have "entries e \<subseteq> entries c \<union> fresh_between (pk_mem c) (pk_mem e)"
  proof
    fix a
    assume "a \<in> entries e"
    then have "a \<in> entries c \<or> a \<in> fresh_between (pk_mem c) (pk_mem d) \<or> a \<in> fresh_between (pk_mem d) (pk_mem e)"
      using assms by (auto simp: cache_frame_def)
    then show "a \<in> entries c \<union> fresh_between (pk_mem c) (pk_mem e)"
      using assms by (auto simp: cache_frame_def fresh_between_def)
  qed
  ultimately show ?thesis
    using assms by (simp add: cache_frame_def)
qed

lemma pointer_at_simps [simp]:
  "pointer_at (c\<lparr>pk_mem := h\<rparr>) k = pointer_at c k"
  "pointer_at \<lparr>pk_data = (pk_data c)(k \<mapsto> p), pk_mem = h\<rparr> l = (if l = k then p else pointer_at c l)"
  by (simp_all add: pointer_at_def)

lemma ensure_entry_ok:
  assumes "pointers_ok c" and c'_def: "c' = ensure_entry key c"
  shows "pointers_ok c' \<and> cache_frame c c' \<and> pointer_at c' key \<noteq> None \<and>
    cache_value c' = (cache_value c)(key \<mapsto> entry_of (cache_value c) key)"
proof (cases "pointer_at c key")
  case None
  have c': "c' = \<lparr>pk_data = (pk_data c)(key \<mapsto> Some (mem_next (pk_mem c))),
      pk_mem = snd (new_cell zero_metrics (pk_mem c))\<rparr>"
    by (simp add: c'_def ensure_entry_def None new_cell_def)
  have below: "a < mem_next (pk_mem c)" if "pointer_at c k = Some a" for k a
    using assms(1) that by (auto simp: pointers_ok_def allocated_def)
  have "pointers_ok c'"
    using assms(1) below by (fastforce simp: c' pointers_ok_def mem_simps allocated_def)
  moreover have "cache_frame c c'"
    using None by (auto simp: c' cache_frame_def entries_def mem_simps fresh_between_def same_on_def allocated_def
        split: if_splits)
  moreover have "cache_value c' = (cache_value c)(key \<mapsto> entry_of (cache_value c) key)"
    using None below
    by (auto simp: c' cache_value_def entry_of_def fun_eq_iff mem_simps intro!: map_option_cong
        dest!: below)
  ultimately show ?thesis by (simp add: c')
next
  case (Some a)
  then show ?thesis
    using assms(1) by (auto simp: c'_def ensure_entry_def cache_value_def entry_of_def)
qed

lemma update_entry_ok:
  assumes "pointers_ok c" and "pointer_at c key = Some a"
  shows "\<exists>c'. update_entry f key c = Inr c' \<and> pointers_ok c' \<and> cache_frame c c' \<and>
    pk_data c' = pk_data c \<and> cache_value c' = (cache_value c)(key \<mapsto> f (cell_at (pk_mem c) a))"
proof -
  let ?c' = "c\<lparr>pk_mem := write_cell a (f (cell_at (pk_mem c) a)) (pk_mem c)\<rparr>"
  have other: "pointer_at c k \<noteq> Some a" if "k \<noteq> key" for k
    using assms that by (auto simp: pointers_ok_def)
  have "pointers_ok ?c'"
    using assms(1) by (auto simp: pointers_ok_def mem_simps allocated_def)
  moreover have "cache_frame c ?c'"
    using assms(2) by (auto simp: cache_frame_def entries_def mem_simps same_on_def)
  moreover have "cache_value ?c' = (cache_value c)(key \<mapsto> f (cell_at (pk_mem c) a))"
    using assms(2) other by (auto simp: cache_value_def fun_eq_iff mem_simps intro!: map_option_cong)
  moreover have "update_entry f key c = Inr ?c'"
    by (simp add: update_entry_def assms(2))
  ultimately show ?thesis by (intro exI [of _ ?c']) simp
qed

lemma set_entry_ok:
  assumes "pointers_ok c"
  shows "\<exists>c'. update_entry f key (ensure_entry key c) = Inr c' \<and> pointers_ok c' \<and> cache_frame c c' \<and>
    cache_value c' = (cache_value c)(key \<mapsto> f (entry_of (cache_value c) key))"
proof -
  define d where "d = ensure_entry key c"
  note d = ensure_entry_ok [OF assms d_def]
  then obtain a where a: "pointer_at d key = Some a" by auto
  then have "cell_at (pk_mem d) a = entry_of (cache_value c) key"
    using d by (auto simp: cache_value_def [of d] fun_eq_iff dest: spec [of _ key])
  then obtain c' where "update_entry f key d = Inr c'" "pointers_ok c'" "cache_frame d c'"
    "cache_value c' = (cache_value c)(key \<mapsto> f (entry_of (cache_value c) key))"
    using update_entry_ok [of d key a f] a d by auto
  then show ?thesis
    using cache_frame_trans [of c d c'] d by (auto simp: d_def)
qed

lemma ptr_write_ok:
  assumes "pointers_ok c"
  shows "\<exists>c'. ptr_write w c = Inr c' \<and> pointers_ok c' \<and> cache_frame c c' \<and>
    cache_value c' = apply_write w (cache_value c)"
proof (cases w)
  case (fields f nn v)
  show ?thesis
    using set_entry_ok [OF assms, of _ "keyFromNamespacedName nn"]
    by (cases f) (simp_all add: fields ptr_setCapacity_def ptr_setAvailable_def ptr_setInodesTotal_def
        ptr_setInodesUsed_def setCapacity_def setAvailable_def setInodesTotal_def setInodesUsed_def Let_def)
qed

lemma ptr_writes_ok:
  "pointers_ok c \<Longrightarrow> \<exists>c'. ptr_writes ws c = Inr c' \<and> pointers_ok c' \<and> cache_frame c c' \<and>
    cache_value c' = fold apply_write ws (cache_value c)"
proof (induction ws arbitrary: c)
  case Nil
  then show ?case by simp
next
  case (Cons w ws)
  obtain d where d: "ptr_write w c = Inr d" "pointers_ok d" "cache_frame c d"
    "cache_value d = apply_write w (cache_value c)"
    using ptr_write_ok [OF Cons.prems] by blast
  from Cons.IH [OF d(2)] show ?case
    using d(1,3,4) cache_frame_trans by auto
qed

lemma ptr_calculate_ok:
  "pointers_ok c \<Longrightarrow> distinct ks \<Longrightarrow> \<forall>k \<in> set ks. pointer_at c k \<noteq> None \<Longrightarrow>
    \<exists>c'. ptr_calculateUsagePercentages ks c = Inr c' \<and> pointers_ok c' \<and> pk_data c' = pk_data c \<and>
      cache_value c' = (\<lambda>k. if k \<in> set ks then map_option usage_of (cache_value c k) else cache_value c k)"
proof (induction ks arbitrary: c)
  case Nil
  then show ?case by simp
next
  case (Cons k ks)
  then obtain a where a: "pointer_at c k = Some a" by auto
  from update_entry_ok [OF Cons.prems(1) a, of usage_of] obtain d where d: "update_entry usage_of k c = Inr d"
    "pointers_ok d" "pk_data d = pk_data c" "cache_value d = (cache_value c)(k \<mapsto> usage_of (cell_at (pk_mem c) a))"
    by blast
  have "pointer_at d = pointer_at c" using d(3) by (simp add: pointer_at_def fun_eq_iff)
  moreover have "cache_value c k = Some (cell_at (pk_mem c) a)" by (simp add: cache_value_def a)
  ultimately show ?case
    using Cons.IH [OF d(2)] Cons.prems d by (auto simp: fun_eq_iff)
qed

lemma copy_entries_ok:
  assumes "copy_entries ks c r = (m, c')" and "pointers_ok c"
    and "\<And>k a. r k = Some a \<Longrightarrow> a \<in> allocated (pk_mem c) - entries c"
  shows "pk_data c' = pk_data c \<and> pointers_ok c' \<and> cache_value c' = cache_value c \<and>
    (\<forall>k a. m k = Some a \<longrightarrow> a \<in> allocated (pk_mem c') - entries c') \<and>
    (\<forall>k. map_option (cell_at (pk_mem c')) (m k) =
      (if k \<in> set ks \<and> pointer_at c k \<noteq> None then cache_value c k else map_option (cell_at (pk_mem c)) (r k)))"
  using assms
proof (induction ks arbitrary: c r)
  case Nil
  then show ?case by auto
next
  case (Cons k ks)
  show ?case
  proof (cases "pointer_at c k")
    case None
    then show ?thesis using Cons.IH [of c r] Cons.prems by (auto simp: fun_eq_iff)
  next
    case (Some v)
    define d where "d = c\<lparr>pk_mem := snd (new_cell (cell_at (pk_mem c) v) (pk_mem c))\<rparr>"
    let ?n = "mem_next (pk_mem c)"
    have run: "copy_entries ks d (r(k \<mapsto> ?n)) = (m, c')"
      using Cons.prems(1) by (simp add: Some d_def new_cell_def)
    have below: "a < ?n" if "pointer_at c l = Some a" for l a
      using Cons.prems(2) that by (auto simp: pointers_ok_def allocated_def)
    have same: "pk_data d = pk_data c" "pointer_at d = pointer_at c" "entries d = entries c"
      by (simp_all add: d_def fun_eq_iff entries_def)
    have ok: "pointers_ok d"
      using Cons.prems(2) by (auto simp: pointers_ok_def d_def mem_simps allocated_def intro: less_SucI)
    have reads: "cache_value d = cache_value c"
      using below by (auto simp: cache_value_def d_def fun_eq_iff mem_simps intro!: map_option_cong dest: below)
    have fresh: "a \<in> allocated (pk_mem d) - entries d" if "(r(k \<mapsto> ?n)) l = Some a" for l a
      using that Cons.prems(3) [of l a] below
      by (auto simp: same d_def mem_simps allocated_def entries_def split: if_splits)
    have old: "map_option (cell_at (pk_mem d)) (r l) = map_option (cell_at (pk_mem c)) (r l)" for l
      using Cons.prems(3) [of l] by (auto simp: d_def mem_simps allocated_def intro!: map_option_cong)
    have new: "Some (cell_at (pk_mem d) ?n) = cache_value c k"
      by (simp add: d_def mem_simps cache_value_def Some)
    show ?thesis
      using Cons.IH [OF run ok fresh] by (auto simp: same reads old new Some)
  qed
qed

section \<open>Whole runs\<close>

lemma new_cache_ok: "pointers_ok (ptr_NewMetricsCache h)"
  and new_cache_value: "cache_value (ptr_NewMetricsCache h) = NewMetricsCache"
  by (simp_all add: pointers_ok_def pointer_at_def cache_value_def ptr_NewMetricsCache_def
      NewMetricsCache_def fun_eq_iff)

lemma dom_pointers:
  assumes "pointers_ok c"
  shows "k \<in> dom (pk_data c) \<longleftrightarrow> pointer_at c k \<noteq> None"
proof -
  have "pk_data c k \<noteq> Some None" using assms unfolding pointers_ok_def by blast
  then show ?thesis by (auto simp: pointer_at_def split: option.splits)
qed

lemma ptr_calculate_all:
  assumes "pointers_ok c" and "distinct ks" and "set ks = dom (pk_data c)"
  shows "\<exists>c'. ptr_calculateUsagePercentages ks c = Inr c' \<and>
    cache_value c' = calculateUsagePercentages (cache_value c)"
proof -
  have entries: "k \<in> set ks \<longleftrightarrow> pointer_at c k \<noteq> None" for k
    using dom_pointers [OF assms(1)] assms(3) by simp
  then obtain c' where c': "ptr_calculateUsagePercentages ks c = Inr c'"
    "cache_value c' = (\<lambda>k. if k \<in> set ks then map_option usage_of (cache_value c k) else cache_value c k)"
    using ptr_calculate_ok [OF assms(1,2)] by blast
  have "cache_value c' = calculateUsagePercentages (cache_value c)"
    unfolding c'(2) calculateUsagePercentages_def
    by (simp add: fun_eq_iff entries cache_value_def)
  then show ?thesis using c'(1) by simp
qed

lemma getall_snapshot:
  assumes ok: "pointers_ok c" and keys: "set ks = dom (pk_data c)" and all: "GetAll ks c = (m, c1)"
    and later: "ptr_writes ws c1 = Inr c2"
  shows "cache_value c2 = fold apply_write ws (cache_value c) \<and>
    (\<lambda>k. map_option (cell_at (pk_mem c2)) (m k)) = cache_value c \<and>
    (\<forall>nn a. fst (ptr_Get c nn) = Some a \<longrightarrow> Some (cell_at (pk_mem c2) a) = mc_Get (cache_value c2) nn)"
proof (intro conjI allI impI)
  note copy = copy_entries_ok [OF all [unfolded GetAll_def] ok, simplified]
  obtain c3 where "ptr_writes ws c1 = Inr c3" "cache_frame c1 c3"
    "cache_value c3 = fold apply_write ws (cache_value c1)"
    using ptr_writes_ok copy by blast
  then have frame: "cache_frame c1 c2" and reads: "cache_value c2 = fold apply_write ws (cache_value c1)"
    using later by auto
  show "cache_value c2 = fold apply_write ws (cache_value c)"
    using reads copy by simp
  show "(\<lambda>k. map_option (cell_at (pk_mem c2)) (m k)) = cache_value c"
  proof
    fix k
    have "map_option (cell_at (pk_mem c2)) (m k) = map_option (cell_at (pk_mem c1)) (m k)"
      using frame copy by (intro map_option_cong) (auto simp: cache_frame_def same_on_def)
    also have "\<dots> = cache_value c k"
      using copy dom_pointers [OF ok, of k] keys by (auto simp: cache_value_def)
    finally show "map_option (cell_at (pk_mem c2)) (m k) = cache_value c k" .
  qed
  fix nn a
  assume "fst (ptr_Get c nn) = Some a"
  then have "pointer_at c1 (keyFromNamespacedName nn) = Some a"
    using copy by (simp add: ptr_Get_def Let_def pointer_at_def)
  then have "pointer_at c2 (keyFromNamespacedName nn) = Some a"
    using frame by (simp add: cache_frame_def)
  then show "Some (cell_at (pk_mem c2) a) = mc_Get (cache_value c2) nn"
    by (simp add: mc_Get_def cache_value_def)
qed

end
