(* ===== verification/UsageProperties.thy ===== *)
theory UsageProperties
  imports VolumeText NodeFetch KubeletPointers RefCluster
begin

text \<open>
  The properties of the usage the controller decides on (pkg/kubelet)
  and of the log sanitizer (pkg/utils).
\<close>

section \<open>Usage\<close>

text \<open>C28. When the kubelet's figures are consistent, the computed usage is a percentage from 0 to
  100, whatever the rounding of the three floating point operations, and exactly 100 for a full
  volume. The same holds for inodes.\<close>

theorem usage_is_a_percentage:
  assumes "calculateUsagePercentages cache key = Some vm"
    and "0 \<le> vm_AvailableBytes vm" and "vm_AvailableBytes vm \<le> vm_CapacityBytes vm"
    and "0 < vm_CapacityBytes vm" and "vm_CapacityBytes vm \<le> max_int64"
    and "0 \<le> vm_InodesUsed vm" and "vm_InodesUsed vm \<le> vm_InodesTotal vm"
    and "0 < vm_InodesTotal vm" and "vm_InodesTotal vm \<le> max_int64"
  shows "\<exists>u v. vm_UsagePercent vm = FFin u \<and> 0 \<le> u \<and> u \<le> 100 \<and>
    (vm_AvailableBytes vm = 0 \<longrightarrow> u = 100) \<and>
    vm_InodesUsagePercent vm = FFin v \<and> 0 \<le> v \<and> v \<le> 100 \<and>
    vm_UsedBytes vm = vm_CapacityBytes vm - vm_AvailableBytes vm"
proof -
  obtain vm0 where vm: "vm = usage_of vm0"
    using assms(1) by (auto simp: calculateUsagePercentages_def)
  let ?used = "vm_CapacityBytes vm - vm_AvailableBytes vm"
  have pos: "0 < vm_CapacityBytes vm0" "0 < vm_InodesTotal vm0"
    using assms(4,8) unfolding vm by (simp_all add: usage_of_fields(3,5))
  have used: "wrap64 ?used = ?used"
    using assms(2-5) by (intro wrap64_id) (simp add: in_int64_def min_int64_def)
  have u: "vm_UsagePercent vm = percent_of ?used (vm_CapacityBytes vm)" "vm_UsedBytes vm = ?used"
    using usage_of_fields(1) [OF pos(1)] used unfolding vm by (simp_all add: usage_of_fields(3,4))
  have i: "vm_InodesUsagePercent vm = percent_of (vm_InodesUsed vm) (vm_InodesTotal vm)"
    using usage_of_fields(2) [OF pos(2)] unfolding vm by (simp add: usage_of_fields(5,6))
  have "\<exists>x. percent_of ?used (vm_CapacityBytes vm) = FFin x \<and> 0 \<le> x \<and> x \<le> 100"
    using assms(2-5) by (intro percent_of_bounds) simp_all
  moreover have "\<exists>x. percent_of (vm_InodesUsed vm) (vm_InodesTotal vm) = FFin x \<and> 0 \<le> x \<and> x \<le> 100"
    using assms(6-9) by (intro percent_of_bounds) simp_all
  moreover have "vm_AvailableBytes vm = 0 \<Longrightarrow> percent_of ?used (vm_CapacityBytes vm) = FFin 100"
    using percent_of_full [OF assms(4,5)] by simp
  ultimately show ?thesis using u i by auto
qed

definition sample_volume :: VolumeMetrics where
  "sample_volume = zero_metrics\<lparr>vm_CapacityBytes := 1000, vm_AvailableBytes := 0, vm_InodesTotal := 30, vm_InodesUsed := 10\<rparr>"

theorem usage_is_a_percentage_witness: "vm_UsagePercent (usage_of sample_volume) = FFin 100"
proof -
  let ?c = "[''a/b'' \<mapsto> sample_volume]"
  have "calculateUsagePercentages ?c ''a/b'' = Some (usage_of sample_volume)"
    by (simp add: calculateUsagePercentages_def)
  from usage_is_a_percentage [OF this] show ?thesis
    by (auto simp: usage_of_fields(3-6)) (simp_all add: sample_volume_def max_int64_def)
qed

text \<open>Usage is monotone: of two volumes of one size the one with less space left has at least
  the usage of the other, so a threshold that is reached stays reached while a volume fills.\<close>

lemma usage_monotone:
  assumes "vm_CapacityBytes a = vm_CapacityBytes b" and "0 < vm_CapacityBytes b"
    and "vm_CapacityBytes b \<le> max_int64" and "0 \<le> vm_AvailableBytes b"
    and "vm_AvailableBytes b \<le> vm_AvailableBytes a" and "vm_AvailableBytes a \<le> vm_CapacityBytes a"
  shows "f_le (vm_UsagePercent (usage_of a)) (vm_UsagePercent (usage_of b))"
proof -
  have w: "wrap64 (vm_CapacityBytes a - vm_AvailableBytes a) = vm_CapacityBytes a - vm_AvailableBytes a"
    "wrap64 (vm_CapacityBytes b - vm_AvailableBytes b) = vm_CapacityBytes b - vm_AvailableBytes b"
    using assms by (auto intro!: wrap64_id simp: in_int64_def min_int64_def)
  have "f_le (percent_of (vm_CapacityBytes b - vm_AvailableBytes a) (vm_CapacityBytes b))
      (percent_of (vm_CapacityBytes b - vm_AvailableBytes b) (vm_CapacityBytes b))"
    using assms by (intro percent_of_mono) simp_all
  then show ?thesis
    using usage_of_fields(1) [of a] usage_of_fields(1) [of b] assms(1,2) w by simp
qed

text \<open>Whatever a kubelet prints: if its text yields the usage of a volume then the usage is a
  percentage from 0 to 100, for bytes and for inodes, the space used is not negative, and figures
  that do not contradict each other give what the cache computes from the same figures.\<close>

lemma text_usage_is_a_percentage:
  assumes "parseVolumeMetrics metricsText nn = Inr vm"
  shows "\<exists>u v. vm_UsagePercent vm = FFin u \<and> 0 \<le> u \<and> u \<le> 100 \<and>
    vm_InodesUsagePercent vm = FFin v \<and> 0 \<le> v \<and> v \<le> 100 \<and>
    0 < vm_CapacityBytes vm \<and> 0 < vm_AvailableBytes vm \<and>
    vm_UsedBytes vm = max 0 (vm_CapacityBytes vm - vm_AvailableBytes vm) \<and>
    (vm_AvailableBytes vm \<le> vm_CapacityBytes vm \<and> vm_InodesUsed vm \<le> vm_InodesTotal vm \<longrightarrow>
      usage_of (zero_metrics\<lparr>vm_CapacityBytes := vm_CapacityBytes vm, vm_AvailableBytes := vm_AvailableBytes vm,
        vm_InodesTotal := vm_InodesTotal vm, vm_InodesUsed := vm_InodesUsed vm\<rparr>) = vm)"
proof -
  obtain fg where fg: "parse_lines nn (scan_lines metricsText) no_figures = Inr fg"
    and vm: "vm = figures_metrics fg" and found: "fig_capacity fg \<noteq> 0" "fig_available fg \<noteq> 0"
    using assms by (auto simp: parseVolumeMetrics_def try_in_Inr split: if_splits)
  have "figures_ok no_figures" by (simp add: figures_ok_def no_figures_def max_int64_def)
  from parse_lines_ok [OF fg this] have ok: "figures_ok fg" .
  then have "\<exists>u. vm_UsagePercent vm = FFin u \<and> 0 \<le> u \<and> u \<le> 100"
    and "\<exists>v. vm_InodesUsagePercent vm = FFin v \<and> 0 \<le> v \<and> v \<le> 100"
    unfolding vm using figures_metrics_bounds [OF _ found(1)] by simp_all
  moreover have "0 < fig_capacity fg" "0 < fig_available fg"
    using ok found by (auto simp: figures_ok_def)
  moreover from this have "vm_UsedBytes vm = max 0 (vm_CapacityBytes vm - vm_AvailableBytes vm)"
    using ok unfolding vm by (intro figures_metrics_used)
  ultimately show ?thesis
    using figures_metrics_usage_of [of fg] unfolding vm by auto
qed

definition sample_figures :: volume_figures where
  "sample_figures = \<lparr>fig_capacity = 1073741824, fig_available = 536870912, fig_inodesTotal = 65536, fig_inodesUsed = 32768\<rparr>"

definition sample_claim :: namespaced_name where
  "sample_claim = \<lparr>nn_namespace = ''test-ns'', nn_name = ''test-pvc''\<rparr>"

lemma sample_volume_ok: "volume_ok (sample_claim, sample_figures)"
  by (simp add: volume_ok_def sample_claim_def sample_figures_def plain_name_def unquoted_def in_line_def
      figures_ok_def max_int64_def)

lemma sample_text: "parseVolumeMetrics (volumes_text [(sample_claim, sample_figures)]) sample_claim =
    Inr (figures_metrics sample_figures)"
  using sample_volume_ok by (subst parse_volumes_text) (simp_all add: sample_figures_def)



text \<open>With inconsistent figures there is no clamp: a volume that reports more space available
  than it has gets a negative usage.\<close>

lemma usage_can_be_negative:
  "vm_UsagePercent (usage_of (zero_metrics\<lparr>vm_CapacityBytes := 1, vm_AvailableBytes := 2\<rparr>)) = FFin (- 100)"
  by code_simp

section \<open>The cache\<close>

text \<open>Entries do not clash: as a namespace cannot contain a slash, a value written for one
  claim is never seen by another.\<close>

lemma entries_separate:
  assumes "CHR ''/'' \<notin> set (nn_namespace a)" and "CHR ''/'' \<notin> set (nn_namespace b)" and "a \<noteq> b"
  shows "mc_Get (apply_write (f, a, v) cache) b = mc_Get cache b"
  using assms key_inject [of a b] by (simp add: apply_write_eq mc_Get_def write_key_def)

text \<open>C27. Determinism: when the nodes agree, as they do when no claim is reported by two of them or
  those that report one report the same figures, every interleaving of the goroutines that scrape
  the nodes leaves the cache that scraping them one after the other does.\<close>

theorem fetch_deterministic:
  assumes "fetchAllNodeMetrics oob (scrape_node E mc) (Inr nodes) c (Inr m)"
    and "agreeing (map (\<lambda>n. node_writes oob (node_ok (scrape_node E mc) n)) nodes)"
  shows "fetch_each oob E mc nodes c = Inr m"
  using assms(1) unfolding fetch_each_in_order
proof (cases rule: fetchAllNodeMetrics.cases)
  case (fetched ws)
  then show "fetch_nodes_in_order oob (scrape_node E mc) nodes c = Inr m"
    using in_order_ok [of nodes "scrape_node E mc" oob c] interleaving_confluent [OF fetched(4) assms(2), of c]
    by simp
qed

text \<open>A cluster in which the text of a node is its name, and names a claim of 7 bytes.\<close>

definition scrape_sample :: scrape_env where
  "scrape_sample = \<lparr>se_new_request = (\<lambda>url. None),
     se_do = (\<lambda>n url. Inr \<lparr>resp_StatusCode = 200, resp_Body = Inr ''x''\<rparr>), se_proxy = Inr,
     se_families = (\<lambda>text. Inr [family_of Capacity \<mapsto>
       [\<lparr>dm_labels = [(''namespace'', ''a''), (''persistentvolumeclaim'', text)], dm_gauge = Some (FFin 7)\<rparr>]])\<rparr>"

definition sample_collector :: MetricsCollector where
  "sample_collector = \<lparr>coll_kubeletURL = '''', coll_httpTimeout = 30 * second\<rparr>"

lemma sample_writes: "se_families scrape_sample text = Inr fams \<Longrightarrow> node_writes amd64_oob fams =
    (if text = '''' then [] else [(Capacity, \<lparr>nn_namespace = ''a'', nn_name = text\<rparr>, 7)])"
  by (auto simp: node_writes_def family_writes_def scrape_sample_def family_of_def
      parseMetric_def f_to_int64_def rat_trunc_def in_int64_def min_int64_def max_int64_def)

lemma sample_scrape:
  "\<exists>fams. se_families scrape_sample n = Inr fams"
  "se_families scrape_sample n = Inr fams \<Longrightarrow> scrape_node scrape_sample sample_collector n = Inr fams"
  by (simp_all add: scrape_node_def sample_collector_def scrape_sample_def)

theorem fetch_deterministic_witness:
  "\<exists>m. fetchAllNodeMetrics amd64_oob (scrape_node scrape_sample sample_collector) (Inr [''x'', ''y'']) NewMetricsCache (Inr m) \<and>
    fetch_each amd64_oob scrape_sample sample_collector [''x'', ''y''] NewMetricsCache = Inr m"
proof -
  let ?scrape = "scrape_node scrape_sample sample_collector"
  let ?xss = "map (\<lambda>n. node_writes amd64_oob (node_ok ?scrape n)) [''x'', ''y'']"
  have "fetchAllNodeMetrics amd64_oob ?scrape (Inr [''x'', ''y'']) NewMetricsCache
      (Inr (fold apply_write (concat ?xss) NewMetricsCache))"
    by (rule fetchAllNodeMetrics.fetched)
      (use concat_interleaving [of ?xss] sample_scrape in \<open>auto, blast+\<close>)
  moreover have "node_writes amd64_oob (node_ok ?scrape n) =
      (if n = '''' then [] else [(Capacity, \<lparr>nn_namespace = ''a'', nn_name = n\<rparr>, 7)])" for n
    using sample_scrape [of n] sample_writes [of n] by (auto simp: node_ok_def)
  then have "agreeing ?xss" by (simp add: agree_def write_key_def keyFromNamespacedName_def)
  ultimately show ?thesis using fetch_deterministic by blast
qed

text \<open>C10. The cache of pointers the code keeps is the cache of values of the theory \<open>Kubelet\<close>: after
  any setters, in any order of the final loop over the map, no nil pointer is dereferenced and
  every key reads as there. \<open>GetAll\<close> gives copies, which no later setter changes, while the pointer
  \<open>Get\<close> gives is the entry itself, through which every later setter is seen.\<close>

theorem pointer_cache_refines:
  assumes "ptr_writes ws (ptr_NewMetricsCache h) = r" and "v = fold apply_write ws NewMetricsCache"
  shows "\<exists>c. r = Inr c \<and> cache_value c = v \<and>
    (\<forall>keys. distinct keys \<and> set keys = dom (pk_data c) \<longrightarrow>
      (\<exists>c'. ptr_calculateUsagePercentages keys c = Inr c' \<and> cache_value c' = calculateUsagePercentages v)) \<and>
    (\<forall>keys m c1 ws' c2. set keys = dom (pk_data c) \<and> GetAll keys c = (m, c1) \<and> ptr_writes ws' c1 = Inr c2 \<longrightarrow>
      cache_value c2 = fold apply_write ws' v \<and>
      (\<lambda>k. map_option (cell_at (pk_mem c2)) (m k)) = v \<and>
      (\<forall>nn a. fst (ptr_Get c nn) = Some a \<longrightarrow> Some (cell_at (pk_mem c2) a) = mc_Get (cache_value c2) nn))"
proof -
  obtain c where c: "r = Inr c" "pointers_ok c" "cache_value c = v"
    using ptr_writes_ok [OF new_cache_ok, of ws h] assms by (auto simp: new_cache_value)
  then have "\<exists>c'. ptr_calculateUsagePercentages keys c = Inr c' \<and> cache_value c' = calculateUsagePercentages v"
    if "distinct keys" "set keys = dom (pk_data c)" for keys
    using that ptr_calculate_all by blast
  moreover have "cache_value c2 = fold apply_write ws' v \<and>
      (\<lambda>k. map_option (cell_at (pk_mem c2)) (m k)) = v \<and>
      (\<forall>nn a. fst (ptr_Get c nn) = Some a \<longrightarrow> Some (cell_at (pk_mem c2) a) = mc_Get (cache_value c2) nn)"
    if "set keys = dom (pk_data c)" "GetAll keys c = (m, c1)" "ptr_writes ws' c1 = Inr c2" for keys m c1 ws' c2
    using getall_snapshot [OF c(2) that] unfolding c(3) .
  ultimately show ?thesis using c by blast
qed

theorem pointer_cache_refines_witness:
  "\<exists>c. ptr_writes [(Capacity, sample_claim, 7)] (ptr_NewMetricsCache \<lparr>mem_next = 0, mem_cells = (\<lambda>_. zero_metrics)\<rparr>) = Inr c \<and>
    mc_Get (cache_value c) sample_claim = Some (zero_metrics\<lparr>vm_CapacityBytes := 7\<rparr>)"
  using pointer_cache_refines [OF refl refl, of "[(Capacity, sample_claim, 7)]"
      "\<lparr>mem_next = 0, mem_cells = (\<lambda>_. zero_metrics)\<rparr>"]
  by (auto simp: mc_Get_def setCapacity_def entry_of_def NewMetricsCache_def)

text \<open>A custom kubelet URL takes the place of every node: however many nodes there are and
  however their goroutines interleave, when the URL answers all of them with one text in which no
  figure is given twice with different values, fetching succeeds with the volumes of that text,
  each counted once.\<close>

lemma custom_url_counts_once:
  assumes "coll_kubeletURL mc \<noteq> ''''" and "nodes \<noteq> []"
    and "se_new_request E (coll_kubeletURL mc @ ''/metrics'') = None"
    and "\<forall>n \<in> set nodes. se_do E n (coll_kubeletURL mc @ ''/metrics'') =
      Inr \<lparr>resp_StatusCode = StatusOK, resp_Body = Inr text\<rparr>"
    and "se_families E text = Inr fams"
    and "agree (node_writes oob fams) (node_writes oob fams)"
  shows "GetAllVolumeMetrics oob (scrape_node E mc) (Inr nodes) r \<longleftrightarrow>
    r = Inr (calculateUsagePercentages (fold apply_write (node_writes oob fams) NewMetricsCache))"
proof -
  have "scrape_node E mc n = Inr fams" if "n \<in> set nodes" for n
    using assms(1,3-5) that by (intro custom_scrape) auto
  from same_text_once [OF assms(2) this assms(6)] show ?thesis
    by (auto simp: GetAllVolumeMetrics_def)
qed

text \<open>An answer with any other status is an error of the whole fetch, whatever its body holds.\<close>

lemma custom_url_status_fails:
  assumes "coll_kubeletURL mc \<noteq> ''''" and "se_new_request E (coll_kubeletURL mc @ ''/metrics'') = None"
    and "n \<in> set nodes" and "se_do E n (coll_kubeletURL mc @ ''/metrics'') = Inr resp"
    and "resp_StatusCode resp \<noteq> StatusOK"
  shows "\<not> GetAllVolumeMetrics oob (scrape_node E mc) (Inr nodes) (Inr c)"
  using custom_status [OF assms(1,2,4,5)] assms(3)
  by (auto simp: GetAllVolumeMetrics_def elim!: fetchAllNodeMetrics.cases split: sum.splits)

section \<open>Log sanitizing\<close>

text \<open>C39. Sanitized text holds no line feed, carriage return, escape or other unprintable ASCII
  byte, whatever bytes came in; it is the printable runes of the input in order, and sanitizing
  it again changes nothing.\<close>

theorem sanitized_text:
  "list_all (\<lambda>c. 128 \<le> (of_char c :: int) \<or> of_char c \<noteq> (10 :: int) \<and> of_char c \<noteq> (13 :: int) \<and>
      of_char c \<noteq> (27 :: int) \<and> IsPrint (of_char c)) (SanitizeForLogging IsPrint s) \<and>
   runes (SanitizeForLogging IsPrint s) = filter (keep_rune IsPrint) (runes s) \<and>
   SanitizeForLogging IsPrint (SanitizeForLogging IsPrint s) = SanitizeForLogging IsPrint s"
proof (intro conjI)
  show "list_all (\<lambda>c. 128 \<le> (of_char c :: int) \<or> of_char c \<noteq> (10 :: int) \<and> of_char c \<noteq> (13 :: int) \<and>
      of_char c \<noteq> (27 :: int) \<and> IsPrint (of_char c)) (SanitizeForLogging IsPrint s)"
    using sanitize_bytes [of _ IsPrint s] unfolding list_all_iff keep_rune_def by (meson not_le)
  show r: "runes (SanitizeForLogging IsPrint s) = filter (keep_rune IsPrint) (runes s)"
    by (rule sanitize_runes)
  show "SanitizeForLogging IsPrint (SanitizeForLogging IsPrint s) = SanitizeForLogging IsPrint s"
    unfolding SanitizeForLogging_def [of IsPrint "SanitizeForLogging IsPrint s"] r
    by (simp add: SanitizeForLogging_def)
qed

end
