(* ===== verification/GroupLocks.thy ===== *)
theory GroupLocks
  imports Prelude
begin

text \<open>
  The lock table of PVCGroupReconciler (\<open>statusLocks\<close>, a \<open>sync.Map\<close> from keys to mutexes) under
  concurrent reconciliations. Each call of the maps and of a mutex is one atomic step; the
  reconciliation itself is the time between \<open>lock\<close> and the first deferred call. A deferred call
  runs in the reverse of its registration, so \<open>Delete\<close> (registered last) precedes \<open>Unlock\<close>.
\<close>

section \<open>State and steps\<close>

type_synonym mutex = nat
type_synonym thread = nat

datatype lock_phase =
    Idle
  | Waiting string mutex \<comment> \<open>has the mutex of its key, before \<open>Lock\<close> returns\<close>
  | Inside string mutex \<comment> \<open>reconciling\<close>
  | Deleting string mutex \<comment> \<open>the group is gone: the deferred \<open>Delete\<close> is next\<close>
  | Unlocking string mutex \<comment> \<open>the deferred \<open>Unlock\<close> is next\<close>

record lock_state =
  ls_table :: "string \<rightharpoonup> mutex"
  ls_next :: mutex
  ls_owner :: "mutex \<rightharpoonup> thread"
  ls_phase :: "thread \<Rightarrow> lock_phase"

definition initial_locks :: lock_state where
  "initial_locks = \<lparr>ls_table = Map.empty, ls_next = 0, ls_owner = Map.empty, ls_phase = (\<lambda>_. Idle)\<rparr>"

datatype lock_event = LoadOrStore thread string | Lock thread | Return thread | NotFoundReturn thread
  | Delete thread | Unlock thread

text \<open>One step of a thread, None when it cannot take it now.\<close>

fun lock_exec :: "lock_event \<Rightarrow> lock_state \<Rightarrow> lock_state option" where
  "lock_exec (LoadOrStore t key) s =
     (if ls_phase s t \<noteq> Idle then None
      else case ls_table s key of
        Some m \<Rightarrow> Some (s\<lparr>ls_phase := (ls_phase s)(t := Waiting key m)\<rparr>)
      | None \<Rightarrow> Some (s\<lparr>ls_table := (ls_table s)(key \<mapsto> ls_next s), ls_next := Suc (ls_next s),
                       ls_phase := (ls_phase s)(t := Waiting key (ls_next s))\<rparr>))"
| "lock_exec (Lock t) s =
     (case ls_phase s t of
        Waiting key m \<Rightarrow>
          if ls_owner s m = None then
            Some (s\<lparr>ls_owner := (ls_owner s)(m \<mapsto> t), ls_phase := (ls_phase s)(t := Inside key m)\<rparr>)
          else None
      | _ \<Rightarrow> None)"
| "lock_exec (Return t) s =
     (case ls_phase s t of
        Inside key m \<Rightarrow> Some (s\<lparr>ls_phase := (ls_phase s)(t := Unlocking key m)\<rparr>)
      | _ \<Rightarrow> None)"
| "lock_exec (NotFoundReturn t) s =
     (case ls_phase s t of
        Inside key m \<Rightarrow> Some (s\<lparr>ls_phase := (ls_phase s)(t := Deleting key m)\<rparr>)
      | _ \<Rightarrow> None)"
| "lock_exec (Delete t) s =
     (case ls_phase s t of
        Deleting key m \<Rightarrow> Some (s\<lparr>ls_table := (ls_table s)(key := None),
                               ls_phase := (ls_phase s)(t := Unlocking key m)\<rparr>)
      | _ \<Rightarrow> None)"
| "lock_exec (Unlock t) s =
     (case ls_phase s t of
        Unlocking key m \<Rightarrow> Some (s\<lparr>ls_owner := (ls_owner s)(m := None),
                                ls_phase := (ls_phase s)(t := Idle)\<rparr>)
      | _ \<Rightarrow> None)"

inductive lock_step :: "lock_state \<Rightarrow> lock_event \<Rightarrow> lock_state \<Rightarrow> bool" where
  exec: "lock_exec e s = Some s' \<Longrightarrow> lock_step s e s'"

inductive_simps lock_step_iff: "lock_step s e s'"

text \<open>Runs, with their events.\<close>

inductive lock_run :: "lock_event list \<Rightarrow> lock_state \<Rightarrow> bool" where
  start: "lock_run [] initial_locks"
| step: "lock_run tr s \<Longrightarrow> lock_step s e s' \<Longrightarrow> lock_run (tr @ [e]) s'"

section \<open>Mutual exclusion\<close>

text \<open>The key and the mutex a thread is inside of, until it has unlocked.\<close>

fun held :: "lock_phase \<Rightarrow> (string \<times> mutex) option" where
  "held Idle = None"
| "held (Waiting key m) = None"
| "held (Inside key m) = Some (key, m)"
| "held (Deleting key m) = Some (key, m)"
| "held (Unlocking key m) = Some (key, m)"

text \<open>The phases whose table entry must be the mutex they use.\<close>

fun using_mutex :: "lock_phase \<Rightarrow> (string \<times> mutex) option" where
  "using_mutex Idle = None"
| "using_mutex (Waiting key m) = Some (key, m)"
| "using_mutex (Inside key m) = Some (key, m)"
| "using_mutex (Deleting key m) = Some (key, m)"
| "using_mutex (Unlocking key m) = Some (key, m)"

definition inside :: "lock_state \<Rightarrow> thread \<Rightarrow> string \<Rightarrow> bool" where
  "inside s t key \<longleftrightarrow> (\<exists>m. ls_phase s t = Inside key m)"

text \<open>Each mutex is held by its owner only: this survives everything.\<close>

definition owner_inv :: "lock_state \<Rightarrow> bool" where
  "owner_inv s \<longleftrightarrow> (\<forall>t m. (\<exists>key. held (ls_phase s t) = Some (key, m)) \<longleftrightarrow> ls_owner s m = Some t)"

lemma owner_inv_phase:
  assumes "owner_inv s" and "ls_owner s' = ls_owner s" and "ls_phase s' = (ls_phase s)(t := q)"
    and "held q = held (ls_phase s t)"
  shows "owner_inv s'"
proof -
  have "held (ls_phase s' u) = held (ls_phase s u)" for u using assms(3,4) by simp
  then show ?thesis using assms(1,2) by (simp add: owner_inv_def)
qed

lemma silent_phase:
  assumes "lock_exec e s = Some s'"
  shows "(\<exists>t. e = Lock t \<or> e = Unlock t) \<or>
    (\<exists>t q. ls_owner s' = ls_owner s \<and> ls_phase s' = (ls_phase s)(t := q) \<and> held q = held (ls_phase s t))"
  using assms by (cases e) (fastforce split: lock_phase.splits if_splits option.splits)+

lemma owner_inv_step:
  assumes "owner_inv s" and "lock_exec e s = Some s'"
  shows "owner_inv s'"
proof (cases e)
  case (Lock t)
  with assms(2) obtain key m where p: "ls_phase s t = Waiting key m" and "ls_owner s m = None"
    and s': "s' = s\<lparr>ls_owner := (ls_owner s)(m \<mapsto> t), ls_phase := (ls_phase s)(t := Inside key m)\<rparr>"
    by (auto split: lock_phase.splits if_splits)
  then have no: "held (ls_phase s u) \<noteq> Some (k, m)" for u k
    using assms(1) unfolding owner_inv_def by (metis option.distinct(1))
  have "ls_owner s m' \<noteq> Some t" for m'
    using assms(1) p unfolding owner_inv_def by (metis held.simps(2) option.distinct(1))
  with assms(1) p no show ?thesis by (auto simp: owner_inv_def s')
next
  case (Unlock t)
  with assms(2) obtain key m where p: "ls_phase s t = Unlocking key m"
    and s': "s' = s\<lparr>ls_owner := (ls_owner s)(m := None), ls_phase := (ls_phase s)(t := Idle)\<rparr>"
    by (auto split: lock_phase.splits)
  then have "ls_owner s m = Some t"
    using assms(1) unfolding owner_inv_def by (metis held.simps(5))
  moreover have "m' = m" if "ls_owner s m' = Some t" for m'
    using assms(1) p that unfolding owner_inv_def by (metis held.simps(5) option.inject prod.inject)
  ultimately have mine: "ls_owner s m' = Some t \<longleftrightarrow> m' = m" for m' by blast
  show ?thesis unfolding owner_inv_def
  proof (intro allI)
    fix u m'
    have "(\<exists>key. held (ls_phase s u) = Some (key, m')) \<longleftrightarrow> ls_owner s m' = Some u"
      using assms(1) by (simp add: owner_inv_def)
    then show "(\<exists>key. held (ls_phase s' u) = Some (key, m')) \<longleftrightarrow> ls_owner s' m' = Some u"
      using mine [of m'] by (cases "u = t"; cases "m' = m") (simp_all add: s')
  qed
qed (use silent_phase [OF assms(2)] owner_inv_phase [OF assms(1)] in \<open>blast+\<close>)

lemma owner_inv_run: "lock_run tr s \<Longrightarrow> owner_inv s"
proof (induction rule: lock_run.induct)
  case start
  then show ?case by (simp add: owner_inv_def initial_locks_def)
next
  case (step tr s e s')
  then show ?case by (auto simp: lock_step_iff intro: owner_inv_step)
qed

lemma mutex_exclusive:
  "owner_inv s \<Longrightarrow> held (ls_phase s t) = Some (k, m) \<Longrightarrow> held (ls_phase s u) = Some (k', m) \<Longrightarrow> t = u"
  unfolding owner_inv_def by (metis option.inject)

text \<open>While no group is deleted, all threads of a key use the table's mutex.\<close>

definition table_inv :: "lock_state \<Rightarrow> bool" where
  "table_inv s \<longleftrightarrow> (\<forall>t key m. using_mutex (ls_phase s t) = Some (key, m) \<longrightarrow> ls_table s key = Some m)"

lemma table_inv_phase:
  assumes "table_inv s" and "using_mutex q = using_mutex (ls_phase s t)"
    and "ls_table s' = ls_table s" and "ls_phase s' = (ls_phase s)(t := q)"
  shows "table_inv s'"
proof -
  have "using_mutex (ls_phase s' u) = using_mutex (ls_phase s u)" for u using assms by simp
  then show ?thesis using assms(1,3) by (simp add: table_inv_def)
qed

fun is_delete :: "lock_event \<Rightarrow> bool" where
  "is_delete (Delete t) = True"
| "is_delete e = False"

lemma table_silent:
  assumes "lock_exec e s = Some s'" and "\<not> is_delete e"
  shows "(\<exists>t key. e = LoadOrStore t key) \<or> (\<exists>t. e = Unlock t) \<or>
    (\<exists>t q. ls_table s' = ls_table s \<and> ls_phase s' = (ls_phase s)(t := q) \<and>
      using_mutex q = using_mutex (ls_phase s t))"
  using assms by (cases e) (fastforce split: lock_phase.splits if_splits)+

lemma table_inv_store:
  assumes "table_inv s" and "lock_exec (LoadOrStore t key) s = Some s'"
  shows "table_inv s'"
  using assms by (auto simp: table_inv_def split: if_splits option.splits)

lemma table_inv_unlock:
  assumes "table_inv s" and "lock_exec (Unlock t) s = Some s'"
  shows "table_inv s'"
  using assms by (auto simp: table_inv_def split: lock_phase.splits if_splits)

lemma table_inv_step:
  assumes "table_inv s" and "lock_exec e s = Some s'" and "\<not> is_delete e"
  shows "table_inv s'"
  using table_silent [OF assms(2,3)] table_inv_phase [OF assms(1)]
    table_inv_store [OF assms(1)] table_inv_unlock [OF assms(1)] assms(2)
  by blast

lemma table_inv_run: "lock_run tr s \<Longrightarrow> \<forall>e \<in> set tr. \<not> is_delete e \<Longrightarrow> table_inv s"
proof (induction rule: lock_run.induct)
  case start
  then show ?case by (simp add: table_inv_def initial_locks_def)
next
  case (step tr s e s')
  then show ?case by (auto simp: lock_step_iff intro: table_inv_step)
qed

lemma held_using: "held p = Some km \<Longrightarrow> using_mutex p = Some km"
  by (cases p) auto

lemma no_delete_exclusive:
  assumes "lock_run tr s" and "\<forall>e \<in> set tr. \<not> is_delete e"
    and "inside s t key" and "inside s u key"
  shows "t = u"
proof -
  obtain m m' where p: "ls_phase s t = Inside key m" "ls_phase s u = Inside key m'"
    using assms(3,4) by (auto simp: inside_def)
  then have "ls_table s key = Some m" "ls_table s key = Some m'"
    using table_inv_run [OF assms(1,2)] unfolding table_inv_def by (metis using_mutex.simps(3))+
  then have "m' = m" by simp
  then show ?thesis
    using p mutex_exclusive [OF owner_inv_run [OF assms(1)]] by (metis held.simps(3))
qed

text \<open>Running a list of events.\<close>

fun lock_execs :: "lock_event list \<Rightarrow> lock_state \<Rightarrow> lock_state option" where
  "lock_execs [] s = Some s"
| "lock_execs (e # es) s = (case lock_exec e s of None \<Rightarrow> None | Some s' \<Rightarrow> lock_execs es s')"

lemma lock_execs_run: "lock_execs es s = Some s' \<Longrightarrow> lock_run tr s \<Longrightarrow> lock_run (tr @ es) s'"
proof (induction es arbitrary: tr s)
  case (Cons e es)
  from Cons.prems(1) obtain s1 where e: "lock_exec e s = Some s1" and es: "lock_execs es s1 = Some s'"
    by (auto split: option.splits)
  have "lock_run (tr @ [e]) s1" using Cons.prems(2) exec [OF e] by (rule lock_run.step)
  from Cons.IH [OF es this] show ?case by simp
qed simp

definition race :: "lock_event list" where
  "race = [LoadOrStore 1 ''ns/g'', LoadOrStore 2 ''ns/g'', Lock 1, NotFoundReturn 1, Delete 1, Unlock 1,
           Lock 2, LoadOrStore 3 ''ns/g'', Lock 3]"

lemma race_runs:
  "\<exists>s. lock_run race s \<and> inside s 2 ''ns/g'' \<and> inside s 3 ''ns/g''"
proof -
  obtain s where s: "lock_execs race initial_locks = Some s"
    and i: "inside s 2 ''ns/g''" "inside s 3 ''ns/g''"
    by (simp add: race_def initial_locks_def inside_def)
  from lock_execs_run [OF s lock_run.start] i show ?thesis by auto
qed

end
