(* ===== verification/ConcurrencyProperties.thy ===== *)
theory ConcurrencyProperties
  imports GroupLocks Semaphores
begin

text \<open>
  The properties of the two synchronisation schemes of internal/controller: the lock table of
  the group controller and the semaphores.
\<close>

section \<open>The lock table\<close>

text \<open>C34. As long as no group has been deleted, at most one thread at a time reconciles a group. The
  condition is needed: the deferred \<open>Delete\<close> of the table entry runs before the deferred \<open>Unlock\<close>,
  so that after a deletion a thread that still holds the old mutex and one that got a fresh one
  reconcile the same group at the same time.\<close>

theorem one_reconciliation_per_group:
  assumes "lock_run tr s" and "\<forall>e \<in> set tr. \<not> is_delete e" and "inside s t key" and "inside s u key"
  shows "t = u \<and> (\<exists>s'. lock_run race s' \<and> inside s' 2 ''ns/g'' \<and> inside s' 3 ''ns/g'')"
  using no_delete_exclusive [OF assms] race_runs by simp

theorem one_reconciliation_per_group_witness:
  "\<exists>s. lock_run [LoadOrStore 1 ''ns/g'', Lock 1] s \<and> inside s 1 ''ns/g'' \<and> \<not> inside s 2 ''ns/g''"
proof -
  let ?tr = "[LoadOrStore 1 ''ns/g'', Lock 1]"
  obtain s where s: "lock_execs ?tr initial_locks = Some s" and i: "inside s 1 ''ns/g''"
    by (simp add: initial_locks_def inside_def)
  have run: "lock_run ?tr s" using lock_execs_run [OF s lock_run.start] by simp
  have "\<not> inside s 2 ''ns/g''"
    using one_reconciliation_per_group [OF run, of 1 "''ns/g''" 2] i by auto
  with run i show ?thesis by blast
qed

section \<open>The semaphores\<close>

text \<open>C35. No more workers run than the channel has slots, the channel holds one item per running
  worker, and the wait group counts the workers that have not finished. And a cycle ends: with the number of slots \<open>Start\<close> ensures, while a worker has not finished
  some worker can step, every step brings the cycle nearer to its end and sets no worker back, so
  that a claim is reconciled once; and where no step is left the wait group is at zero, so
  \<open>Wait\<close> returns.\<close>

theorem cycle_terminates:
  assumes "sem_reach (nat (start_max_parallel k)) n s"
  shows "(sem_wait s = 0 \<or> (\<exists>s'. sem_step (nat (start_max_parallel k)) s s')) \<and>
    (\<forall>s'. sem_step (nat (start_max_parallel k)) s s' \<longrightarrow> sem_rest s' < sem_rest s \<and>
      list_all2 (\<le>) (sem_workers s) (sem_workers s')) \<and>
    sem_rest s \<le> 3 * n \<and> working (sem_workers s) \<le> nat (start_max_parallel k) \<and>
    sem_chan s = working (sem_workers s) \<and> sem_wait s = unfinished (sem_workers s)"
proof (intro conjI)
  show "working (sem_workers s) \<le> nat (start_max_parallel k)" "sem_chan s = working (sem_workers s)"
    "sem_wait s = unfinished (sem_workers s)"
    using sem_inv_reach [OF assms] by (simp_all add: sem_inv_def)
  have "0 < nat (start_max_parallel k)" by (simp add: start_max_parallel_def)
  then show "sem_wait s = 0 \<or> (\<exists>s'. sem_step (nat (start_max_parallel k)) s s')"
    using sem_progress sem_inv_reach [OF assms] by blast
  show "\<forall>s'. sem_step (nat (start_max_parallel k)) s s' \<longrightarrow> sem_rest s' < sem_rest s \<and>
      list_all2 (\<le>) (sem_workers s) (sem_workers s')"
    using sem_rest_step sem_step_advances by fastforce
  show "sem_rest s \<le> 3 * n" using assms by (rule sem_reach_rest)
qed

theorem cycle_terminates_witness:
  "\<exists>s'. sem_step (nat (start_max_parallel 0)) (sem_initial 2) s'"
  using cycle_terminates [OF sem_reach.initial [of "nat (start_max_parallel 0)" 2]]
  by (simp add: sem_initial_def)

end
