(* ===== verification/Copying.thy ===== *)
theory Copying
  imports Memory
begin

text \<open>
  The shapes a generated deep copy is made of (a pointer to a plain value, a pointer to a library
  value, a struct, a slice, a struct behind a pointer), each with the view it copies and the lemma
  that it keeps the contract \<open>deep_copying\<close> of the memory theory.
\<close>

section \<open>Plain values and structs\<close>

definition plain_view :: "('a \<Rightarrow> 'v) \<Rightarrow> ('a, 'v, 'c) view" where
  "plain_view g = \<lparr>vw_read = (\<lambda>h a. g a), vw_foot = (\<lambda>h a. {}), vw_valid = (\<lambda>h a. True)\<rparr>"

definition plain_copy :: "'a \<Rightarrow> 'c mem \<Rightarrow> 'a \<times> 'c mem" where
  "plain_copy a h = (a, h)"

lemma plain_copying: "deep_copying (plain_view g) plain_copy"
  by unfold_locales (auto simp: plain_view_def plain_copy_def)

text \<open>A struct is read as the pair of its fields, then renamed by \<open>on_view\<close>.\<close>

definition pair_view :: "('a, 'v, 'c) view \<Rightarrow> ('b, 'w, 'c) view \<Rightarrow> ('a \<times> 'b, 'v \<times> 'w, 'c) view" where
  "pair_view V W = \<lparr>
     vw_read = (\<lambda>h (a, b). (vw_read V h a, vw_read W h b)),
     vw_foot = (\<lambda>h (a, b). vw_foot V h a \<union> vw_foot W h b),
     vw_valid = (\<lambda>h (a, b). vw_valid V h a \<and> vw_valid W h b)\<rparr>"

definition pair_copy :: "('a \<Rightarrow> 'c mem \<Rightarrow> 'a \<times> 'c mem) \<Rightarrow> ('b \<Rightarrow> 'c mem \<Rightarrow> 'b \<times> 'c mem) \<Rightarrow>
    'a \<times> 'b \<Rightarrow> 'c mem \<Rightarrow> ('a \<times> 'b) \<times> 'c mem" where
  "pair_copy c d p h = (case p of (a, b) \<Rightarrow>
     let (a', h1) = c a h; (b', h2) = d b h1 in ((a', b'), h2))"

lemma pair_framed:
  assumes "framed_view V" and "framed_view W"
  shows "framed_view (pair_view V W)"
proof
  fix h :: "'c mem" and p
  assume "vw_valid (pair_view V W) h p"
  then show "vw_foot (pair_view V W) h p \<subseteq> allocated h"
    using framed_view.valid_foot [OF assms(1)] framed_view.valid_foot [OF assms(2)]
    by (cases p) (simp add: pair_view_def)
next
  fix h k :: "'c mem" and p
  assume valid: "vw_valid (pair_view V W) h p" and same: "same_on (vw_foot (pair_view V W) h p) h k"
    and mono: "mem_next h \<le> mem_next k"
  obtain a b where p: "p = (a, b)" by (cases p)
  have "same_on (vw_foot V h a) h k" "same_on (vw_foot W h b) h k"
    using same by (simp_all add: p pair_view_def same_on_def)
  then show "vw_valid (pair_view V W) k p \<and> vw_read (pair_view V W) k p = vw_read (pair_view V W) h p \<and>
      vw_foot (pair_view V W) k p = vw_foot (pair_view V W) h p"
    using framed_view.frame [OF assms(1) _ _ mono, of a] framed_view.frame [OF assms(2) _ _ mono, of b]
      valid by (simp add: p pair_view_def)
qed

lemma deep_copyingI:
  assumes "framed_view V"
    and "\<And>h a b h'. vw_valid V h a \<Longrightarrow> copy a h = (b, h') \<Longrightarrow> extends h h' \<and> vw_valid V h' b \<and>
      vw_read V h' b = vw_read V h a \<and> vw_foot V h' b \<subseteq> fresh_between h h'"
  shows "deep_copying V copy"
  by (rule deep_copying.intro [OF assms(1)], rule deep_copying_axioms.intro) (rule assms(2))

lemma deep_copying_framed: "deep_copying V c \<Longrightarrow> framed_view V"
  by (simp add: deep_copying_def)

lemma fresh_between_later: "extends h k \<Longrightarrow> extends k l \<Longrightarrow>
    fresh_between h k \<subseteq> fresh_between h l \<and> fresh_between k l \<subseteq> fresh_between h l"
  by (auto simp: fresh_between_def dest!: extends_next)

text \<open>What has been copied stays copied while the rest of the value is.\<close>

lemma copied_later:
  assumes "deep_copying V c" and "vw_valid V h a" and "c a h = (b, h1)" and "extends h1 h'"
  shows "extends h h'" and "vw_valid V h' b" and "vw_read V h' b = vw_read V h a"
    and "vw_foot V h' b \<subseteq> fresh_between h h'"
proof -
  note first = deep_copying.copied [OF assms(1-3)]
  from first assms(4) show "extends h h'" by (blast intro: extends_trans)
  have b: "vw_valid V h1 b" using first by simp
  note later = framed_view.extends_view [OF deep_copying_framed [OF assms(1)] b assms(4)]
  from later(1) show "vw_valid V h' b" .
  from later(2) first show "vw_read V h' b = vw_read V h a" by simp
  have "fresh_between h h1 \<subseteq> fresh_between h h'"
    using fresh_between_later first assms(4) by blast
  then show "vw_foot V h' b \<subseteq> fresh_between h h'"
    using first later(3) by auto
qed

lemma pair_copying:
  assumes c: "deep_copying V c" and d: "deep_copying W d"
  shows "deep_copying (pair_view V W) (pair_copy c d)"
proof (rule deep_copyingI [OF pair_framed [OF deep_copying_framed [OF c] deep_copying_framed [OF d]]])
  fix h h' :: "'c mem" and p q
  assume valid: "vw_valid (pair_view V W) h p" and run: "pair_copy c d p h = (q, h')"
  obtain a b where p: "p = (a, b)" by (cases p)
  obtain a' h1 where ca: "c a h = (a', h1)" by (cases "c a h")
  obtain b' where db: "d b h1 = (b', h')" and q: "q = (a', b')"
    using run by (cases "d b h1") (simp add: p pair_copy_def ca)
  have va: "vw_valid V h a" and vb: "vw_valid W h b"
    using valid by (simp_all add: p pair_view_def)
  have ext: "extends h h1"
    using deep_copying.copied [OF c va ca] by simp
  note b1 = framed_view.extends_view [OF deep_copying_framed [OF d] vb ext]
  note second = deep_copying.copied [OF d b1(1) db]
  have ext2: "extends h1 h'" using second by simp
  have "vw_foot W h' b' \<subseteq> fresh_between h h'"
    using second fresh_between_later [OF ext ext2] by blast
  then show "extends h h' \<and> vw_valid (pair_view V W) h' q \<and>
      vw_read (pair_view V W) h' q = vw_read (pair_view V W) h p \<and>
      vw_foot (pair_view V W) h' q \<subseteq> fresh_between h h'"
    using copied_later [OF c va ca ext2] second b1 by (simp add: p q pair_view_def)
qed

definition on_view :: "('s \<Rightarrow> 'a) \<Rightarrow> ('v \<Rightarrow> 'w) \<Rightarrow> ('a, 'v, 'c) view \<Rightarrow> ('s, 'w, 'c) view" where
  "on_view to g V = \<lparr>
     vw_read = (\<lambda>h s. g (vw_read V h (to s))),
     vw_foot = (\<lambda>h s. vw_foot V h (to s)),
     vw_valid = (\<lambda>h s. vw_valid V h (to s))\<rparr>"

lemma on_framed: "framed_view V \<Longrightarrow> framed_view (on_view to g V)"
  by (rule framed_view.intro)
    (auto simp: on_view_def dest: framed_view.valid_foot framed_view.frame)

lemma on_copying:
  assumes c: "deep_copying V c"
    and fields: "\<And>s h. copy s h = (let (x, h') = c (to s) h in (struct_of x, h'))"
    and inverse: "\<And>x. to (struct_of x) = x"
  shows "deep_copying (on_view to g V) copy"
proof (rule deep_copyingI [OF on_framed [OF deep_copying_framed [OF c]]])
  fix h h' :: "'c mem" and s t
  assume valid: "vw_valid (on_view to g V) h s" and run: "copy s h = (t, h')"
  obtain x where x: "c (to s) h = (x, h')" "t = struct_of x"
    using run by (cases "c (to s) h") (simp add: fields)
  have "vw_valid V h (to s)" using valid by (simp add: on_view_def)
  from deep_copying.copied [OF c this x(1)] show "extends h h' \<and> vw_valid (on_view to g V) h' t \<and>
      vw_read (on_view to g V) h' t = vw_read (on_view to g V) h s \<and>
      vw_foot (on_view to g V) h' t \<subseteq> fresh_between h h'"
    by (simp add: on_view_def x(2) inverse)
qed

section \<open>Pointers\<close>

text \<open>
  A memory holds cells of several Go types; a \<^emph>\<open>kind\<close> is one of them: the test for it, the value
  in such a cell and the cell of a value.
\<close>

record ('c, 'a) kind =
  kind_is :: "'c \<Rightarrow> bool"
  kind_get :: "'c \<Rightarrow> 'a"
  kind_put :: "'a \<Rightarrow> 'c"

definition kind_ok :: "('c, 'a) kind \<Rightarrow> bool" where
  "kind_ok K \<longleftrightarrow> (\<forall>x. kind_is K (kind_put K x) \<and> kind_get K (kind_put K x) = x)"

definition load :: "('c, 'a) kind \<Rightarrow> 'c mem \<Rightarrow> addr \<Rightarrow> 'a" where
  "load K h a = kind_get K (cell_at h a)"

definition cell_view :: "('c, 'a) kind \<Rightarrow> ('a, 'v, 'c) view \<Rightarrow> (addr, 'v, 'c) view" where
  "cell_view K V = \<lparr>
     vw_read = (\<lambda>h a. vw_read V h (load K h a)),
     vw_foot = (\<lambda>h a. insert a (vw_foot V h (load K h a))),
     vw_valid = (\<lambda>h a. a \<in> allocated h \<and> kind_is K (cell_at h a) \<and> vw_valid V h (load K h a))\<rparr>"

definition option_view :: "('a, 'v, 'c) view \<Rightarrow> ('a option, 'v option, 'c) view" where
  "option_view V = \<lparr>
     vw_read = (\<lambda>h. map_option (vw_read V h)),
     vw_foot = (\<lambda>h p. case p of None \<Rightarrow> {} | Some a \<Rightarrow> vw_foot V h a),
     vw_valid = (\<lambda>h. pred_option (vw_valid V h))\<rparr>"

definition pointer_view :: "('c, 'a) kind \<Rightarrow> ('a, 'v, 'c) view \<Rightarrow> (addr option, 'v option, 'c) view" where
  "pointer_view K V = option_view (cell_view K V)"

text \<open>\<open>if in.F != nil { ... }\<close>: a nil pointer stays nil.\<close>

definition copy_optional :: "('a \<Rightarrow> 'c mem \<Rightarrow> 'a \<times> 'c mem) \<Rightarrow> 'a option \<Rightarrow> 'c mem \<Rightarrow> 'a option \<times> 'c mem" where
  "copy_optional c p h = (case p of
     None \<Rightarrow> (None, h)
   | Some a \<Rightarrow> (let (b, h') = c a h in (Some b, h')))"

text \<open>\<open>*out = new(T); **out = **in\<close>.\<close>

definition copy_scalar :: "('c, 'a) kind \<Rightarrow> 'a \<Rightarrow> addr \<Rightarrow> 'c mem \<Rightarrow> addr \<times> 'c mem" where
  "copy_scalar K zero a h = (let (b, h1) = new_cell (kind_put K zero) h in
     (b, write_cell b (kind_put K (load K h1 a)) h1))"

text \<open>\<open>x := (*in).DeepCopy(); *out = &x\<close>.\<close>

definition copy_boxed :: "('c, 'a) kind \<Rightarrow> ('a \<Rightarrow> 'c mem \<Rightarrow> 'a \<times> 'c mem) \<Rightarrow> addr \<Rightarrow> 'c mem \<Rightarrow> addr \<times> 'c mem" where
  "copy_boxed K c a h = (let (x, h1) = c (load K h a) h in new_cell (kind_put K x) h1)"

text \<open>\<open>out := new(T); in.DeepCopyInto(out)\<close>.\<close>

definition copy_new :: "('c, 'a) kind \<Rightarrow> 'a \<Rightarrow> ('a \<Rightarrow> 'c mem \<Rightarrow> 'a \<times> 'c mem) \<Rightarrow> addr \<Rightarrow> 'c mem \<Rightarrow> addr \<times> 'c mem" where
  "copy_new K zero into a h = (let (b, h1) = new_cell (kind_put K zero) h;
       (v, h2) = into (load K h1 a) h1
     in (b, write_cell b (kind_put K v) h2))"

lemma option_framed:
  assumes "framed_view V"
  shows "framed_view (option_view V)"
proof
  fix h :: "'c mem" and p
  assume "vw_valid (option_view V) h p"
  then show "vw_foot (option_view V) h p \<subseteq> allocated h"
    using framed_view.valid_foot [OF assms] by (cases p) (simp_all add: option_view_def)
next
  fix h k :: "'c mem" and p
  assume "vw_valid (option_view V) h p" and "same_on (vw_foot (option_view V) h p) h k"
    and "mem_next h \<le> mem_next k"
  then show "vw_valid (option_view V) k p \<and> vw_read (option_view V) k p = vw_read (option_view V) h p \<and>
      vw_foot (option_view V) k p = vw_foot (option_view V) h p"
    using framed_view.frame [OF assms, of h _ k] by (cases p) (simp_all add: option_view_def)
qed

lemma cell_framed:
  assumes "framed_view V"
  shows "framed_view (cell_view K V)"
proof
  fix h :: "'c mem" and a
  assume "vw_valid (cell_view K V) h a"
  then show "vw_foot (cell_view K V) h a \<subseteq> allocated h"
    using framed_view.valid_foot [OF assms] by (simp add: cell_view_def)
next
  fix h k :: "'c mem" and a
  assume valid: "vw_valid (cell_view K V) h a" and same: "same_on (vw_foot (cell_view K V) h a) h k"
    and mono: "mem_next h \<le> mem_next k"
  have "cell_at k a = cell_at h a" and rest: "same_on (vw_foot V h (load K h a)) h k"
    using same by (simp_all add: cell_view_def same_on_def)
  then have a: "cell_at k a = cell_at h a" "load K k a = load K h a" "a \<in> allocated k"
    using valid mono by (simp_all add: load_def cell_view_def allocated_def)
  then show "vw_valid (cell_view K V) k a \<and> vw_read (cell_view K V) k a = vw_read (cell_view K V) h a \<and>
      vw_foot (cell_view K V) k a = vw_foot (cell_view K V) h a"
    using framed_view.frame [OF assms _ rest mono] valid by (simp add: cell_view_def)
qed

lemma optional_copying:
  assumes c: "deep_copying V c"
  shows "deep_copying (option_view V) (copy_optional c)"
proof (rule deep_copyingI [OF option_framed [OF deep_copying_framed [OF c]]])
  fix h h' :: "'c mem" and p q
  assume valid: "vw_valid (option_view V) h p" and run: "copy_optional c p h = (q, h')"
  show "extends h h' \<and> vw_valid (option_view V) h' q \<and>
      vw_read (option_view V) h' q = vw_read (option_view V) h p \<and>
      vw_foot (option_view V) h' q \<subseteq> fresh_between h h'"
  proof (cases p)
    case None
    then show ?thesis using run by (simp add: copy_optional_def option_view_def)
  next
    case (Some a)
    then obtain b where b: "c a h = (b, h')" "q = Some b"
      using run by (cases "c a h") (simp add: copy_optional_def)
    have "vw_valid V h a" using valid Some by (simp add: option_view_def)
    from deep_copying.copied [OF c this b(1)] show ?thesis
      by (simp add: Some b(2) option_view_def)
  qed
qed

text \<open>A copied value put into a cell the copy allocated.\<close>

lemma stored_copy:
  assumes V: "framed_view V" and K: "kind_ok K" and v: "vw_valid V h v" and b: "b \<notin> vw_foot V h v"
    and alloc: "b \<in> allocated h"
  defines "h' \<equiv> write_cell b (kind_put K v) h"
  shows "vw_valid (cell_view K V) h' b" and "vw_read (cell_view K V) h' b = vw_read V h v"
    and "vw_foot (cell_view K V) h' b = insert b (vw_foot V h v)"
proof -
  have "load K h' b = v" "kind_is K (cell_at h' b)" "b \<in> allocated h'"
    using K alloc by (simp_all add: h'_def load_def mem_simps kind_ok_def allocated_def)
  with framed_view.write_view [OF V v b, of "kind_put K v"]
  show "vw_valid (cell_view K V) h' b" and "vw_read (cell_view K V) h' b = vw_read V h v"
    and "vw_foot (cell_view K V) h' b = insert b (vw_foot V h v)"
    by (simp_all add: cell_view_def flip: h'_def)
qed

lemma new_copying:
  assumes c: "deep_copying V into" and K: "kind_ok K"
  shows "deep_copying (cell_view K V) (copy_new K zero into)"
proof (rule deep_copyingI [OF cell_framed [OF deep_copying_framed [OF c]]])
  fix h h' :: "'c mem" and a b
  assume valid: "vw_valid (cell_view K V) h a" and run: "copy_new K zero into a h = (b, h')"
  define h1 where "h1 = snd (new_cell (kind_put K zero) h)"
  have ext1: "extends h h1" unfolding h1_def by (rule extends_new)
  obtain v h2 where v: "into (load K h1 a) h1 = (v, h2)" by (cases "into (load K h1 a) h1")
  have b: "b = mem_next h" and h': "h' = write_cell b (kind_put K v) h2"
    using run v unfolding h1_def by (auto simp: copy_new_def Let_def new_cell_def)
  have a: "a < mem_next h" "vw_valid V h (load K h a)"
    using valid by (simp_all add: cell_view_def allocated_def)
  have same: "load K h1 a = load K h a"
    using extends_cell [OF ext1 a(1)] by (simp add: load_def)
  note orig = framed_view.extends_view [OF deep_copying_framed [OF c] a(2) ext1]
  note copy = deep_copying.copied [OF c orig(1) v [unfolded same]]
  have next1: "mem_next h1 = Suc b" by (simp add: h1_def b mem_simps)
  then have fresh: "b \<notin> vw_foot V h2 v" "b \<in> allocated h2"
    using copy by (auto simp: fresh_between_def allocated_def dest: extends_next)
  have vv: "vw_valid V h2 v" using copy by simp
  have ext: "extends h h'"
    unfolding h' using extends_trans [OF ext1] copy b by (simp add: extends_write)
  have "insert b (vw_foot V h2 v) \<subseteq> fresh_between h h'"
    using copy next1 fresh(2) by (auto simp: fresh_between_def allocated_def b h' mem_simps)
  with stored_copy [OF deep_copying_framed [OF c] K vv fresh] ext copy orig
  show "extends h h' \<and> vw_valid (cell_view K V) h' b \<and>
      vw_read (cell_view K V) h' b = vw_read (cell_view K V) h a \<and>
      vw_foot (cell_view K V) h' b \<subseteq> fresh_between h h'"
    unfolding h' by (simp add: cell_view_def [of K V] same)
qed

lemma copy_scalar_new: "copy_scalar K zero = copy_new K zero plain_copy"
  by (simp add: fun_eq_iff copy_scalar_def copy_new_def plain_copy_def)

lemma scalar_copying: "kind_ok K \<Longrightarrow> deep_copying (cell_view K (plain_view g)) (copy_scalar K zero)"
  unfolding copy_scalar_new by (rule new_copying [OF plain_copying])

lemma boxed_copying:
  assumes c: "deep_copying V c" and K: "kind_ok K"
  shows "deep_copying (cell_view K V) (copy_boxed K c)"
proof (rule deep_copyingI [OF cell_framed [OF deep_copying_framed [OF c]]])
  fix h h' :: "'c mem" and a b
  assume valid: "vw_valid (cell_view K V) h a" and run: "copy_boxed K c a h = (b, h')"
  obtain v h1 where v: "c (load K h a) h = (v, h1)" by (cases "c (load K h a) h")
  have b: "b = mem_next h1" and h': "h' = snd (new_cell (kind_put K v) h1)"
    using run v by (auto simp: copy_boxed_def new_cell_def)
  have a: "vw_valid V h (load K h a)" using valid by (simp add: cell_view_def)
  have ext1: "extends h1 h'" unfolding h' by (rule extends_new)
  note copy = copied_later [OF c a v ext1]
  have "load K h' b = v" "kind_is K (cell_at h' b)" "b \<in> allocated h'"
    using K by (simp_all add: h' b load_def mem_simps kind_ok_def allocated_def)
  moreover have "b \<in> fresh_between h h'"
    using deep_copying.copied [OF c a v] by (simp add: h' b fresh_between_def mem_simps extends_next)
  ultimately show "extends h h' \<and> vw_valid (cell_view K V) h' b \<and>
      vw_read (cell_view K V) h' b = vw_read (cell_view K V) h a \<and>
      vw_foot (cell_view K V) h' b \<subseteq> fresh_between h h'"
    using copy by (simp add: cell_view_def)
qed

section \<open>Slices\<close>

text \<open>A slice header; a nil slice is no header. The array it points into is one cell.\<close>

record slice =
  sl_array :: addr
  sl_offset :: nat
  sl_len :: nat

definition slice_items :: "('c, 'e list) kind \<Rightarrow> 'c mem \<Rightarrow> slice \<Rightarrow> 'e list" where
  "slice_items K h s = take (sl_len s) (drop (sl_offset s) (load K h (sl_array s)))"

definition slice_view :: "('c, 'e list) kind \<Rightarrow> ('e, 'v, 'c) view \<Rightarrow> (slice, 'v list, 'c) view" where
  "slice_view K V = \<lparr>
     vw_read = (\<lambda>h s. map (vw_read V h) (slice_items K h s)),
     vw_foot = (\<lambda>h s. insert (sl_array s) (\<Union>e \<in> set (slice_items K h s). vw_foot V h e)),
     vw_valid = (\<lambda>h s. sl_array s \<in> allocated h \<and> kind_is K (cell_at h (sl_array s)) \<and>
       sl_offset s + sl_len s \<le> length (load K h (sl_array s)) \<and>
       (\<forall>e \<in> set (slice_items K h s). vw_valid V h e))\<rparr>"

text \<open>
  \<open>for i := range *in { (*in)[i].DeepCopyInto(&(*out)[i]) }\<close>: item \<open>i\<close> is read from the array of
  \<open>in\<close> and its copy written at index \<open>i\<close> of the array of \<open>out\<close>, for each index of the list.
\<close>

primrec copy_items :: "('c, 'e list) kind \<Rightarrow> ('e \<Rightarrow> 'c mem \<Rightarrow> 'e \<times> 'c mem) \<Rightarrow> slice \<Rightarrow> addr \<Rightarrow>
    nat list \<Rightarrow> 'c mem \<Rightarrow> 'c mem" where
  "copy_items K into s out [] h = h"
| "copy_items K into s out (i # is) h =
    (let (v, h1) = into (load K h (sl_array s) ! (sl_offset s + i)) h
     in copy_items K into s out is (write_cell out (kind_put K ((load K h1 out)[i := v])) h1))"

text \<open>\<open>*out = make([]T, len(*in))\<close>, then the loop.\<close>

definition copy_slice :: "('c, 'e list) kind \<Rightarrow> 'e \<Rightarrow> ('e \<Rightarrow> 'c mem \<Rightarrow> 'e \<times> 'c mem) \<Rightarrow>
    slice \<Rightarrow> 'c mem \<Rightarrow> slice \<times> 'c mem" where
  "copy_slice K zero into s h = (let (out, h1) = new_cell (kind_put K (replicate (sl_len s) zero)) h in
     (\<lparr>sl_array = out, sl_offset = 0, sl_len = sl_len s\<rparr>,
      copy_items K into s out [0..<sl_len s] h1))"

lemma slice_framed:
  assumes "framed_view V"
  shows "framed_view (slice_view K V)"
proof
  fix h :: "'c mem" and s
  assume "vw_valid (slice_view K V) h s"
  then show "vw_foot (slice_view K V) h s \<subseteq> allocated h"
    using framed_view.valid_foot [OF assms] by (fastforce simp: slice_view_def)
next
  fix h k :: "'c mem" and s
  assume valid: "vw_valid (slice_view K V) h s" and same: "same_on (vw_foot (slice_view K V) h s) h k"
    and mono: "mem_next h \<le> mem_next k"
  have arr: "cell_at k (sl_array s) = cell_at h (sl_array s)"
    using same by (simp add: slice_view_def same_on_def)
  then have items: "slice_items K k s = slice_items K h s" "load K k (sl_array s) = load K h (sl_array s)"
    by (simp_all add: slice_items_def load_def)
  have "vw_valid V k e \<and> vw_read V k e = vw_read V h e \<and> vw_foot V k e = vw_foot V h e"
    if "e \<in> set (slice_items K h s)" for e
  proof (rule framed_view.frame [OF assms _ _ mono])
    show "vw_valid V h e" using valid that by (simp add: slice_view_def)
    show "same_on (vw_foot V h e) h k" using same that by (auto simp: slice_view_def same_on_def)
  qed
  then show "vw_valid (slice_view K V) k s \<and> vw_read (slice_view K V) k s = vw_read (slice_view K V) h s \<and>
      vw_foot (slice_view K V) k s = vw_foot (slice_view K V) h s"
    using valid mono arr by (simp add: slice_view_def items allocated_def)
qed

lemma copy_items_append:
  "copy_items K into s out (is @ js) h = copy_items K into s out js (copy_items K into s out is h)"
  by (induction "is" arbitrary: h) (simp_all split: prod.split)

text \<open>
  What holds after a prefix of the loop: the first \<open>j\<close> places of the array at \<open>out\<close> hold copies,
  which reach only cells allocated since \<open>h\<close>, and not the array itself.
\<close>

definition item_copied :: "('e, 'v, 'c) view \<Rightarrow> addr \<Rightarrow> 'c mem \<Rightarrow> 'v \<Rightarrow> 'c mem \<Rightarrow> 'e \<Rightarrow> bool" where
  "item_copied V out h r k e \<longleftrightarrow> vw_valid V k e \<and> vw_read V k e = r \<and>
     vw_foot V k e \<subseteq> fresh_between h k - {out}"

definition items_copied :: "('c, 'e list) kind \<Rightarrow> ('e, 'v, 'c) view \<Rightarrow> slice \<Rightarrow> addr \<Rightarrow> 'c mem \<Rightarrow>
    nat \<Rightarrow> 'c mem \<Rightarrow> bool" where
  "items_copied K V s out h j k \<longleftrightarrow>
     extends h k \<and> out \<in> fresh_between h k \<and> kind_is K (cell_at k out) \<and>
     length (load K k out) = sl_len s \<and>
     (\<forall>i<j. item_copied V out h (vw_read V h (slice_items K h s ! i)) k (load K k out ! i))"

lemma item_copied_extends:
  assumes "framed_view V" and "item_copied V out h r k e" and "extends k k'"
  shows "item_copied V out h r k' e"
proof -
  have e: "vw_valid V k e" using assms(2) by (simp add: item_copied_def)
  have "fresh_between h k \<subseteq> fresh_between h k'"
    using extends_next [OF assms(3)] by (auto simp: fresh_between_def)
  then show ?thesis
    using framed_view.extends_view [OF assms(1) e assms(3)] assms(2) by (auto simp: item_copied_def)
qed

lemma item_copied_write:
  assumes "framed_view V" and "item_copied V out h r k e"
  shows "item_copied V out h r (write_cell out c k) e"
proof -
  have e: "vw_valid V k e" "out \<notin> vw_foot V k e" using assms(2) by (auto simp: item_copied_def)
  show ?thesis
    using framed_view.write_view [OF assms(1) e, of c] assms(2)
    by (simp add: item_copied_def fresh_between_def mem_simps)
qed

text \<open>An item of the slice that is copied is where it was, and valid.\<close>

lemma slice_item:
  assumes "vw_valid (slice_view K V) h s" and "j < sl_len s" and "extends h k"
  shows "load K k (sl_array s) ! (sl_offset s + j) = slice_items K h s ! j"
    and "vw_valid V h (slice_items K h s ! j)"
proof -
  have fits: "sl_array s \<in> allocated h" "sl_offset s + sl_len s \<le> length (load K h (sl_array s))"
    using assms(1) by (simp_all add: slice_view_def)
  have "load K k (sl_array s) = load K h (sl_array s)"
    using extends_cell [OF assms(3)] fits(1) by (simp add: load_def allocated_def)
  then show "load K k (sl_array s) ! (sl_offset s + j) = slice_items K h s ! j"
    using fits(2) assms(2) by (simp add: slice_items_def)
  have "j < length (slice_items K h s)" using fits(2) assms(2) by (simp add: slice_items_def)
  then show "vw_valid V h (slice_items K h s ! j)" using nth_mem assms(1) by (simp add: slice_view_def)
qed

lemma copy_item_step:
  assumes c: "deep_copying V into" and K: "kind_ok K" and s: "vw_valid (slice_view K V) h s"
    and j: "j < sl_len s" and inv: "items_copied K V s out h j k"
  shows "items_copied K V s out h (Suc j) (copy_items K into s out [j] k)"
proof -
  note V = deep_copying_framed [OF c]
  let ?e = "slice_items K h s ! j"
  have ext: "extends h k" and out: "out < mem_next k" "mem_next h \<le> out"
    using inv by (simp_all add: items_copied_def fresh_between_def)
  note e = slice_item [OF s j ext]
  note ve = framed_view.extends_view [OF V e(2) ext]
  obtain v k1 where v: "into ?e k = (v, k1)" by (cases "into ?e k")
  have copy: "extends k k1" "item_copied V out h (vw_read V h ?e) k1 v"
    using deep_copying.copied [OF c ve(1) v] ve(2) extends_next [OF ext] out
    by (auto simp: item_copied_def fresh_between_def)
  have same: "load K k1 out = load K k out"
    using extends_cell [OF copy(1) out(1)] by (simp add: load_def)
  define ys where "ys = (load K k out)[j := v]"
  have len: "length ys = sl_len s" using inv by (simp add: ys_def items_copied_def)
  define k2 where "k2 = write_cell out (kind_put K ys) k1"
  have two: "load K k2 out = ys" "kind_is K (cell_at k2 out)" "mem_next k2 = mem_next k1"
    using K by (simp_all add: k2_def load_def mem_simps kind_ok_def)
  have ext2: "extends h k2"
    unfolding k2_def by (rule extends_write [OF extends_trans [OF ext copy(1)] out(2)])
  have "item_copied V out h (vw_read V h (slice_items K h s ! i)) k2 (ys ! i)" if "i < Suc j" for i
  proof (cases "i = j")
    case True
    then show ?thesis
      using item_copied_write [OF V copy(2)] len j inv by (simp add: ys_def k2_def)
  next
    case False
    then have i: "i < j" "ys ! i = load K k out ! i" using that by (simp_all add: ys_def)
    then have "item_copied V out h (vw_read V h (slice_items K h s ! i)) k (ys ! i)"
      using inv by (simp add: items_copied_def)
    then show ?thesis
      unfolding k2_def by (intro item_copied_write [OF V] item_copied_extends [OF V _ copy(1)])
  qed
  moreover have "copy_items K into s out [j] k = k2"
    by (simp add: e(1) v k2_def ys_def same)
  ultimately show ?thesis
    using ext2 two len out extends_next [OF copy(1)] by (simp add: items_copied_def fresh_between_def)
qed

lemma copy_items_all:
  assumes c: "deep_copying V into" and K: "kind_ok K" and s: "vw_valid (slice_view K V) h s"
    and start: "items_copied K V s out h 0 k" and "j \<le> sl_len s"
  shows "items_copied K V s out h j (copy_items K into s out [0..<j] k)"
  using assms(5)
proof (induction j)
  case 0
  then show ?case using start by simp
next
  case (Suc j)
  then have "items_copied K V s out h j (copy_items K into s out [0..<j] k)" and "j < sl_len s"
    by simp_all
  from copy_item_step [OF c K s this(2,1)] show ?case
    by (simp add: copy_items_append del: copy_items.simps)
qed

lemma slice_copying:
  assumes c: "deep_copying V into" and K: "kind_ok K"
  shows "deep_copying (slice_view K V) (copy_slice K zero into)"
proof (rule deep_copyingI [OF slice_framed [OF deep_copying_framed [OF c]]])
  fix h h' :: "'c mem" and s t
  assume valid: "vw_valid (slice_view K V) h s" and run: "copy_slice K zero into s h = (t, h')"
  define out where "out = mem_next h"
  define h1 where "h1 = snd (new_cell (kind_put K (replicate (sl_len s) zero)) h)"
  have t: "t = \<lparr>sl_array = out, sl_offset = 0, sl_len = sl_len s\<rparr>"
    and h': "h' = copy_items K into s out [0..<sl_len s] h1"
    using run unfolding h1_def out_def by (auto simp: copy_slice_def new_cell_def)
  have "items_copied K V s out h 0 h1"
    using K extends_new unfolding h1_def
    by (simp add: items_copied_def out_def fresh_between_def load_def mem_simps kind_ok_def)
  from copy_items_all [OF c K valid this le_refl] have all: "items_copied K V s out h (sl_len s) h'"
    by (simp add: h')
  have fits: "length (slice_items K h s) = sl_len s"
    using valid by (auto simp: slice_view_def slice_items_def min_def)
  have items: "slice_items K h' t = load K h' out" "length (load K h' out) = sl_len s"
    using all by (simp_all add: t slice_items_def items_copied_def)
  have each: "vw_valid V h' e \<and> vw_foot V h' e \<subseteq> fresh_between h h'" if "e \<in> set (load K h' out)" for e
    using that all items(2) by (auto simp: items_copied_def item_copied_def in_set_conv_nth)
  have "map (vw_read V h') (load K h' out) = map (vw_read V h) (slice_items K h s)"
    using all items(2) fits by (simp add: items_copied_def item_copied_def list_eq_iff_nth_eq)
  moreover have "out \<in> fresh_between h h'" "kind_is K (cell_at h' out)" "extends h h'"
    using all by (simp_all add: items_copied_def)
  ultimately show "extends h h' \<and> vw_valid (slice_view K V) h' t \<and>
      vw_read (slice_view K V) h' t = vw_read (slice_view K V) h s \<and>
      vw_foot (slice_view K V) h' t \<subseteq> fresh_between h h'"
    using each items by (auto simp: slice_view_def t [symmetric] fresh_between_def allocated_def)
      (auto simp: t)
qed

end
