(* ===== verification/DeepCopy.thy ===== *)
theory DeepCopy
  imports Copying KubeTypes
begin

text \<open>
  The generated deep copies of api/v1alpha1 (zz_generated.deepcopy.go) over a memory with
  pointers. A struct is a record whose pointer fields are addresses; \<open>X_DeepCopyInto in\<close> gives the
  struct that \<open>in.DeepCopyInto(out)\<close> leaves in \<open>*out\<close> (the first statement of each overwrites all
  of \<open>*out\<close>, and \<open>out\<close> is a different variable than \<open>in\<close>), \<open>X_DeepCopy\<close> works on pointers. The
  views read a struct through its pointers as the record of the theory of Kubernetes types that
  the controllers' model uses. The copies of the library types inside (ObjectMeta, ListMeta,
  LabelSelector, Quantity, Time) are parameters, and a locale states that they are deep copies.
\<close>

section \<open>The structs\<close>

text \<open>\<open>metav1.TypeMeta\<close> is two strings, copied by assignment.\<close>

record type_meta =
  tm_Kind :: string
  tm_APIVersion :: string

record PVCGroupTemplate_struct =
  gts_Enabled :: "addr option"
  gts_Threshold :: "addr option"
  gts_InodesThreshold :: "addr option"
  gts_Increase :: "addr option"
  gts_MaxSize :: "addr option"
  gts_MinScaleUp :: "addr option"
  gts_Cooldown :: "addr option"

record PVCGroupSpec_struct =
  gss_Template :: PVCGroupTemplate_struct

record PVCGroupStatus_struct =
  gus_MemberCount :: int
  gus_CurrentSize :: "addr option"
  gus_LastExpansion :: "addr option"
  gus_LastUpdated :: "addr option"

record 'm PVCGroup_struct =
  gps_TypeMeta :: type_meta
  gps_ObjectMeta :: 'm
  gps_Spec :: PVCGroupSpec_struct
  gps_Status :: PVCGroupStatus_struct

record 'l PVCGroupList_struct =
  gls_TypeMeta :: type_meta
  gls_ListMeta :: 'l
  gls_Items :: "slice option"

record PVCPolicyTemplate_struct =
  pts_Enabled :: "addr option"
  pts_Threshold :: "addr option"
  pts_InodesThreshold :: "addr option"
  pts_Increase :: "addr option"
  pts_MaxSize :: "addr option"
  pts_MinScaleUp :: "addr option"
  pts_Cooldown :: "addr option"

record 'sel PVCPolicySpec_struct =
  pss_Selector :: 'sel
  pss_Template :: PVCPolicyTemplate_struct

record PVCPolicyStatus_struct =
  pus_MatchedPVCs :: int
  pus_LastUpdated :: "addr option"

record ('m, 'sel) PVCPolicy_struct =
  pps_TypeMeta :: type_meta
  pps_ObjectMeta :: 'm
  pps_Spec :: "'sel PVCPolicySpec_struct"
  pps_Status :: PVCPolicyStatus_struct

record 'l PVCPolicyList_struct =
  pls_TypeMeta :: type_meta
  pls_ListMeta :: 'l
  pls_Items :: "slice option"

section \<open>The memory of the program\<close>

text \<open>A cell per pointed-to type; the memory behind library values is cells of type \<open>'x\<close>.\<close>

datatype ('q, 'm, 'l, 'sel, 'x) api_cell =
    BoolCell (the_bool: bool)
  | StringCell (the_string: string)
  | DurationCell (the_duration: duration)
  | QuantityCell (the_quantity: 'q)
  | GroupTemplateCell (the_group_template: PVCGroupTemplate_struct)
  | GroupSpecCell (the_group_spec: PVCGroupSpec_struct)
  | GroupStatusCell (the_group_status: PVCGroupStatus_struct)
  | GroupCell (the_group: "'m PVCGroup_struct")
  | GroupListCell (the_group_list: "'l PVCGroupList_struct")
  | GroupArrayCell (the_groups: "'m PVCGroup_struct list")
  | PolicyTemplateCell (the_policy_template: PVCPolicyTemplate_struct)
  | PolicySpecCell (the_policy_spec: "'sel PVCPolicySpec_struct")
  | PolicyStatusCell (the_policy_status: PVCPolicyStatus_struct)
  | PolicyCell (the_policy: "('m, 'sel) PVCPolicy_struct")
  | PolicyListCell (the_policy_list: "'l PVCPolicyList_struct")
  | PolicyArrayCell (the_policies: "('m, 'sel) PVCPolicy_struct list")
  | LibraryCell (the_library: 'x)

type_synonym ('q, 'm, 'l, 'sel, 'x) api_mem = "('q, 'm, 'l, 'sel, 'x) api_cell mem"

definition bool_kind :: "(('q, 'm, 'l, 'sel, 'x) api_cell, bool) kind" where
  "bool_kind =
     \<lparr>kind_is = is_BoolCell, kind_get = the_bool, kind_put = BoolCell\<rparr>"

definition string_kind :: "(('q, 'm, 'l, 'sel, 'x) api_cell, string) kind" where
  "string_kind =
     \<lparr>kind_is = is_StringCell, kind_get = the_string, kind_put = StringCell\<rparr>"

definition duration_kind :: "(('q, 'm, 'l, 'sel, 'x) api_cell, duration) kind" where
  "duration_kind =
     \<lparr>kind_is = is_DurationCell, kind_get = the_duration, kind_put = DurationCell\<rparr>"

definition quantity_kind :: "(('q, 'm, 'l, 'sel, 'x) api_cell, 'q) kind" where
  "quantity_kind =
     \<lparr>kind_is = is_QuantityCell, kind_get = the_quantity, kind_put = QuantityCell\<rparr>"

definition group_template_kind :: "(('q, 'm, 'l, 'sel, 'x) api_cell, PVCGroupTemplate_struct) kind" where
  "group_template_kind =
     \<lparr>kind_is = is_GroupTemplateCell, kind_get = the_group_template, kind_put = GroupTemplateCell\<rparr>"

definition group_spec_kind :: "(('q, 'm, 'l, 'sel, 'x) api_cell, PVCGroupSpec_struct) kind" where
  "group_spec_kind =
     \<lparr>kind_is = is_GroupSpecCell, kind_get = the_group_spec, kind_put = GroupSpecCell\<rparr>"

definition group_status_kind :: "(('q, 'm, 'l, 'sel, 'x) api_cell, PVCGroupStatus_struct) kind" where
  "group_status_kind =
     \<lparr>kind_is = is_GroupStatusCell, kind_get = the_group_status, kind_put = GroupStatusCell\<rparr>"

definition group_kind :: "(('q, 'm, 'l, 'sel, 'x) api_cell, 'm PVCGroup_struct) kind" where
  "group_kind =
     \<lparr>kind_is = is_GroupCell, kind_get = the_group, kind_put = GroupCell\<rparr>"

definition group_list_kind :: "(('q, 'm, 'l, 'sel, 'x) api_cell, 'l PVCGroupList_struct) kind" where
  "group_list_kind =
     \<lparr>kind_is = is_GroupListCell, kind_get = the_group_list, kind_put = GroupListCell\<rparr>"

definition groups_kind :: "(('q, 'm, 'l, 'sel, 'x) api_cell, 'm PVCGroup_struct list) kind" where
  "groups_kind =
     \<lparr>kind_is = is_GroupArrayCell, kind_get = the_groups, kind_put = GroupArrayCell\<rparr>"

definition policy_template_kind :: "(('q, 'm, 'l, 'sel, 'x) api_cell, PVCPolicyTemplate_struct) kind" where
  "policy_template_kind =
     \<lparr>kind_is = is_PolicyTemplateCell, kind_get = the_policy_template, kind_put = PolicyTemplateCell\<rparr>"

definition policy_spec_kind :: "(('q, 'm, 'l, 'sel, 'x) api_cell, 'sel PVCPolicySpec_struct) kind" where
  "policy_spec_kind =
     \<lparr>kind_is = is_PolicySpecCell, kind_get = the_policy_spec, kind_put = PolicySpecCell\<rparr>"

definition policy_status_kind :: "(('q, 'm, 'l, 'sel, 'x) api_cell, PVCPolicyStatus_struct) kind" where
  "policy_status_kind =
     \<lparr>kind_is = is_PolicyStatusCell, kind_get = the_policy_status, kind_put = PolicyStatusCell\<rparr>"

definition policy_kind :: "(('q, 'm, 'l, 'sel, 'x) api_cell, ('m, 'sel) PVCPolicy_struct) kind" where
  "policy_kind =
     \<lparr>kind_is = is_PolicyCell, kind_get = the_policy, kind_put = PolicyCell\<rparr>"

definition policy_list_kind :: "(('q, 'm, 'l, 'sel, 'x) api_cell, 'l PVCPolicyList_struct) kind" where
  "policy_list_kind =
     \<lparr>kind_is = is_PolicyListCell, kind_get = the_policy_list, kind_put = PolicyListCell\<rparr>"

definition policies_kind :: "(('q, 'm, 'l, 'sel, 'x) api_cell, ('m, 'sel) PVCPolicy_struct list) kind" where
  "policies_kind =
     \<lparr>kind_is = is_PolicyArrayCell, kind_get = the_policies, kind_put = PolicyArrayCell\<rparr>"

lemmas kind_defs = bool_kind_def string_kind_def duration_kind_def quantity_kind_def group_template_kind_def group_spec_kind_def group_status_kind_def group_kind_def group_list_kind_def groups_kind_def policy_template_kind_def policy_spec_kind_def policy_status_kind_def policy_kind_def policy_list_kind_def policies_kind_def

lemma kinds_ok [simp]:
  "kind_ok bool_kind"
  "kind_ok string_kind"
  "kind_ok duration_kind"
  "kind_ok quantity_kind"
  "kind_ok group_template_kind"
  "kind_ok group_spec_kind"
  "kind_ok group_status_kind"
  "kind_ok group_kind"
  "kind_ok group_list_kind"
  "kind_ok groups_kind"
  "kind_ok policy_template_kind"
  "kind_ok policy_spec_kind"
  "kind_ok policy_status_kind"
  "kind_ok policy_kind"
  "kind_ok policy_list_kind"
  "kind_ok policies_kind"
  by (simp_all add: kind_ok_def kind_defs)

section \<open>The copies of library values\<close>

text \<open>
  The deep copies of k8s.io/apimachinery the generated code calls, and the zero values of its
  types. \<open>Quantity.DeepCopy\<close> copies a value, \<open>Time.DeepCopy\<close> a pointer.
\<close>

record ('q, 'm, 'l, 'sel, 'x) lib_copies =
  copy_quantity :: "'q \<Rightarrow> ('q, 'm, 'l, 'sel, 'x) api_mem \<Rightarrow> 'q \<times> ('q, 'm, 'l, 'sel, 'x) api_mem"
  copy_time :: "addr \<Rightarrow> ('q, 'm, 'l, 'sel, 'x) api_mem \<Rightarrow> addr \<times> ('q, 'm, 'l, 'sel, 'x) api_mem"
  copy_object_meta :: "'m \<Rightarrow> ('q, 'm, 'l, 'sel, 'x) api_mem \<Rightarrow> 'm \<times> ('q, 'm, 'l, 'sel, 'x) api_mem"
  copy_list_meta :: "'l \<Rightarrow> ('q, 'm, 'l, 'sel, 'x) api_mem \<Rightarrow> 'l \<times> ('q, 'm, 'l, 'sel, 'x) api_mem"
  copy_selector :: "'sel \<Rightarrow> ('q, 'm, 'l, 'sel, 'x) api_mem \<Rightarrow> 'sel \<times> ('q, 'm, 'l, 'sel, 'x) api_mem"
  zero_object_meta :: 'm
  zero_list_meta :: 'l
  zero_selector :: 'sel

section \<open>Groups\<close>

definition zero_group_template :: PVCGroupTemplate_struct where
  "zero_group_template = \<lparr>gts_Enabled = None, gts_Threshold = None, gts_InodesThreshold = None, gts_Increase = None,
     gts_MaxSize = None, gts_MinScaleUp = None, gts_Cooldown = None\<rparr>"

definition zero_group_spec :: PVCGroupSpec_struct where
  "zero_group_spec = \<lparr>gss_Template = zero_group_template\<rparr>"

definition zero_group_status :: PVCGroupStatus_struct where
  "zero_group_status = \<lparr>gus_MemberCount = 0, gus_CurrentSize = None, gus_LastExpansion = None,
     gus_LastUpdated = None\<rparr>"

definition zero_type_meta :: type_meta where
  "zero_type_meta = \<lparr>tm_Kind = '''', tm_APIVersion = ''''\<rparr>"

definition zero_group :: "('q, 'm, 'l, 'sel, 'x) lib_copies \<Rightarrow> 'm PVCGroup_struct" where
  "zero_group L = \<lparr>gps_TypeMeta = zero_type_meta, gps_ObjectMeta = zero_object_meta L,
     gps_Spec = zero_group_spec, gps_Status = zero_group_status\<rparr>"

definition zero_group_list :: "('q, 'm, 'l, 'sel, 'x) lib_copies \<Rightarrow> 'l PVCGroupList_struct" where
  "zero_group_list L = \<lparr>gls_TypeMeta = zero_type_meta, gls_ListMeta = zero_list_meta L, gls_Items = None\<rparr>"

definition PVCGroupTemplate_DeepCopyInto :: "('q, 'm, 'l, 'sel, 'x) lib_copies \<Rightarrow> PVCGroupTemplate_struct \<Rightarrow>
    ('q, 'm, 'l, 'sel, 'x) api_mem \<Rightarrow> PVCGroupTemplate_struct \<times> ('q, 'm, 'l, 'sel, 'x) api_mem" where
  "PVCGroupTemplate_DeepCopyInto L inp h = (let
       (enabled, h1) = copy_optional (copy_scalar bool_kind False) (gts_Enabled inp) h;
       (threshold, h2) = copy_optional (copy_scalar string_kind '''') (gts_Threshold inp) h1;
       (inodesThreshold, h3) = copy_optional (copy_scalar string_kind '''') (gts_InodesThreshold inp) h2;
       (increase, h4) = copy_optional (copy_scalar string_kind '''') (gts_Increase inp) h3;
       (maxSize, h5) = copy_optional (copy_boxed quantity_kind (copy_quantity L)) (gts_MaxSize inp) h4;
       (minScaleUp, h6) = copy_optional (copy_boxed quantity_kind (copy_quantity L)) (gts_MinScaleUp inp) h5;
       (cooldown, h7) = copy_optional (copy_scalar duration_kind 0) (gts_Cooldown inp) h6
     in (inp\<lparr>gts_Enabled := enabled, gts_Threshold := threshold, gts_InodesThreshold := inodesThreshold,
          gts_Increase := increase, gts_MaxSize := maxSize, gts_MinScaleUp := minScaleUp, gts_Cooldown := cooldown\<rparr>, h7))"

definition PVCGroupSpec_DeepCopyInto :: "('q, 'm, 'l, 'sel, 'x) lib_copies \<Rightarrow> PVCGroupSpec_struct \<Rightarrow>
    ('q, 'm, 'l, 'sel, 'x) api_mem \<Rightarrow> PVCGroupSpec_struct \<times> ('q, 'm, 'l, 'sel, 'x) api_mem" where
  "PVCGroupSpec_DeepCopyInto L inp h = (let
       (template, h1) = PVCGroupTemplate_DeepCopyInto L (gss_Template inp) h
     in (inp\<lparr>gss_Template := template\<rparr>, h1))"

definition PVCGroupStatus_DeepCopyInto :: "('q, 'm, 'l, 'sel, 'x) lib_copies \<Rightarrow> PVCGroupStatus_struct \<Rightarrow>
    ('q, 'm, 'l, 'sel, 'x) api_mem \<Rightarrow> PVCGroupStatus_struct \<times> ('q, 'm, 'l, 'sel, 'x) api_mem" where
  "PVCGroupStatus_DeepCopyInto L inp h = (let
       (currentSize, h1) = copy_optional (copy_boxed quantity_kind (copy_quantity L)) (gus_CurrentSize inp) h;
       (lastExpansion, h2) = copy_optional (copy_time L) (gus_LastExpansion inp) h1;
       (lastUpdated, h3) = copy_optional (copy_time L) (gus_LastUpdated inp) h2
     in (inp\<lparr>gus_CurrentSize := currentSize, gus_LastExpansion := lastExpansion,
          gus_LastUpdated := lastUpdated\<rparr>, h3))"

definition PVCGroup_DeepCopyInto :: "('q, 'm, 'l, 'sel, 'x) lib_copies \<Rightarrow> 'm PVCGroup_struct \<Rightarrow>
    ('q, 'm, 'l, 'sel, 'x) api_mem \<Rightarrow> 'm PVCGroup_struct \<times> ('q, 'm, 'l, 'sel, 'x) api_mem" where
  "PVCGroup_DeepCopyInto L inp h = (let
       (meta, h1) = copy_object_meta L (gps_ObjectMeta inp) h;
       (spec, h2) = PVCGroupSpec_DeepCopyInto L (gps_Spec inp) h1;
       (status, h3) = PVCGroupStatus_DeepCopyInto L (gps_Status inp) h2
     in (inp\<lparr>gps_TypeMeta := gps_TypeMeta inp, gps_ObjectMeta := meta, gps_Spec := spec,
          gps_Status := status\<rparr>, h3))"

definition PVCGroupList_DeepCopyInto :: "('q, 'm, 'l, 'sel, 'x) lib_copies \<Rightarrow> 'l PVCGroupList_struct \<Rightarrow>
    ('q, 'm, 'l, 'sel, 'x) api_mem \<Rightarrow> 'l PVCGroupList_struct \<times> ('q, 'm, 'l, 'sel, 'x) api_mem" where
  "PVCGroupList_DeepCopyInto L inp h = (let
       (meta, h1) = copy_list_meta L (gls_ListMeta inp) h;
       (items, h2) = copy_optional (copy_slice groups_kind (zero_group L) (PVCGroup_DeepCopyInto L))
         (gls_Items inp) h1
     in (inp\<lparr>gls_TypeMeta := gls_TypeMeta inp, gls_ListMeta := meta, gls_Items := items\<rparr>, h2))"

text \<open>Each \<open>DeepCopy\<close>: nil for nil, else a new struct filled by \<open>DeepCopyInto\<close>.\<close>

definition PVCGroupTemplate_DeepCopy :: "('q, 'm, 'l, 'sel, 'x) lib_copies \<Rightarrow> addr option \<Rightarrow>
    ('q, 'm, 'l, 'sel, 'x) api_mem \<Rightarrow> addr option \<times> ('q, 'm, 'l, 'sel, 'x) api_mem" where
  "PVCGroupTemplate_DeepCopy L = copy_optional (copy_new group_template_kind zero_group_template (PVCGroupTemplate_DeepCopyInto L))"

definition PVCGroupSpec_DeepCopy :: "('q, 'm, 'l, 'sel, 'x) lib_copies \<Rightarrow> addr option \<Rightarrow>
    ('q, 'm, 'l, 'sel, 'x) api_mem \<Rightarrow> addr option \<times> ('q, 'm, 'l, 'sel, 'x) api_mem" where
  "PVCGroupSpec_DeepCopy L = copy_optional (copy_new group_spec_kind zero_group_spec (PVCGroupSpec_DeepCopyInto L))"

definition PVCGroupStatus_DeepCopy :: "('q, 'm, 'l, 'sel, 'x) lib_copies \<Rightarrow> addr option \<Rightarrow>
    ('q, 'm, 'l, 'sel, 'x) api_mem \<Rightarrow> addr option \<times> ('q, 'm, 'l, 'sel, 'x) api_mem" where
  "PVCGroupStatus_DeepCopy L = copy_optional (copy_new group_status_kind zero_group_status (PVCGroupStatus_DeepCopyInto L))"

definition PVCGroup_DeepCopy :: "('q, 'm, 'l, 'sel, 'x) lib_copies \<Rightarrow> addr option \<Rightarrow>
    ('q, 'm, 'l, 'sel, 'x) api_mem \<Rightarrow> addr option \<times> ('q, 'm, 'l, 'sel, 'x) api_mem" where
  "PVCGroup_DeepCopy L = copy_optional (copy_new group_kind (zero_group L) (PVCGroup_DeepCopyInto L))"

definition PVCGroupList_DeepCopy :: "('q, 'm, 'l, 'sel, 'x) lib_copies \<Rightarrow> addr option \<Rightarrow>
    ('q, 'm, 'l, 'sel, 'x) api_mem \<Rightarrow> addr option \<times> ('q, 'm, 'l, 'sel, 'x) api_mem" where
  "PVCGroupList_DeepCopy L = copy_optional (copy_new group_list_kind (zero_group_list L) (PVCGroupList_DeepCopyInto L))"

section \<open>Policies\<close>

definition zero_policy_template :: PVCPolicyTemplate_struct where
  "zero_policy_template = \<lparr>pts_Enabled = None, pts_Threshold = None, pts_InodesThreshold = None, pts_Increase = None,
     pts_MaxSize = None, pts_MinScaleUp = None, pts_Cooldown = None\<rparr>"

definition zero_policy_spec :: "('q, 'm, 'l, 'sel, 'x) lib_copies \<Rightarrow> 'sel PVCPolicySpec_struct" where
  "zero_policy_spec L = \<lparr>pss_Selector = zero_selector L, pss_Template = zero_policy_template\<rparr>"

definition zero_policy_status :: PVCPolicyStatus_struct where
  "zero_policy_status = \<lparr>pus_MatchedPVCs = 0, pus_LastUpdated = None\<rparr>"

definition zero_policy :: "('q, 'm, 'l, 'sel, 'x) lib_copies \<Rightarrow> ('m, 'sel) PVCPolicy_struct" where
  "zero_policy L = \<lparr>pps_TypeMeta = zero_type_meta, pps_ObjectMeta = zero_object_meta L,
     pps_Spec = zero_policy_spec L, pps_Status = zero_policy_status\<rparr>"

definition zero_policy_list :: "('q, 'm, 'l, 'sel, 'x) lib_copies \<Rightarrow> 'l PVCPolicyList_struct" where
  "zero_policy_list L = \<lparr>pls_TypeMeta = zero_type_meta, pls_ListMeta = zero_list_meta L, pls_Items = None\<rparr>"

definition PVCPolicyTemplate_DeepCopyInto :: "('q, 'm, 'l, 'sel, 'x) lib_copies \<Rightarrow> PVCPolicyTemplate_struct \<Rightarrow>
    ('q, 'm, 'l, 'sel, 'x) api_mem \<Rightarrow> PVCPolicyTemplate_struct \<times> ('q, 'm, 'l, 'sel, 'x) api_mem" where
  "PVCPolicyTemplate_DeepCopyInto L inp h = (let
       (enabled, h1) = copy_optional (copy_scalar bool_kind False) (pts_Enabled inp) h;
       (threshold, h2) = copy_optional (copy_scalar string_kind '''') (pts_Threshold inp) h1;
       (inodesThreshold, h3) = copy_optional (copy_scalar string_kind '''') (pts_InodesThreshold inp) h2;
       (increase, h4) = copy_optional (copy_scalar string_kind '''') (pts_Increase inp) h3;
       (maxSize, h5) = copy_optional (copy_boxed quantity_kind (copy_quantity L)) (pts_MaxSize inp) h4;
       (minScaleUp, h6) = copy_optional (copy_boxed quantity_kind (copy_quantity L)) (pts_MinScaleUp inp) h5;
       (cooldown, h7) = copy_optional (copy_scalar duration_kind 0) (pts_Cooldown inp) h6
     in (inp\<lparr>pts_Enabled := enabled, pts_Threshold := threshold, pts_InodesThreshold := inodesThreshold,
          pts_Increase := increase, pts_MaxSize := maxSize, pts_MinScaleUp := minScaleUp, pts_Cooldown := cooldown\<rparr>, h7))"

definition PVCPolicySpec_DeepCopyInto :: "('q, 'm, 'l, 'sel, 'x) lib_copies \<Rightarrow> 'sel PVCPolicySpec_struct \<Rightarrow>
    ('q, 'm, 'l, 'sel, 'x) api_mem \<Rightarrow> 'sel PVCPolicySpec_struct \<times> ('q, 'm, 'l, 'sel, 'x) api_mem" where
  "PVCPolicySpec_DeepCopyInto L inp h = (let
       (selector, h1) = copy_selector L (pss_Selector inp) h;
       (template, h2) = PVCPolicyTemplate_DeepCopyInto L (pss_Template inp) h1
     in (inp\<lparr>pss_Selector := selector, pss_Template := template\<rparr>, h2))"

definition PVCPolicyStatus_DeepCopyInto :: "('q, 'm, 'l, 'sel, 'x) lib_copies \<Rightarrow> PVCPolicyStatus_struct \<Rightarrow>
    ('q, 'm, 'l, 'sel, 'x) api_mem \<Rightarrow> PVCPolicyStatus_struct \<times> ('q, 'm, 'l, 'sel, 'x) api_mem" where
  "PVCPolicyStatus_DeepCopyInto L inp h = (let
       (lastUpdated, h1) = copy_optional (copy_time L) (pus_LastUpdated inp) h
     in (inp\<lparr>pus_LastUpdated := lastUpdated\<rparr>, h1))"

definition PVCPolicy_DeepCopyInto :: "('q, 'm, 'l, 'sel, 'x) lib_copies \<Rightarrow> ('m, 'sel) PVCPolicy_struct \<Rightarrow>
    ('q, 'm, 'l, 'sel, 'x) api_mem \<Rightarrow> ('m, 'sel) PVCPolicy_struct \<times> ('q, 'm, 'l, 'sel, 'x) api_mem" where
  "PVCPolicy_DeepCopyInto L inp h = (let
       (meta, h1) = copy_object_meta L (pps_ObjectMeta inp) h;
       (spec, h2) = PVCPolicySpec_DeepCopyInto L (pps_Spec inp) h1;
       (status, h3) = PVCPolicyStatus_DeepCopyInto L (pps_Status inp) h2
     in (inp\<lparr>pps_TypeMeta := pps_TypeMeta inp, pps_ObjectMeta := meta, pps_Spec := spec,
          pps_Status := status\<rparr>, h3))"

definition PVCPolicyList_DeepCopyInto :: "('q, 'm, 'l, 'sel, 'x) lib_copies \<Rightarrow> 'l PVCPolicyList_struct \<Rightarrow>
    ('q, 'm, 'l, 'sel, 'x) api_mem \<Rightarrow> 'l PVCPolicyList_struct \<times> ('q, 'm, 'l, 'sel, 'x) api_mem" where
  "PVCPolicyList_DeepCopyInto L inp h = (let
       (meta, h1) = copy_list_meta L (pls_ListMeta inp) h;
       (items, h2) = copy_optional (copy_slice policies_kind (zero_policy L) (PVCPolicy_DeepCopyInto L))
         (pls_Items inp) h1
     in (inp\<lparr>pls_TypeMeta := pls_TypeMeta inp, pls_ListMeta := meta, pls_Items := items\<rparr>, h2))"

definition PVCPolicyTemplate_DeepCopy :: "('q, 'm, 'l, 'sel, 'x) lib_copies \<Rightarrow> addr option \<Rightarrow>
    ('q, 'm, 'l, 'sel, 'x) api_mem \<Rightarrow> addr option \<times> ('q, 'm, 'l, 'sel, 'x) api_mem" where
  "PVCPolicyTemplate_DeepCopy L = copy_optional (copy_new policy_template_kind zero_policy_template (PVCPolicyTemplate_DeepCopyInto L))"

definition PVCPolicySpec_DeepCopy :: "('q, 'm, 'l, 'sel, 'x) lib_copies \<Rightarrow> addr option \<Rightarrow>
    ('q, 'm, 'l, 'sel, 'x) api_mem \<Rightarrow> addr option \<times> ('q, 'm, 'l, 'sel, 'x) api_mem" where
  "PVCPolicySpec_DeepCopy L = copy_optional (copy_new policy_spec_kind (zero_policy_spec L) (PVCPolicySpec_DeepCopyInto L))"

definition PVCPolicyStatus_DeepCopy :: "('q, 'm, 'l, 'sel, 'x) lib_copies \<Rightarrow> addr option \<Rightarrow>
    ('q, 'm, 'l, 'sel, 'x) api_mem \<Rightarrow> addr option \<times> ('q, 'm, 'l, 'sel, 'x) api_mem" where
  "PVCPolicyStatus_DeepCopy L = copy_optional (copy_new policy_status_kind zero_policy_status (PVCPolicyStatus_DeepCopyInto L))"

definition PVCPolicy_DeepCopy :: "('q, 'm, 'l, 'sel, 'x) lib_copies \<Rightarrow> addr option \<Rightarrow>
    ('q, 'm, 'l, 'sel, 'x) api_mem \<Rightarrow> addr option \<times> ('q, 'm, 'l, 'sel, 'x) api_mem" where
  "PVCPolicy_DeepCopy L = copy_optional (copy_new policy_kind (zero_policy L) (PVCPolicy_DeepCopyInto L))"

definition PVCPolicyList_DeepCopy :: "('q, 'm, 'l, 'sel, 'x) lib_copies \<Rightarrow> addr option \<Rightarrow>
    ('q, 'm, 'l, 'sel, 'x) api_mem \<Rightarrow> addr option \<times> ('q, 'm, 'l, 'sel, 'x) api_mem" where
  "PVCPolicyList_DeepCopy L = copy_optional (copy_new policy_list_kind (zero_policy_list L) (PVCPolicyList_DeepCopyInto L))"

section \<open>Copies as runtime objects\<close>

text \<open>
  An interface value is nil or a dynamic type with a pointer of that type, which may itself be
  nil: returning a nil \<open>*PVCGroup\<close> as a \<open>runtime.Object\<close> gives an interface that is not nil.
\<close>

datatype runtime_object =
    GroupObject "addr option"
  | GroupListObject "addr option"
  | PolicyObject "addr option"
  | PolicyListObject "addr option"

definition copy_as_object :: "(addr option \<Rightarrow> runtime_object) \<Rightarrow> addr option \<times> 'c mem \<Rightarrow>
    runtime_object option \<times> 'c mem" where
  "copy_as_object obj r = (case r of (c, h) \<Rightarrow> if c \<noteq> None then (Some (obj c), h) else (None, h))"

definition PVCGroup_DeepCopyObject :: "('q, 'm, 'l, 'sel, 'x) lib_copies \<Rightarrow> addr option \<Rightarrow>
    ('q, 'm, 'l, 'sel, 'x) api_mem \<Rightarrow> runtime_object option \<times> ('q, 'm, 'l, 'sel, 'x) api_mem" where
  "PVCGroup_DeepCopyObject L inp h = copy_as_object GroupObject (PVCGroup_DeepCopy L inp h)"

definition PVCGroupList_DeepCopyObject :: "('q, 'm, 'l, 'sel, 'x) lib_copies \<Rightarrow> addr option \<Rightarrow>
    ('q, 'm, 'l, 'sel, 'x) api_mem \<Rightarrow> runtime_object option \<times> ('q, 'm, 'l, 'sel, 'x) api_mem" where
  "PVCGroupList_DeepCopyObject L inp h = copy_as_object GroupListObject (PVCGroupList_DeepCopy L inp h)"

definition PVCPolicy_DeepCopyObject :: "('q, 'm, 'l, 'sel, 'x) lib_copies \<Rightarrow> addr option \<Rightarrow>
    ('q, 'm, 'l, 'sel, 'x) api_mem \<Rightarrow> runtime_object option \<times> ('q, 'm, 'l, 'sel, 'x) api_mem" where
  "PVCPolicy_DeepCopyObject L inp h = copy_as_object PolicyObject (PVCPolicy_DeepCopy L inp h)"

definition PVCPolicyList_DeepCopyObject :: "('q, 'm, 'l, 'sel, 'x) lib_copies \<Rightarrow> addr option \<Rightarrow>
    ('q, 'm, 'l, 'sel, 'x) api_mem \<Rightarrow> runtime_object option \<times> ('q, 'm, 'l, 'sel, 'x) api_mem" where
  "PVCPolicyList_DeepCopyObject L inp h = copy_as_object PolicyListObject (PVCPolicyList_DeepCopy L inp h)"

end
