(* ===== verification/DeepCopyFacts.thy ===== *)
theory DeepCopyFacts
  imports DeepCopy
begin

text \<open>
  What each struct of api/v1alpha1 stands for when read through its pointers, and that the
  generated copy of each keeps the contract of a deep copy, given that the library's do.
\<close>

section \<open>Views of the structs\<close>

text \<open>The views of library values: \<open>VQ\<close> of a quantity, \<open>VT\<close> of a pointer to a time, \<open>VM\<close> of object
  metadata (namespace, name and the rest), \<open>VL\<close> of list metadata and \<open>VS\<close> of a label selector.\<close>

record 'mv object_meta =
  om_namespace :: string
  om_name :: string
  om_rest :: 'mv

definition bool_pointer :: "(addr option, bool option, ('q, 'm, 'l, 'sel, 'x) api_cell) view" where
  "bool_pointer = pointer_view bool_kind (plain_view id)"

definition string_pointer :: "(addr option, string option, ('q, 'm, 'l, 'sel, 'x) api_cell) view" where
  "string_pointer = pointer_view string_kind (plain_view id)"

definition duration_pointer :: "(addr option, duration option, ('q, 'm, 'l, 'sel, 'x) api_cell) view" where
  "duration_pointer = pointer_view duration_kind (plain_view id)"

definition quantity_pointer :: "('q, 'qv, ('q, 'm, 'l, 'sel, 'x) api_cell) view \<Rightarrow>
    (addr option, 'qv option, ('q, 'm, 'l, 'sel, 'x) api_cell) view" where
  "quantity_pointer VQ = pointer_view quantity_kind VQ"

text \<open>The seven optional fields that both templates have, in the order of the structs.\<close>

definition template_fields_view :: "('q, 'qv, ('q, 'm, 'l, 'sel, 'x) api_cell) view \<Rightarrow>
    (addr option \<times> addr option \<times> addr option \<times> addr option \<times> addr option \<times> addr option \<times> addr option,
     bool option \<times> string option \<times> string option \<times> string option \<times> 'qv option \<times> 'qv option \<times> duration option,
     ('q, 'm, 'l, 'sel, 'x) api_cell) view" where
  "template_fields_view VQ = pair_view bool_pointer (pair_view string_pointer (pair_view string_pointer
     (pair_view string_pointer (pair_view (quantity_pointer VQ) (pair_view (quantity_pointer VQ)
       duration_pointer)))))"

definition template_fields_copy :: "('q, 'm, 'l, 'sel, 'x) lib_copies \<Rightarrow>
    addr option \<times> addr option \<times> addr option \<times> addr option \<times> addr option \<times> addr option \<times> addr option \<Rightarrow>
    ('q, 'm, 'l, 'sel, 'x) api_mem \<Rightarrow>
    (addr option \<times> addr option \<times> addr option \<times> addr option \<times> addr option \<times> addr option \<times> addr option) \<times>
      ('q, 'm, 'l, 'sel, 'x) api_mem" where
  "template_fields_copy L = pair_copy (copy_optional (copy_scalar bool_kind False))
     (pair_copy (copy_optional (copy_scalar string_kind ''''))
     (pair_copy (copy_optional (copy_scalar string_kind ''''))
     (pair_copy (copy_optional (copy_scalar string_kind ''''))
     (pair_copy (copy_optional (copy_boxed quantity_kind (copy_quantity L)))
     (pair_copy (copy_optional (copy_boxed quantity_kind (copy_quantity L)))
     (copy_optional (copy_scalar duration_kind 0)))))))"

definition group_template_view :: "('q, 'qv, ('q, 'm, 'l, 'sel, 'x) api_cell) view \<Rightarrow>
    (PVCGroupTemplate_struct, 'qv PVCGroupTemplate, ('q, 'm, 'l, 'sel, 'x) api_cell) view" where
  "group_template_view VQ = on_view
     (\<lambda>t. (gts_Enabled t, gts_Threshold t, gts_InodesThreshold t, gts_Increase t,
        gts_MaxSize t, gts_MinScaleUp t, gts_Cooldown t))
     (\<lambda>(e, t, i, n, m, s, c). \<lparr>gt_Enabled = e, gt_Threshold = t, gt_InodesThreshold = i, gt_Increase = n,
        gt_MaxSize = m, gt_MinScaleUp = s, gt_Cooldown = c\<rparr>)
     (template_fields_view VQ)"

definition group_status_view :: "('q, 'qv, ('q, 'm, 'l, 'sel, 'x) api_cell) view \<Rightarrow> (addr, time, ('q, 'm, 'l, 'sel, 'x) api_cell) view \<Rightarrow>
    (PVCGroupStatus_struct, int \<times> 'qv option \<times> time option \<times> time option, ('q, 'm, 'l, 'sel, 'x) api_cell) view" where
  "group_status_view VQ VT = on_view
     (\<lambda>s. (gus_MemberCount s, gus_CurrentSize s, gus_LastExpansion s, gus_LastUpdated s)) id
     (pair_view (plain_view id) (pair_view (quantity_pointer VQ)
       (pair_view (option_view VT) (option_view VT))))"

definition group_spec_view :: "('q, 'qv, ('q, 'm, 'l, 'sel, 'x) api_cell) view \<Rightarrow> (PVCGroupSpec_struct, 'qv PVCGroupTemplate, ('q, 'm, 'l, 'sel, 'x) api_cell) view" where
  "group_spec_view VQ = on_view gss_Template id (group_template_view VQ)"

text \<open>A group is read as its type, the group of the controllers' model, and the other metadata.\<close>

definition group_view :: "('q, 'qv, ('q, 'm, 'l, 'sel, 'x) api_cell) view \<Rightarrow> (addr, time, ('q, 'm, 'l, 'sel, 'x) api_cell) view \<Rightarrow>
    ('m, 'mv object_meta, ('q, 'm, 'l, 'sel, 'x) api_cell) view \<Rightarrow>
    ('m PVCGroup_struct, type_meta \<times> 'qv PVCGroup \<times> 'mv, ('q, 'm, 'l, 'sel, 'x) api_cell) view" where
  "group_view VQ VT VM = on_view
     (\<lambda>g. (gps_TypeMeta g, gps_ObjectMeta g, gps_Spec g, gps_Status g))
     (\<lambda>(ty, m, t, n, size, expansion, updated). (ty, \<lparr>grp_namespace = om_namespace m,
        grp_name = om_name m, grp_Template = t, grp_MemberCount = n, grp_CurrentSize = size,
        grp_LastExpansion = expansion, grp_LastUpdated = updated\<rparr>, om_rest m))
     (pair_view (plain_view id) (pair_view VM (pair_view (group_spec_view VQ) (group_status_view VQ VT))))"

definition group_list_view :: "('q, 'qv, ('q, 'm, 'l, 'sel, 'x) api_cell) view \<Rightarrow> (addr, time, ('q, 'm, 'l, 'sel, 'x) api_cell) view \<Rightarrow>
    ('m, 'mv object_meta, ('q, 'm, 'l, 'sel, 'x) api_cell) view \<Rightarrow> ('l, 'lv, ('q, 'm, 'l, 'sel, 'x) api_cell) view \<Rightarrow>
    ('l PVCGroupList_struct, type_meta \<times> 'lv \<times> (type_meta \<times> 'qv PVCGroup \<times> 'mv) list option, ('q, 'm, 'l, 'sel, 'x) api_cell) view" where
  "group_list_view VQ VT VM VL = on_view
     (\<lambda>l. (gls_TypeMeta l, gls_ListMeta l, gls_Items l)) id
     (pair_view (plain_view id) (pair_view VL (option_view (slice_view groups_kind (group_view VQ VT VM)))))"

definition policy_template_view :: "('q, 'qv, ('q, 'm, 'l, 'sel, 'x) api_cell) view \<Rightarrow>
    (PVCPolicyTemplate_struct, 'qv PVCPolicyTemplate, ('q, 'm, 'l, 'sel, 'x) api_cell) view" where
  "policy_template_view VQ = on_view
     (\<lambda>t. (pts_Enabled t, pts_Threshold t, pts_InodesThreshold t, pts_Increase t,
        pts_MaxSize t, pts_MinScaleUp t, pts_Cooldown t))
     (\<lambda>(e, t, i, n, m, s, c). \<lparr>pt_Enabled = e, pt_Threshold = t, pt_InodesThreshold = i, pt_Increase = n,
        pt_MaxSize = m, pt_MinScaleUp = s, pt_Cooldown = c\<rparr>)
     (template_fields_view VQ)"

definition policy_status_view :: "(addr, time, ('q, 'm, 'l, 'sel, 'x) api_cell) view \<Rightarrow>
    (PVCPolicyStatus_struct, int \<times> time option, ('q, 'm, 'l, 'sel, 'x) api_cell) view" where
  "policy_status_view VT = on_view (\<lambda>s. (pus_MatchedPVCs s, pus_LastUpdated s)) id
     (pair_view (plain_view id) (option_view VT))"

definition policy_spec_view :: "('q, 'qv, ('q, 'm, 'l, 'sel, 'x) api_cell) view \<Rightarrow> ('sel, 'selv, ('q, 'm, 'l, 'sel, 'x) api_cell) view \<Rightarrow>
    ('sel PVCPolicySpec_struct, 'selv \<times> 'qv PVCPolicyTemplate, ('q, 'm, 'l, 'sel, 'x) api_cell) view" where
  "policy_spec_view VQ VS = on_view (\<lambda>s. (pss_Selector s, pss_Template s)) id
     (pair_view VS (policy_template_view VQ))"

definition policy_view :: "('q, 'qv, ('q, 'm, 'l, 'sel, 'x) api_cell) view \<Rightarrow> (addr, time, ('q, 'm, 'l, 'sel, 'x) api_cell) view \<Rightarrow>
    ('m, 'mv object_meta, ('q, 'm, 'l, 'sel, 'x) api_cell) view \<Rightarrow> ('sel, 'selv, ('q, 'm, 'l, 'sel, 'x) api_cell) view \<Rightarrow>
    (('m, 'sel) PVCPolicy_struct, type_meta \<times> ('qv, 'selv) PVCPolicy \<times> 'mv, ('q, 'm, 'l, 'sel, 'x) api_cell) view" where
  "policy_view VQ VT VM VS = on_view
     (\<lambda>g. (pps_TypeMeta g, pps_ObjectMeta g, pps_Spec g, pps_Status g))
     (\<lambda>(ty, m, (sel, t), n, updated). (ty, \<lparr>pol_namespace = om_namespace m,
        pol_name = om_name m, pol_Selector = sel, pol_Template = t, pol_MatchedPVCs = n,
        pol_LastUpdated = updated\<rparr>, om_rest m))
     (pair_view (plain_view id) (pair_view VM (pair_view (policy_spec_view VQ VS) (policy_status_view VT))))"

definition policy_list_view :: "('q, 'qv, ('q, 'm, 'l, 'sel, 'x) api_cell) view \<Rightarrow> (addr, time, ('q, 'm, 'l, 'sel, 'x) api_cell) view \<Rightarrow>
    ('m, 'mv object_meta, ('q, 'm, 'l, 'sel, 'x) api_cell) view \<Rightarrow> ('sel, 'selv, ('q, 'm, 'l, 'sel, 'x) api_cell) view \<Rightarrow> ('l, 'lv, ('q, 'm, 'l, 'sel, 'x) api_cell) view \<Rightarrow>
    ('l PVCPolicyList_struct,
      type_meta \<times> 'lv \<times> (type_meta \<times> ('qv, 'selv) PVCPolicy \<times> 'mv) list option, ('q, 'm, 'l, 'sel, 'x) api_cell) view" where
  "policy_list_view VQ VT VM VS VL = on_view
     (\<lambda>l. (pls_TypeMeta l, pls_ListMeta l, pls_Items l)) id
     (pair_view (plain_view id) (pair_view VL (option_view (slice_view policies_kind (policy_view VQ VT VM VS)))))"

section \<open>The generated copies keep the contract\<close>

text \<open>What the generated code relies on of k8s.io/apimachinery: its \<open>DeepCopy\<close>s are deep copies.\<close>

locale library_copies =
  fixes L :: "('q, 'm, 'l, 'sel, 'x) lib_copies"
    and VQ :: "('q, 'qv, ('q, 'm, 'l, 'sel, 'x) api_cell) view"
    and VT :: "(addr, time, ('q, 'm, 'l, 'sel, 'x) api_cell) view"
    and VM :: "('m, 'mv object_meta, ('q, 'm, 'l, 'sel, 'x) api_cell) view"
    and VS :: "('sel, 'selv, ('q, 'm, 'l, 'sel, 'x) api_cell) view"
    and VL :: "('l, 'lv, ('q, 'm, 'l, 'sel, 'x) api_cell) view"
  assumes quantity_copy: "deep_copying VQ (copy_quantity L)"
    and time_copy: "deep_copying VT (copy_time L)"
    and object_meta_copy: "deep_copying VM (copy_object_meta L)"
    and selector_copy: "deep_copying VS (copy_selector L)"
    and list_meta_copy: "deep_copying VL (copy_list_meta L)"

lemmas pointer_copying = optional_copying [OF scalar_copying, folded pointer_view_def]
  and boxed_pointer_copying = optional_copying [OF boxed_copying, folded pointer_view_def]
  and deep_copy_copying = optional_copying [OF new_copying, folded pointer_view_def]

context library_copies
begin

lemma template_fields_copies: "deep_copying (template_fields_view VQ) (template_fields_copy L)"
  unfolding template_fields_view_def template_fields_copy_def bool_pointer_def string_pointer_def
    duration_pointer_def quantity_pointer_def
  by (intro pair_copying pointer_copying boxed_pointer_copying quantity_copy kinds_ok)

lemma quantity_pointer_copies: "deep_copying (quantity_pointer VQ)
    (copy_optional (copy_boxed quantity_kind (copy_quantity L)))"
  unfolding quantity_pointer_def by (intro boxed_pointer_copying quantity_copy kinds_ok)

lemma group_template_copies: "deep_copying (group_template_view VQ) (PVCGroupTemplate_DeepCopyInto L)"
  unfolding group_template_view_def
  by (rule on_copying [OF template_fields_copies, where struct_of = "\<lambda>(e, t, i, n, m, s, c).
      \<lparr>gts_Enabled = e, gts_Threshold = t, gts_InodesThreshold = i,
       gts_Increase = n, gts_MaxSize = m, gts_MinScaleUp = s, gts_Cooldown = c\<rparr>"])
    (auto simp: PVCGroupTemplate_DeepCopyInto_def template_fields_copy_def pair_copy_def Let_def split: prod.splits)

lemma group_spec_copies: "deep_copying (group_spec_view VQ) (PVCGroupSpec_DeepCopyInto L)"
  unfolding group_spec_view_def
  by (rule on_copying [OF group_template_copies, where struct_of = PVCGroupSpec_struct.make])
    (auto simp: PVCGroupSpec_DeepCopyInto_def PVCGroupSpec_struct.make_def Let_def split: prod.splits)

lemma group_status_copies: "deep_copying (group_status_view VQ VT) (PVCGroupStatus_DeepCopyInto L)"
  unfolding group_status_view_def
proof (rule on_copying [where struct_of = "\<lambda>(n, c, e, u). PVCGroupStatus_struct.make n c e u"])
  show "deep_copying (pair_view (plain_view id) (pair_view (quantity_pointer VQ)
      (pair_view (option_view VT) (option_view VT))))
    (pair_copy plain_copy (pair_copy (copy_optional (copy_boxed quantity_kind (copy_quantity L)))
      (pair_copy (copy_optional (copy_time L)) (copy_optional (copy_time L)))))"
    by (intro pair_copying plain_copying quantity_pointer_copies optional_copying time_copy)
qed (auto simp: PVCGroupStatus_DeepCopyInto_def PVCGroupStatus_struct.make_def pair_copy_def plain_copy_def
    Let_def split: prod.splits)

lemma group_copies: "deep_copying (group_view VQ VT VM) (PVCGroup_DeepCopyInto L)"
  unfolding group_view_def
proof (rule on_copying [where struct_of = "\<lambda>(ty, m, sp, st). PVCGroup_struct.make ty m sp st"])
  show "deep_copying
      (pair_view (plain_view id) (pair_view VM (pair_view (group_spec_view VQ) (group_status_view VQ VT))))
    (pair_copy plain_copy (pair_copy (copy_object_meta L)
      (pair_copy (PVCGroupSpec_DeepCopyInto L) (PVCGroupStatus_DeepCopyInto L))))"
    by (intro pair_copying plain_copying object_meta_copy group_spec_copies group_status_copies)
qed (auto simp: PVCGroup_DeepCopyInto_def PVCGroup_struct.make_def pair_copy_def plain_copy_def Let_def
    split: prod.splits)

lemma group_list_copies: "deep_copying (group_list_view VQ VT VM VL) (PVCGroupList_DeepCopyInto L)"
  unfolding group_list_view_def
proof (rule on_copying [where struct_of = "\<lambda>(ty, m, is). PVCGroupList_struct.make ty m is"])
  show "deep_copying
      (pair_view (plain_view id) (pair_view VL (option_view (slice_view groups_kind (group_view VQ VT VM)))))
    (pair_copy plain_copy (pair_copy (copy_list_meta L)
      (copy_optional (copy_slice groups_kind (zero_group L) (PVCGroup_DeepCopyInto L)))))"
    by (intro pair_copying plain_copying list_meta_copy optional_copying slice_copying group_copies kinds_ok)
qed (auto simp: PVCGroupList_DeepCopyInto_def PVCGroupList_struct.make_def pair_copy_def plain_copy_def Let_def
    split: prod.splits)

lemma policy_template_copies: "deep_copying (policy_template_view VQ) (PVCPolicyTemplate_DeepCopyInto L)"
  unfolding policy_template_view_def
  by (rule on_copying [OF template_fields_copies, where struct_of = "\<lambda>(e, t, i, n, m, s, c).
      \<lparr>pts_Enabled = e, pts_Threshold = t, pts_InodesThreshold = i,
       pts_Increase = n, pts_MaxSize = m, pts_MinScaleUp = s, pts_Cooldown = c\<rparr>"])
    (auto simp: PVCPolicyTemplate_DeepCopyInto_def template_fields_copy_def pair_copy_def Let_def split: prod.splits)

lemma policy_spec_copies: "deep_copying (policy_spec_view VQ VS) (PVCPolicySpec_DeepCopyInto L)"
  unfolding policy_spec_view_def
  by (rule on_copying [OF pair_copying [OF selector_copy policy_template_copies],
        where struct_of = "\<lambda>(sel, t). PVCPolicySpec_struct.make sel t"])
    (auto simp: PVCPolicySpec_DeepCopyInto_def PVCPolicySpec_struct.make_def pair_copy_def Let_def
      split: prod.splits)

lemma policy_status_copies: "deep_copying (policy_status_view VT) (PVCPolicyStatus_DeepCopyInto L)"
  unfolding policy_status_view_def
  by (rule on_copying [OF pair_copying [OF plain_copying optional_copying [OF time_copy]],
        where struct_of = "\<lambda>(n, u). PVCPolicyStatus_struct.make n u"])
    (auto simp: PVCPolicyStatus_DeepCopyInto_def PVCPolicyStatus_struct.make_def pair_copy_def plain_copy_def
      Let_def split: prod.splits)

lemma policy_copies: "deep_copying (policy_view VQ VT VM VS) (PVCPolicy_DeepCopyInto L)"
  unfolding policy_view_def
proof (rule on_copying [where struct_of = "\<lambda>(ty, m, sp, st). PVCPolicy_struct.make ty m sp st"])
  show "deep_copying
      (pair_view (plain_view id) (pair_view VM (pair_view (policy_spec_view VQ VS) (policy_status_view VT))))
    (pair_copy plain_copy (pair_copy (copy_object_meta L)
      (pair_copy (PVCPolicySpec_DeepCopyInto L) (PVCPolicyStatus_DeepCopyInto L))))"
    by (intro pair_copying plain_copying object_meta_copy policy_spec_copies policy_status_copies)
qed (auto simp: PVCPolicy_DeepCopyInto_def PVCPolicy_struct.make_def pair_copy_def plain_copy_def Let_def
    split: prod.splits)

lemma policy_list_copies: "deep_copying (policy_list_view VQ VT VM VS VL) (PVCPolicyList_DeepCopyInto L)"
  unfolding policy_list_view_def
proof (rule on_copying [where struct_of = "\<lambda>(ty, m, is). PVCPolicyList_struct.make ty m is"])
  show "deep_copying
      (pair_view (plain_view id) (pair_view VL (option_view (slice_view policies_kind (policy_view VQ VT VM VS)))))
    (pair_copy plain_copy (pair_copy (copy_list_meta L)
      (copy_optional (copy_slice policies_kind (zero_policy L) (PVCPolicy_DeepCopyInto L)))))"
    by (intro pair_copying plain_copying list_meta_copy optional_copying slice_copying policy_copies kinds_ok)
qed (auto simp: PVCPolicyList_DeepCopyInto_def PVCPolicyList_struct.make_def pair_copy_def plain_copy_def Let_def
    split: prod.splits)

end

text \<open>So each \<open>DeepCopy\<close> of a pointer keeps it too.\<close>

sublocale library_copies \<subseteq> group: deep_copying "pointer_view group_kind (group_view VQ VT VM)"
    "PVCGroup_DeepCopy L"
  unfolding PVCGroup_DeepCopy_def by (intro deep_copy_copying group_copies kinds_ok)

sublocale library_copies \<subseteq> group_list: deep_copying "pointer_view group_list_kind (group_list_view VQ VT VM VL)"
    "PVCGroupList_DeepCopy L"
  unfolding PVCGroupList_DeepCopy_def by (intro deep_copy_copying group_list_copies kinds_ok)

sublocale library_copies \<subseteq> policy: deep_copying "pointer_view policy_kind (policy_view VQ VT VM VS)"
    "PVCPolicy_DeepCopy L"
  unfolding PVCPolicy_DeepCopy_def by (intro deep_copy_copying policy_copies kinds_ok)

sublocale library_copies \<subseteq> policy_list: deep_copying "pointer_view policy_list_kind (policy_list_view VQ VT VM VS VL)"
    "PVCPolicyList_DeepCopy L"
  unfolding PVCPolicyList_DeepCopy_def by (intro deep_copy_copying policy_list_copies kinds_ok)

sublocale library_copies \<subseteq> group_template: deep_copying "pointer_view group_template_kind (group_template_view VQ)"
    "PVCGroupTemplate_DeepCopy L"
  unfolding PVCGroupTemplate_DeepCopy_def by (intro deep_copy_copying group_template_copies kinds_ok)

sublocale library_copies \<subseteq> group_spec: deep_copying "pointer_view group_spec_kind (group_spec_view VQ)"
    "PVCGroupSpec_DeepCopy L"
  unfolding PVCGroupSpec_DeepCopy_def by (intro deep_copy_copying group_spec_copies kinds_ok)

sublocale library_copies \<subseteq> group_status: deep_copying "pointer_view group_status_kind (group_status_view VQ VT)"
    "PVCGroupStatus_DeepCopy L"
  unfolding PVCGroupStatus_DeepCopy_def by (intro deep_copy_copying group_status_copies kinds_ok)

sublocale library_copies \<subseteq> policy_template: deep_copying "pointer_view policy_template_kind (policy_template_view VQ)"
    "PVCPolicyTemplate_DeepCopy L"
  unfolding PVCPolicyTemplate_DeepCopy_def by (intro deep_copy_copying policy_template_copies kinds_ok)

sublocale library_copies \<subseteq> policy_spec: deep_copying "pointer_view policy_spec_kind (policy_spec_view VQ VS)"
    "PVCPolicySpec_DeepCopy L"
  unfolding PVCPolicySpec_DeepCopy_def by (intro deep_copy_copying policy_spec_copies kinds_ok)

sublocale library_copies \<subseteq> policy_status: deep_copying "pointer_view policy_status_kind (policy_status_view VT)"
    "PVCPolicyStatus_DeepCopy L"
  unfolding PVCPolicyStatus_DeepCopy_def by (intro deep_copy_copying policy_status_copies kinds_ok)

text \<open>The values behind a pointer to a root object, and a memory after writes through a pointer.\<close>

abbreviation "group_pointer VQ VT VM \<equiv> pointer_view group_kind (group_view VQ VT VM)"
abbreviation "policy_pointer VQ VT VM VS \<equiv> pointer_view policy_kind (policy_view VQ VT VM VS)"
abbreviation "group_list_pointer VQ VT VM VL \<equiv>
  pointer_view group_list_kind (group_list_view VQ VT VM VL)"
abbreviation "policy_list_pointer VQ VT VM VS VL \<equiv>
  pointer_view policy_list_kind (policy_list_view VQ VT VM VS VL)"

text \<open>
  \<open>written_through V h a k\<close>: the memory \<open>k\<close> differs from \<open>h\<close> in cells reached from \<open>a\<close> and cells
  allocated since, and in no other.
\<close>

definition written_through :: "('a, 'v, 'c) view \<Rightarrow> 'c mem \<Rightarrow> 'a \<Rightarrow> 'c mem \<Rightarrow> bool" where
  "written_through V h a k \<longleftrightarrow> mem_next h \<le> mem_next k \<and> same_on (allocated h - vw_foot V h a) h k"

lemma copied_object:
  assumes "deep_copying (pointer_view K V) (copy_optional c)"
    and "vw_valid (pointer_view K V) h p" and "copy_as_object obj (copy_optional c p h) = (r, h')"
  shows "case p of None \<Rightarrow> r = None \<and> h' = h
    | Some a \<Rightarrow> (\<exists>b. r = Some (obj (Some b)) \<and> b \<in> fresh_between h h' \<and> extends h h' \<and>
        vw_read (pointer_view K V) h' (Some b) = vw_read (pointer_view K V) h p)"
proof (cases p)
  case None
  then show ?thesis using assms(3) by (simp add: copy_optional_def copy_as_object_def)
next
  case (Some a)
  obtain b where run: "copy_optional c p h = (Some b, h')" and r: "r = Some (obj (Some b))"
    using assms(3) Some by (cases "c a h") (auto simp: copy_optional_def copy_as_object_def)
  from deep_copying.copied [OF assms(1,2) run]
  have "vw_read (pointer_view K V) h' (Some b) = vw_read (pointer_view K V) h p" "extends h h'"
    "b \<in> fresh_between h h'"
    by (auto simp: pointer_view_def option_view_def cell_view_def)
  then show ?thesis unfolding Some r by auto
qed

context library_copies
begin

lemmas group_isolated = group.write_through_copy group.write_through_original

lemmas policy_isolated = policy.write_through_copy policy.write_through_original

end

end
