(* ===== verification/DeepCopyProperties.thy ===== *)
theory DeepCopyProperties
  imports DeepCopyFacts
begin

text \<open>
  The properties of the generated deep copies, and the instance their witnesses compute with: a
  library whose quantities, metadata and selectors are pointers to their data, copied with it.
\<close>

section \<open>A library with data behind its values\<close>

datatype library_data =
    AmountData (the_amount: int)
  | InstantData (the_instant: time)
  | MetaData (the_meta: "(string \<times> string) list object_meta")
  | LabelData (the_labels: "(string \<times> string) list")

type_synonym ref_cell = "(addr, addr, string, addr, library_data) api_cell"

definition data_kind :: "(library_data \<Rightarrow> bool) \<Rightarrow> (library_data \<Rightarrow> 'a) \<Rightarrow> ('a \<Rightarrow> library_data) \<Rightarrow>
    (ref_cell, 'a) kind" where
  "data_kind is_data get put = \<lparr>kind_is = (\<lambda>c. is_LibraryCell c \<and> is_data (the_library c)),
     kind_get = (\<lambda>c. get (the_library c)), kind_put = (\<lambda>x. LibraryCell (put x))\<rparr>"

definition amount_data :: "(ref_cell, int) kind" where
  "amount_data = data_kind is_AmountData the_amount AmountData"

definition instant_data :: "(ref_cell, time) kind" where
  "instant_data = data_kind is_InstantData the_instant InstantData"

definition meta_data :: "(ref_cell, (string \<times> string) list object_meta) kind" where
  "meta_data = data_kind is_MetaData the_meta MetaData"

definition label_data :: "(ref_cell, (string \<times> string) list) kind" where
  "label_data = data_kind is_LabelData the_labels LabelData"

lemmas data_defs = amount_data_def instant_data_def meta_data_def label_data_def data_kind_def

definition ref_library :: "(addr, addr, string, addr, library_data) lib_copies" where
  "ref_library = \<lparr>copy_quantity = copy_scalar amount_data 0, copy_time = copy_scalar instant_data 0,
     copy_object_meta = copy_scalar meta_data \<lparr>om_namespace = '''', om_name = '''', om_rest = []\<rparr>,
     copy_list_meta = plain_copy, copy_selector = copy_scalar label_data [],
     zero_object_meta = 0, zero_list_meta = '''', zero_selector = 0\<rparr>"

definition ref_VQ :: "(addr, int, ref_cell) view" where
  "ref_VQ = cell_view amount_data (plain_view id)"

definition ref_VT :: "(addr, time, ref_cell) view" where
  "ref_VT = cell_view instant_data (plain_view id)"

definition ref_VM :: "(addr, (string \<times> string) list object_meta, ref_cell) view" where
  "ref_VM = cell_view meta_data (plain_view id)"

definition ref_VS :: "(addr, (string \<times> string) list, ref_cell) view" where
  "ref_VS = cell_view label_data (plain_view id)"

definition ref_VL :: "(string, string, ref_cell) view" where
  "ref_VL = plain_view id"

lemma data_kinds_ok [simp]: "kind_ok amount_data" "kind_ok instant_data" "kind_ok meta_data" "kind_ok label_data"
  by (simp_all add: kind_ok_def data_defs)

interpretation ref_lib: library_copies ref_library ref_VQ ref_VT ref_VM ref_VS ref_VL
  by (rule library_copies.intro)
    (simp_all add: ref_library_def ref_VQ_def ref_VT_def ref_VM_def ref_VS_def ref_VL_def
      scalar_copying plain_copying)

text \<open>
  A memory with a list of one group at 7, whose largest size and current size are the same
  quantity, and a list of two policies at 10 with the same
  pointers; the group alone is at 11, the policy at 12.
\<close>

definition shared_group :: "addr PVCGroup_struct" where
  "shared_group = \<lparr>gps_TypeMeta = \<lparr>tm_Kind = ''PVCGroup'', tm_APIVersion = ''v1alpha1''\<rparr>,
     gps_ObjectMeta = 5,
     gps_Spec = \<lparr>gss_Template = zero_group_template\<lparr>gts_Enabled := Some 0, gts_Threshold := Some 1,
       gts_MaxSize := Some 2\<rparr>\<rparr>,
     gps_Status = zero_group_status\<lparr>gus_MemberCount := 2, gus_CurrentSize := Some 2,
       gus_LastExpansion := Some 4\<rparr>\<rparr>"

definition shared_policy :: "(addr, addr) PVCPolicy_struct" where
  "shared_policy = \<lparr>pps_TypeMeta = \<lparr>tm_Kind = ''PVCPolicy'', tm_APIVersion = ''v1alpha1''\<rparr>,
     pps_ObjectMeta = 5,
     pps_Spec = \<lparr>pss_Selector = 8, pss_Template = zero_policy_template\<lparr>pts_Increase := Some 1\<rparr>\<rparr>,
     pps_Status = \<lparr>pus_MatchedPVCs = 3, pus_LastUpdated = Some 4\<rparr>\<rparr>"

definition shared_cells :: "ref_cell list" where
  "shared_cells = [BoolCell True, StringCell ''80%'', QuantityCell 3, LibraryCell (AmountData 100),
     LibraryCell (InstantData 7),
     LibraryCell (MetaData \<lparr>om_namespace = ''default'', om_name = ''db'', om_rest = []\<rparr>),
     GroupArrayCell [shared_group],
     GroupListCell \<lparr>gls_TypeMeta = zero_type_meta, gls_ListMeta = ''1'',
       gls_Items = Some \<lparr>sl_array = 6, sl_offset = 0, sl_len = 1\<rparr>\<rparr>,
     LibraryCell (LabelData [(''app'', ''db'')]),
     PolicyArrayCell [shared_policy, shared_policy],
     PolicyListCell \<lparr>pls_TypeMeta = zero_type_meta, pls_ListMeta = ''1'',
       pls_Items = Some \<lparr>sl_array = 9, sl_offset = 0, sl_len = 2\<rparr>\<rparr>,
     GroupCell shared_group, PolicyCell shared_policy]"

definition shared_mem :: "ref_cell mem" where
  "shared_mem = \<lparr>mem_next = 13,
     mem_cells = (\<lambda>a. if a < 13 then shared_cells ! a else BoolCell False)\<rparr>"

lemmas view_defs = pointer_view_def option_view_def cell_view_def on_view_def pair_view_def
  plain_view_def slice_view_def slice_items_def load_def cell_at_def allocated_def
  group_list_view_def group_view_def group_spec_view_def group_status_view_def group_template_view_def
  policy_list_view_def policy_view_def policy_spec_view_def policy_status_view_def
  policy_template_view_def template_fields_view_def bool_pointer_def string_pointer_def
  duration_pointer_def quantity_pointer_def ref_VQ_def ref_VT_def ref_VM_def ref_VS_def ref_VL_def

lemmas shared_defs = shared_mem_def shared_cells_def shared_group_def shared_policy_def
  zero_group_template_def zero_group_status_def zero_policy_template_def

lemma shared_group_list: "vw_valid (pointer_view group_list_kind
    (group_list_view ref_VQ ref_VT ref_VM ref_VL)) shared_mem (Some 7)"
  by (simp add: view_defs data_defs kind_defs shared_defs)

lemma shared_policy_list: "vw_valid (pointer_view policy_list_kind
    (policy_list_view ref_VQ ref_VT ref_VM ref_VS ref_VL)) shared_mem (Some 10)"
  by (simp add: view_defs data_defs kind_defs shared_defs)

lemma shared_group_pointer: "vw_valid (group_pointer ref_VQ ref_VT ref_VM) shared_mem (Some 11)"
  by (simp add: view_defs data_defs kind_defs shared_defs)

lemma shared_policy_pointer: "vw_valid (policy_pointer ref_VQ ref_VT ref_VM ref_VS) shared_mem (Some 12)"
  by (simp add: view_defs data_defs kind_defs shared_defs)

section \<open>The properties\<close>

text \<open>C12. The copy the client library takes of a list of groups or of policies (through
  \<open>DeepCopyObject\<close>) reads, through all its pointers and items, exactly as the original did; it is
  a new object, every cell that was allocated keeps its value, and a nil list gives the nil
  interface and not an interface that holds a nil pointer. Assumed: the library's copies inside
  are deep copies.\<close>

theorem list_copies_read_the_same:
  assumes "library_copies L VQ VT VM VS VL"
    and "vw_valid (group_list_pointer VQ VT VM VL) h p"
    and "PVCGroupList_DeepCopyObject L p h = (obj, h')"
    and "vw_valid (policy_list_pointer VQ VT VM VS VL) k q"
    and "PVCPolicyList_DeepCopyObject L q k = (obj', k')"
  shows "(case p of None \<Rightarrow> obj = None \<and> h' = h
      | Some a \<Rightarrow> (\<exists>b. obj = Some (GroupListObject (Some b)) \<and> b \<in> fresh_between h h' \<and> extends h h' \<and>
          vw_read (group_list_pointer VQ VT VM VL) h' (Some b) =
            vw_read (group_list_pointer VQ VT VM VL) h p)) \<and>
    (case q of None \<Rightarrow> obj' = None \<and> k' = k
      | Some a \<Rightarrow> (\<exists>b. obj' = Some (PolicyListObject (Some b)) \<and> b \<in> fresh_between k k' \<and> extends k k' \<and>
          vw_read (policy_list_pointer VQ VT VM VS VL) k' (Some b) =
            vw_read (policy_list_pointer VQ VT VM VS VL) k q))"
proof (intro conjI)
  note groups = library_copies.group_list_copies [OF assms(1)]
  note policies = library_copies.policy_list_copies [OF assms(1)]
  from copied_object [OF deep_copy_copying [OF groups kinds_ok(9)] assms(2)]
  show "case p of None \<Rightarrow> obj = None \<and> h' = h
      | Some a \<Rightarrow> (\<exists>b. obj = Some (GroupListObject (Some b)) \<and> b \<in> fresh_between h h' \<and> extends h h' \<and>
          vw_read (group_list_pointer VQ VT VM VL) h' (Some b) =
            vw_read (group_list_pointer VQ VT VM VL) h p)"
    using assms(3) unfolding PVCGroupList_DeepCopyObject_def PVCGroupList_DeepCopy_def .
  from copied_object [OF deep_copy_copying [OF policies kinds_ok(15)] assms(4)]
  show "case q of None \<Rightarrow> obj' = None \<and> k' = k
      | Some a \<Rightarrow> (\<exists>b. obj' = Some (PolicyListObject (Some b)) \<and> b \<in> fresh_between k k' \<and> extends k k' \<and>
          vw_read (policy_list_pointer VQ VT VM VS VL) k' (Some b) =
            vw_read (policy_list_pointer VQ VT VM VS VL) k q)"
    using assms(5) unfolding PVCPolicyList_DeepCopyObject_def PVCPolicyList_DeepCopy_def .
qed

theorem list_copies_read_the_same_witness:
  "\<exists>b c. fst (PVCGroupList_DeepCopyObject ref_library (Some 7) shared_mem) = Some (GroupListObject (Some b)) \<and>
     fst (PVCPolicyList_DeepCopyObject ref_library (Some 10) shared_mem) = Some (PolicyListObject (Some c))"
  using list_copies_read_the_same [OF ref_lib.library_copies_axioms shared_group_list prod.collapse [symmetric]
      shared_policy_list prod.collapse [symmetric]] by auto

text \<open>C9. A copied group or policy shares no memory with the original: whatever is written through
  the pointers of the copy, the original reads as before, and whatever is written through the
  original, the copy still reads as the original did when it was copied. So a controller that
  changes the object its client gave it cannot change the one in the client's cache.\<close>

theorem copies_share_no_memory:
  assumes "library_copies L VQ VT VM VS VL"
    and "vw_valid (group_pointer VQ VT VM) h p" and "PVCGroup_DeepCopy L p h = (p', h')"
    and "vw_valid (policy_pointer VQ VT VM VS) k q" and "PVCPolicy_DeepCopy L q k = (q', k')"
  shows "(\<forall>m. (written_through (group_pointer VQ VT VM) h' p' m \<longrightarrow>
        vw_read (group_pointer VQ VT VM) m p = vw_read (group_pointer VQ VT VM) h p) \<and>
      (written_through (group_pointer VQ VT VM) h' p m \<longrightarrow>
        vw_read (group_pointer VQ VT VM) m p' = vw_read (group_pointer VQ VT VM) h p)) \<and>
    (\<forall>m. (written_through (policy_pointer VQ VT VM VS) k' q' m \<longrightarrow>
        vw_read (policy_pointer VQ VT VM VS) m q = vw_read (policy_pointer VQ VT VM VS) k q) \<and>
      (written_through (policy_pointer VQ VT VM VS) k' q m \<longrightarrow>
        vw_read (policy_pointer VQ VT VM VS) m q' = vw_read (policy_pointer VQ VT VM VS) k q))"
  unfolding written_through_def
  using library_copies.group_isolated [OF assms(1-3)] library_copies.policy_isolated [OF assms(1,4,5)]
  by blast

text \<open>
  At the group 11 the copy is at 13 and its threshold at 16: written there, the new threshold is
  read through the copy and not through the original.
\<close>

definition copied_mem :: "ref_cell mem" where
  "copied_mem = snd (PVCGroup_DeepCopy ref_library (Some 11) shared_mem)"

definition rewritten_mem :: "ref_cell mem" where
  "rewritten_mem = write_cell 16 (StringCell ''10%'') copied_mem"

lemmas copy_defs = PVCGroup_DeepCopy_def PVCGroup_DeepCopyInto_def PVCGroupSpec_DeepCopyInto_def
  PVCGroupStatus_DeepCopyInto_def PVCGroupTemplate_DeepCopyInto_def copy_optional_def copy_new_def
  copy_scalar_def copy_boxed_def plain_copy_def new_cell_def write_cell_def ref_library_def

lemma copy_at_13: "PVCGroup_DeepCopy ref_library (Some 11) shared_mem = (Some 13, copied_mem)"
  unfolding copied_mem_def
  by (simp add: copy_defs data_defs kind_defs shared_defs load_def cell_at_def)

lemma threshold_at_16: "written_through (group_pointer ref_VQ ref_VT ref_VM) copied_mem (Some 13) rewritten_mem \<and>
   map_option (\<lambda>(_, g, _). gt_Threshold (grp_Template g))
     (vw_read (group_pointer ref_VQ ref_VT ref_VM) rewritten_mem (Some 13)) = Some (Some ''10%'')"
  unfolding rewritten_mem_def copied_mem_def written_through_def
  by (simp add: copy_defs data_defs kind_defs shared_defs view_defs same_on_def)

theorem copies_share_no_memory_witness:
  "map_option (\<lambda>(_, g, _). gt_Threshold (grp_Template g))
     (vw_read (group_pointer ref_VQ ref_VT ref_VM) rewritten_mem (Some 13)) = Some (Some ''10%'') \<and>
   vw_read (group_pointer ref_VQ ref_VT ref_VM) rewritten_mem (Some 11) =
     vw_read (group_pointer ref_VQ ref_VT ref_VM) shared_mem (Some 11)"
  using copies_share_no_memory [OF ref_lib.library_copies_axioms shared_group_pointer copy_at_13
      shared_policy_pointer prod.collapse [symmetric]] threshold_at_16 by blast

end
